theory Spec2Isabelle
  imports Complex_Main "HOL-Library.Sublist"
begin

section \<open>Python values shared by the pipeline components\<close>

text \<open>
  A Python \<open>str\<close> is modelled as a \<^typ>\<open>string\<close>: a list of characters whose code
  points lie below 256. Exceptions are values of the type \<open>exn\<close>; a function that may
  raise returns \<open>exn + 'a\<close>, with \<open>Inl\<close> for the exception that leaves the function.
\<close>

datatype exn =
    IndexError
  | KeyError
  | TypeError
  | AttributeError
  | ValueError
  | RuntimeError
  | JSONDecodeError
  | RecursionError
  | RequestError string

definition ebind :: "exn + 'a \<Rightarrow> ('a \<Rightarrow> exn + 'b) \<Rightarrow> exn + 'b" where
  "ebind m f = (case m of Inl e \<Rightarrow> Inl e | Inr x \<Rightarrow> f x)"

text \<open>
  A Python or NumPy float: a real number, an infinity or a not-a-number. \<open>flt_less\<close> is
  \<open><\<close> and \<open>flt_ge\<close> is \<open>>=\<close>; every comparison with a not-a-number is false.
\<close>

datatype flt = NaN | NegInf | Fin real | PosInf

fun flt_less :: "flt \<Rightarrow> flt \<Rightarrow> bool" where
  "flt_less (Fin a) (Fin b) = (a < b)"
| "flt_less NegInf (Fin b) = True"
| "flt_less NegInf PosInf = True"
| "flt_less (Fin a) PosInf = True"
| "flt_less _ _ = False"

definition flt_ge :: "flt \<Rightarrow> flt \<Rightarrow> bool" where
  "flt_ge x y \<longleftrightarrow> x \<noteq> NaN \<and> y \<noteq> NaN \<and> \<not> flt_less x y"

subsection \<open>Character classes\<close>

text \<open>
  \<open>isspace\<close> is the whitespace of \<open>str.split()\<close>, \<open>str.strip()\<close> and of the regular
  expression class \<open>\s\<close> on \<open>str\<close> patterns; \<open>ascii_alnum\<close> is the class
  \<open>[a-zA-Z0-9]\<close>; \<open>isalnum\<close> is \<open>str.isalnum\<close>.
\<close>

definition isspace :: "char \<Rightarrow> bool" where
  "isspace c = (c \<in> set [CHR 0x09, CHR 0x0A, CHR 0x0B, CHR 0x0C, CHR 0x0D,
                           CHR 0x1C, CHR 0x1D, CHR 0x1E, CHR 0x1F, CHR 0x20,
                           CHR 0x85, CHR 0xA0])"

definition ascii_alnum :: "char \<Rightarrow> bool" where
  "ascii_alnum c =
     (let n = (of_char c :: nat)
      in (48 \<le> n \<and> n \<le> 57) \<or> (65 \<le> n \<and> n \<le> 90) \<or> (97 \<le> n \<and> n \<le> 122))"

definition isalnum :: "char \<Rightarrow> bool" where
  "isalnum c =
     (let n = (of_char c :: nat)
      in ascii_alnum c \<or> n = 170 \<or> n = 178 \<or> n = 179 \<or> n = 181 \<or> n = 185 \<or> n = 186
         \<or> (188 \<le> n \<and> n \<le> 190) \<or> (192 \<le> n \<and> n \<le> 214) \<or> (216 \<le> n \<and> n \<le> 246)
         \<or> 248 \<le> n)"

subsection \<open>String methods\<close>

text \<open>\<open>s.split()\<close>: the maximal runs of non-whitespace characters, in order.\<close>

fun split_from :: "string \<Rightarrow> string \<Rightarrow> string list" where
  "split_from cur [] = (if cur = [] then [] else [cur])"
| "split_from cur (c # cs) =
     (if isspace c
      then (if cur = [] then split_from [] cs else cur # split_from [] cs)
      else split_from (cur @ [c]) cs)"

definition py_split :: "string \<Rightarrow> string list" where
  "py_split s = split_from [] s"

text \<open>\<open>s.strip()\<close>: whitespace removed at both ends.\<close>

definition py_strip :: "string \<Rightarrow> string" where
  "py_strip s = rev (dropWhile isspace (rev (dropWhile isspace s)))"

text \<open>\<open>sep.join(xs)\<close>.\<close>

fun py_join :: "string \<Rightarrow> string list \<Rightarrow> string" where
  "py_join sep [] = []"
| "py_join sep [x] = x"
| "py_join sep (x # y # ys) = x @ sep @ py_join sep (y # ys)"

text \<open>
  \<open>xs[:k]\<close> for a Python integer \<open>k\<close>: a negative \<open>k\<close> counts from the end of the list.
\<close>

definition py_take :: "int \<Rightarrow> 'a list \<Rightarrow> 'a list" where
  "py_take k xs =
     (if 0 \<le> k then take (nat k) xs else take (length xs - nat (- k)) xs)"

section \<open>Paragraph Cleaner\<close>

text \<open>
  \<open>re.sub(r'<.*?>', '', text)\<close>: every leftmost, shortest stretch from a \<open><\<close> to the next
  \<open>>\<close> on the same line is deleted (\<open>.\<close> does not match a line feed). The flag of
  \<open>sub_tags\<close> says that the scan is inside such a stretch.
\<close>

fun closes :: "string \<Rightarrow> bool" where
  "closes [] = False"
| "closes (c # cs) =
     (if c = CHR ''>'' then True else if c = CHR 0x0A then False else closes cs)"

fun sub_tags :: "bool \<Rightarrow> string \<Rightarrow> string" where
  "sub_tags inside [] = []"
| "sub_tags True (c # cs) =
     (if c = CHR ''>'' then sub_tags False cs else sub_tags True cs)"
| "sub_tags False (c # cs) =
     (if c = CHR ''<'' \<and> closes cs then sub_tags True cs else c # sub_tags False cs)"

text \<open>
  \<open>re.sub(r'\s+', ' ', text)\<close>: every maximal run of whitespace becomes one space. The
  flag says that the previous character belonged to a run already replaced.
\<close>

fun sub_spaces :: "bool \<Rightarrow> string \<Rightarrow> string" where
  "sub_spaces in_run [] = []"
| "sub_spaces in_run (c # cs) =
     (if isspace c
      then (if in_run then sub_spaces True cs else CHR '' '' # sub_spaces True cs)
      else c # sub_spaces False cs)"

text \<open>
  \<open>ParagraphCleaner._clean\<close> (papers/Cleaner.py) and \<open>clean_paragraph_spacy\<close> with its
  default \<open>remove_short=True\<close> (papers/pipeline.py). The sentence segmentation of the
  external NLP library is the parameter \<open>sents\<close>: the texts of \<open>doc.sents\<close> for a given
  text. \<open>normalise\<close> is the text handed to the segmentation, \<open>segmented\<close> the list
  \<open>sentences\<close> before the length filter, \<open>kept_sentences\<close> the list after it.
\<close>

definition normalise :: "string \<Rightarrow> string" where
  "normalise text = py_strip (sub_spaces False (sub_tags False text))"

definition segmented :: "(string \<Rightarrow> string list) \<Rightarrow> string \<Rightarrow> string list" where
  "segmented sents text = map py_strip (sents (normalise text))"

definition kept_sentences :: "(string \<Rightarrow> string list) \<Rightarrow> int \<Rightarrow> string \<Rightarrow> string list" where
  "kept_sentences sents min_words text =
     filter (\<lambda>s. min_words \<le> int (length (py_split s))) (segmented sents text)"

definition ParagraphCleaner_clean1 :: "(string \<Rightarrow> string list) \<Rightarrow> int \<Rightarrow> string \<Rightarrow> string" where
  "ParagraphCleaner_clean1 sents min_words text =
     py_join '' '' (kept_sentences sents min_words text)"

text \<open>
  \<open>ParagraphCleaner.clean\<close>: the cleaned texts of the paragraphs whose cleaned text is not
  empty, in the order of the paragraphs.
\<close>

definition ParagraphCleaner_clean :: "(string \<Rightarrow> string list) \<Rightarrow> int \<Rightarrow> string list \<Rightarrow> string list" where
  "ParagraphCleaner_clean sents min_words paragraphs =
     map (ParagraphCleaner_clean1 sents min_words)
       (filter (\<lambda>p. ParagraphCleaner_clean1 sents min_words p \<noteq> []) paragraphs)"

text \<open>A segmentation used to run the cleaner on concrete texts: it cuts after each full stop.\<close>

fun cut_at_stops :: "string \<Rightarrow> string \<Rightarrow> string list" where
  "cut_at_stops cur [] = (if cur = [] then [] else [cur])"
| "cut_at_stops cur (c # cs) =
     (if c = CHR ''.'' then (cur @ [c]) # cut_at_stops [] cs else cut_at_stops (cur @ [c]) cs)"

section \<open>Query Builder\<close>

text \<open>
  \<open>ArxivSearcher.build_query\<close> (papers/QueryAPI.py) and \<open>build_arxiv_query\<close>
  (papers/pipeline.py), which have the same body. A ranked keyword is a pair of the
  keyword and its score; the score is not read, so its type is left open. \<open>join_query\<close>
  is the body after the keywords \<open>kws\<close> have been taken from the list.
\<close>

definition join_query :: "string list \<Rightarrow> string \<Rightarrow> string" where
  "join_query kws summary_text =
     (let combined = py_join '' '' kws @ '' '' @ summary_text;
          combined = filter (\<lambda>c. ascii_alnum c \<or> isspace c) combined
      in py_join ''+'' (py_split combined))"

definition build_query :: "(string \<times> 'score) list \<Rightarrow> string \<Rightarrow> int \<Rightarrow> string" where
  "build_query ranked_keywords summary_text top_n =
     join_query (map fst (py_take top_n ranked_keywords)) summary_text"

definition build_query_default :: "(string \<times> 'score) list \<Rightarrow> string \<Rightarrow> string" where
  "build_query_default ranked_keywords summary_text = build_query ranked_keywords summary_text 5"

section \<open>Citation Formatter\<close>

text \<open>
  A paper record is the dictionary built by the Paper Searcher, with the key
  \<open>relevance\<close> added by the Semantic Ranker. Every key may be absent (\<open>None\<close>), which is
  what \<open>paper.get(key, default)\<close> and \<open>paper[key]\<close> tell apart; the values have the types
  the Paper Searcher gives them.
\<close>

record paper =
  title :: "string option"
  link :: "string option"
  summary :: "string option"
  authors :: "string list option"
  year :: "string option"
  relevance :: "flt option"

definition get :: "'a option \<Rightarrow> 'a \<Rightarrow> 'a" where
  "get field dflt = (case field of None \<Rightarrow> dflt | Some v \<Rightarrow> v)"

definition dq :: string where
  "dq = [CHR 0x22]"

definition sq :: string where
  "sq = [CHR 0x27]"

definition nl :: string where
  "nl = [CHR 0x0A]"

text \<open>\<open>str(n)\<close> for a Python integer.\<close>

fun digits :: "nat \<Rightarrow> string" where
  "digits n =
     (if n < 10 then [char_of (48 + n)] else digits (n div 10) @ [char_of (48 + n mod 10)])"

definition str_int :: "int \<Rightarrow> string" where
  "str_int i = (if i < 0 then ''-'' @ digits (nat (- i)) else digits (nat i))"

text \<open>
  \<open>name_parts a\<close> is the pair \<open>(a.split()[-1], a.split()[0][0])\<close>: the last word of an
  author name and the first character of its first word. Indexing the empty word list
  raises \<open>IndexError\<close>.
\<close>

definition name_parts :: "string \<Rightarrow> exn + (string \<times> char)" where
  "name_parts a =
     (case py_split a of
        [] \<Rightarrow> Inl IndexError
      | w # ws \<Rightarrow> (case w of [] \<Rightarrow> Inl IndexError | c # _ \<Rightarrow> Inr (last (w # ws), c)))"

text \<open>\<open>CitationFormatter._format_authors\<close>, used by the Harvard and Chicago styles.\<close>

fun format_authors :: "string list \<Rightarrow> exn + string" where
  "format_authors [] = Inr ''''"
| "format_authors [x] =
     ebind (name_parts x) (\<lambda>(l, f). Inr (l @ '', '' @ [f] @ ''.''))"
| "format_authors [x, y] =
     ebind (name_parts x) (\<lambda>(l1, f1).
     ebind (name_parts y) (\<lambda>(l2, f2).
       Inr (l1 @ '', '' @ [f1] @ ''. and '' @ l2 @ '', '' @ [f2] @ ''.'')))"
| "format_authors [x, y, z] =
     ebind (name_parts x) (\<lambda>(l1, f1).
     ebind (name_parts y) (\<lambda>(l2, f2).
     ebind (name_parts z) (\<lambda>(l3, f3).
       Inr (l1 @ '', '' @ [f1] @ ''., '' @ l2 @ '', '' @ [f2] @ '' and ''
            @ l3 @ '', '' @ [f3] @ ''.''))))"
| "format_authors (x # y # z # u # us) =
     ebind (name_parts x) (\<lambda>(l1, f1). Inr (l1 @ '', '' @ [f1] @ ''. et al.''))"

text \<open>
  \<open>CitationFormatter._format_authors_apa\<close> and \<open>_format_authors_mla\<close>. The words of
  \<open>a.split()\<close> are never empty, so \<open>p[0]\<close> is the first character of \<open>p\<close>.
\<close>

definition apa_name :: "string \<Rightarrow> exn + string" where
  "apa_name a =
     (case py_split a of
        [] \<Rightarrow> Inl IndexError
      | w # ws \<Rightarrow>
          Inr (last (w # ws) @ '', ''
               @ py_join '' '' (map (\<lambda>p. take 1 p @ ''.'') (butlast (w # ws)))))"

fun map_exn :: "('a \<Rightarrow> exn + 'b) \<Rightarrow> 'a list \<Rightarrow> exn + 'b list" where
  "map_exn f [] = Inr []"
| "map_exn f (x # xs) =
     ebind (f x) (\<lambda>y. ebind (map_exn f xs) (\<lambda>ys. Inr (y # ys)))"

definition format_authors_apa :: "string list \<Rightarrow> exn + string" where
  "format_authors_apa authors_list =
     (if authors_list = [] then Inr ''''
      else ebind (map_exn apa_name (take 7 authors_list)) (\<lambda>formatted.
             Inr (py_join '', & ''
                    (if 7 < length authors_list then formatted @ [''et al.''] else formatted))))"

definition mla_name :: "string \<Rightarrow> exn + string" where
  "mla_name a =
     (case py_split a of
        [] \<Rightarrow> Inl IndexError
      | w # ws \<Rightarrow> Inr (last (w # ws) @ '', '' @ py_join '' '' (butlast (w # ws))))"

definition format_authors_mla :: "string list \<Rightarrow> exn + string" where
  "format_authors_mla authors_list =
     (if authors_list = [] then Inr ''''
      else ebind (map_exn mla_name authors_list) (\<lambda>formatted. Inr (py_join '', '' formatted)))"

definition ieee_name :: "string \<Rightarrow> exn + string" where
  "ieee_name a = ebind (name_parts a) (\<lambda>(l, f). Inr (l @ '' '' @ [f] @ ''.''))"

text \<open>
  The six styles of \<open>CitationFormatter\<close>. The wall clock is the parameter \<open>now\<close>:
  \<open>now fmt\<close> is the text of \<open>datetime.now().strftime(fmt)\<close>.
\<close>

definition harvard :: "(string \<Rightarrow> string) \<Rightarrow> paper \<Rightarrow> exn + string" where
  "harvard now p =
     ebind (format_authors (get (authors p) [])) (\<lambda>authors_str.
       Inr (authors_str @ '' ('' @ get (year p) ''n.d.'' @ '') '' @ sq
            @ get (title p) ''No title'' @ sq @ '', arXiv. Available at: ''
            @ get (link p) '''' @ '' (Accessed: '' @ now ''%d %b %Y'' @ '').''))"

definition apa :: "paper \<Rightarrow> exn + string" where
  "apa p =
     ebind (format_authors_apa (get (authors p) [])) (\<lambda>authors_str.
       Inr (authors_str @ '' ('' @ get (year p) ''n.d.'' @ ''). ''
            @ get (title p) ''No title'' @ ''. arXiv. '' @ get (link p) ''''))"

definition mla :: "(string \<Rightarrow> string) \<Rightarrow> paper \<Rightarrow> exn + string" where
  "mla now p =
     ebind (format_authors_mla (get (authors p) [])) (\<lambda>authors_str.
       Inr (authors_str @ ''. '' @ dq @ get (title p) ''No title'' @ ''.'' @ dq
            @ '' arXiv, '' @ get (year p) ''n.d.'' @ ''. Web. Accessed ''
            @ now ''%d %b %Y'' @ ''. '' @ get (link p) '''' @ ''.''))"

definition chicago :: "(string \<Rightarrow> string) \<Rightarrow> paper \<Rightarrow> exn + string" where
  "chicago now p =
     ebind (format_authors (get (authors p) [])) (\<lambda>authors_str.
       Inr (authors_str @ ''. '' @ dq @ get (title p) ''No title'' @ ''.'' @ dq
            @ '' arXiv, '' @ get (year p) ''n.d.'' @ ''. Accessed ''
            @ now ''%B %d, %Y'' @ ''. '' @ get (link p) '''' @ ''.''))"

definition ieee :: "paper \<Rightarrow> int \<Rightarrow> exn + string" where
  "ieee p number =
     ebind (map_exn ieee_name (get (authors p) [])) (\<lambda>names.
       Inr (''['' @ str_int number @ ''] '' @ py_join '', '' names @ '', '' @ dq
            @ get (title p) ''No title'' @ '','' @ dq @ '' arXiv, ''
            @ get (year p) ''n.d.'' @ ''. '' @ get (link p) ''''))"

definition bibtex :: "paper \<Rightarrow> exn + string" where
  "bibtex p =
     (let authors_str = py_join '' and '' (get (authors p) []);
          citation_key = take 20 (filter isalnum (get (title p) ''No title''))
                         @ get (year p) ''n.d.''
      in Inr (''@misc{'' @ citation_key @ '','' @ nl
              @ ''  author = {'' @ authors_str @ ''},'' @ nl
              @ ''  title = {'' @ get (title p) ''No title'' @ ''},'' @ nl
              @ ''  year = {'' @ get (year p) ''n.d.'' @ ''},'' @ nl
              @ ''  howpublished = {arXiv},'' @ nl
              @ ''  note = {Available at: '' @ get (link p) '''' @ ''}'' @ nl @ ''}''))"

text \<open>
  \<open>CitationFormatter.format\<close>: the styles of its list are dispatched to the method of the
  same name (\<open>getattr\<close>), every other style to \<open>harvard\<close>.
\<close>

definition format :: "(string \<Rightarrow> string) \<Rightarrow> paper \<Rightarrow> string \<Rightarrow> exn + string" where
  "format now p style =
     (if style \<in> set [''harvard'', ''apa'', ''mla'', ''chicago'', ''bibtex'']
      then (if style = ''harvard'' then harvard now p
            else if style = ''apa'' then apa p
            else if style = ''mla'' then mla now p
            else if style = ''chicago'' then chicago now p
            else bibtex p)
      else harvard now p)"

text \<open>
  \<open>format_harvard\<close> of papers/pipeline.py, which formats the authors in its own body.
\<close>

definition format_harvard :: "(string \<Rightarrow> string) \<Rightarrow> paper \<Rightarrow> exn + string" where
  "format_harvard now p =
     (let authors_list = get (authors p) [];
          num_authors = length authors_list
      in ebind
           (if num_authors = 0 then Inr ''''
            else if num_authors = 1 then
              ebind (name_parts (authors_list ! 0)) (\<lambda>(l, f). Inr (l @ '', '' @ [f] @ ''.''))
            else if num_authors = 2 then
              ebind (name_parts (authors_list ! 0)) (\<lambda>(l1, f1).
              ebind (name_parts (authors_list ! 1)) (\<lambda>(l2, f2).
                Inr (l1 @ '', '' @ [f1] @ ''. and '' @ l2 @ '', '' @ [f2] @ ''.'')))
            else if num_authors = 3 then
              ebind (name_parts (authors_list ! 0)) (\<lambda>(l1, f1).
              ebind (name_parts (authors_list ! 1)) (\<lambda>(l2, f2).
              ebind (name_parts (authors_list ! 2)) (\<lambda>(l3, f3).
                Inr (l1 @ '', '' @ [f1] @ ''., '' @ l2 @ '', '' @ [f2] @ '' and ''
                     @ l3 @ '', '' @ [f3] @ ''.''))))
            else
              ebind (name_parts (authors_list ! 0)) (\<lambda>(l1, f1).
                Inr (l1 @ '', '' @ [f1] @ ''. et al.'')))
           (\<lambda>authors_str.
              Inr (authors_str @ '' ('' @ get (year p) ''n.d.'' @ '') '' @ sq
                   @ get (title p) ''No title'' @ sq @ '', arXiv. Available at: ''
                   @ get (link p) '''' @ '' (Accessed: '' @ now ''%d %b %Y'' @ '').'')))"

text \<open>A clock and papers used to run the formatter on concrete inputs.\<close>

definition fixed_clock :: "string \<Rightarrow> string" where
  "fixed_clock fmt =
     (if fmt = ''%d %b %Y'' then ''03 Nov 2026''
      else if fmt = ''%B %d, %Y'' then ''November 03, 2026'' else fmt)"

definition three_authors :: "string list" where
  "three_authors = [''Ada Lovelace'', ''Alan Turing'', ''Grace Brewster Hopper'']"

definition turing_paper :: paper where
  "turing_paper =
     \<lparr> title = Some ''On Computable Numbers'', link = Some ''http://arxiv.org/abs/1'',
       summary = Some ''Machines that compute.'', authors = Some [''Alan Turing''],
       year = Some ''1936'', relevance = None \<rparr>"

section \<open>Semantic Ranker\<close>

text \<open>
  The embedding model is the parameter \<open>encode\<close>: the vector of a text, a list of float
  values. The float arithmetic of the numeric library is a parameter too, the record
  \<open>numerics\<close>: \<open>np_dot\<close> is \<open>np.dot\<close> and \<open>np_norm\<close> is \<open>np.linalg.norm\<close> on vectors,
  \<open>f_mul\<close> and \<open>f_div\<close> are \<open>*\<close> and \<open>/\<close> on floats, \<open>f_round x n\<close> is \<open>round(x, n)\<close>.
  What they compute, rounding errors and not-a-number results included, is left to
  the library; the ranker is the code that combines them. \<open>np.dot\<close> raises \<open>ValueError\<close>
  on vectors of different lengths.
\<close>

type_synonym vec = "real list"

record numerics =
  np_dot :: "vec \<Rightarrow> vec \<Rightarrow> flt"
  np_norm :: "vec \<Rightarrow> flt"
  f_mul :: "flt \<Rightarrow> flt \<Rightarrow> flt"
  f_div :: "flt \<Rightarrow> flt \<Rightarrow> flt"
  f_round :: "flt \<Rightarrow> int \<Rightarrow> flt"

text \<open>
  \<open>np.dot(para_emb, pe)/(np.linalg.norm(para_emb)*np.linalg.norm(pe))\<close> and
  \<open>round(sim*100, 2)\<close>.
\<close>

definition cosine_similarity :: "numerics \<Rightarrow> vec \<Rightarrow> vec \<Rightarrow> exn + flt" where
  "cosine_similarity nm a b =
     (if length a \<noteq> length b then Inl ValueError
      else Inr (f_div nm (np_dot nm a b) (f_mul nm (np_norm nm a) (np_norm nm b))))"

definition relevance_of :: "numerics \<Rightarrow> flt \<Rightarrow> flt" where
  "relevance_of nm sim = f_round nm (f_mul nm sim (Fin 100)) 2"

text \<open>
  \<open>sims.sort(key=lambda x: x[1], reverse=True)\<close>: the sort is stable, also with
  \<open>reverse\<close>, and compares the keys with \<open><\<close> only. It is modelled by insertion from the
  right: an element goes behind the elements in front of which its key is \<open><\<close>. Where
  \<open><\<close> orders the keys totally this is the one stable arrangement into descending
  order. With a key that is a not-a-number \<open>list.sort\<close> still returns a permutation of
  the list, which depends on its runs and merges; the model agrees with it on lists of
  two elements, which both leave as they are, and nothing below depends on the
  arrangement of a longer list with such a key.
\<close>

fun insert_desc :: "nat \<times> flt \<Rightarrow> (nat \<times> flt) list \<Rightarrow> (nat \<times> flt) list" where
  "insert_desc x [] = [x]"
| "insert_desc x (y # ys) =
     (if flt_less (snd x) (snd y) then y # insert_desc x ys else x # y # ys)"

definition sort_desc :: "(nat \<times> flt) list \<Rightarrow> (nat \<times> flt) list" where
  "sort_desc sims = foldr insert_desc sims []"

text \<open>
  \<open>top_sims\<close> is the list \<open>sims[:top_k]\<close> of \<open>SemanticRanker.rank\<close>: the pairs of a paper's
  index and its similarity, sorted and cut to the first \<open>top_k\<close>.
  \<open>p['summary']\<close> raises \<open>KeyError\<close> for a paper without that key.
\<close>

definition abstract_of :: "paper \<Rightarrow> exn + string" where
  "abstract_of p = (case summary p of None \<Rightarrow> Inl KeyError | Some t \<Rightarrow> Inr t)"

definition top_sims :: "numerics \<Rightarrow> (string \<Rightarrow> vec) \<Rightarrow> string \<Rightarrow> paper list \<Rightarrow> int \<Rightarrow> exn + (nat \<times> flt) list" where
  "top_sims nm encode paragraph_summary papers top_k =
     (let para_emb = encode paragraph_summary
      in ebind (map_exn abstract_of papers) (\<lambda>texts.
         let paper_embs = map encode texts
         in ebind (map_exn (\<lambda>(i, pe). ebind (cosine_similarity nm para_emb pe) (\<lambda>sim. Inr (i, sim)))
                     (enumerate 0 paper_embs)) (\<lambda>sims.
            Inr (py_take top_k (sort_desc sims)))))"

text \<open>
  \<open>SemanticRanker.rank\<close> (papers/SemanticRanker.py) and \<open>rank_papers_by_relevance\<close>
  (papers/pipeline.py), which have the same body, on the values of the paper records.
\<close>

definition annotate :: "numerics \<Rightarrow> paper list \<Rightarrow> nat \<times> flt \<Rightarrow> paper" where
  "annotate nm papers x = (papers ! fst x)\<lparr>relevance := Some (relevance_of nm (snd x))\<rparr>"

definition rank :: "numerics \<Rightarrow> (string \<Rightarrow> vec) \<Rightarrow> string \<Rightarrow> paper list \<Rightarrow> int \<Rightarrow> exn + paper list" where
  "rank nm encode paragraph_summary papers top_k =
     (if papers = [] then Inr []
      else ebind (top_sims nm encode paragraph_summary papers top_k) (\<lambda>tops.
             Inr (map (annotate nm papers) tops)))"

definition rank_default :: "numerics \<Rightarrow> (string \<Rightarrow> vec) \<Rightarrow> string \<Rightarrow> paper list \<Rightarrow> exn + paper list" where
  "rank_default nm encode paragraph_summary papers = rank nm encode paragraph_summary papers 3"

text \<open>
  Two facts of round-to-nearest float arithmetic that the properties below rest on:
  scaling by 100 and rounding to two places keep the order of two floats that are
  numbers and give numbers, and they take zero to zero. \<open>no_nan\<close> says that no
  similarity of a run is a not-a-number.
\<close>

definition monotone_rounding :: "numerics \<Rightarrow> bool" where
  "monotone_rounding nm \<longleftrightarrow>
     (\<forall>x y. flt_ge x y \<longrightarrow>
        flt_ge (f_round nm (f_mul nm x (Fin 100)) 2) (f_round nm (f_mul nm y (Fin 100)) 2))
     \<and> f_round nm (f_mul nm (Fin 0) (Fin 100)) 2 = Fin 0"

definition no_nan :: "numerics \<Rightarrow> (string \<Rightarrow> vec) \<Rightarrow> string \<Rightarrow> paper list \<Rightarrow> bool" where
  "no_nan nm enc s papers \<longleftrightarrow>
     (\<forall>p \<in> set papers. \<forall>t. summary p = Some t \<longrightarrow>
        cosine_similarity nm (enc s) (enc t) \<noteq> Inr NaN)"

text \<open>
  A numeric library with exact arithmetic and the rules of IEEE 754 for infinities and
  not-a-number (\<open>0/0\<close> is a not-a-number, \<open>x/0\<close> an infinity for \<open>x\<close> other than zero;
  NumPy warns and does not raise). It agrees with the float arithmetic of NumPy wherever
  the exact result of every operation is a float, and it is used only to run the ranker
  on such inputs: the similarities there are 1, 0, -1 and not-a-number. \<open>rint\<close> rounds
  to the nearest integer, ties to the even one, as \<open>round\<close> does.
\<close>

definition rint :: "real \<Rightarrow> int" where
  "rint x =
     (let f = \<lfloor>x\<rfloor>; d = x - of_int f
      in if d < 1 / 2 then f else if 1 / 2 < d then f + 1 else if even f then f else f + 1)"

definition flt_sign :: "flt \<Rightarrow> int" where
  "flt_sign x =
     (case x of
        NaN \<Rightarrow> 0
      | NegInf \<Rightarrow> - 1
      | Fin a \<Rightarrow> if a < 0 then - 1 else if a = 0 then 0 else 1
      | PosInf \<Rightarrow> 1)"

definition signed_inf :: "int \<Rightarrow> flt" where
  "signed_inf s = (if s = 0 then NaN else if 0 < s then PosInf else NegInf)"

definition exact_mul :: "flt \<Rightarrow> flt \<Rightarrow> flt" where
  "exact_mul x y =
     (case (x, y) of
        (Fin a, Fin b) \<Rightarrow> Fin (a * b)
      | _ \<Rightarrow> if x = NaN \<or> y = NaN then NaN else signed_inf (flt_sign x * flt_sign y))"

definition exact_div :: "flt \<Rightarrow> flt \<Rightarrow> flt" where
  "exact_div x y =
     (case (x, y) of
        (Fin a, Fin b) \<Rightarrow> if b = 0 then signed_inf (flt_sign x) else Fin (a / b)
      | (Fin a, NegInf) \<Rightarrow> Fin 0
      | (Fin a, PosInf) \<Rightarrow> Fin 0
      | (NegInf, Fin b) \<Rightarrow> if b < 0 then PosInf else NegInf
      | (PosInf, Fin b) \<Rightarrow> if b < 0 then NegInf else PosInf
      | _ \<Rightarrow> NaN)"

definition exact_round :: "flt \<Rightarrow> int \<Rightarrow> flt" where
  "exact_round x n =
     (case x of
        Fin a \<Rightarrow> if 0 \<le> n then Fin (of_int (rint (a * 10 ^ nat n)) / 10 ^ nat n)
                 else Fin (of_int (rint (a / 10 ^ nat (- n))) * 10 ^ nat (- n))
      | _ \<Rightarrow> x)"

definition exact_numerics :: numerics where
  "exact_numerics =
     \<lparr> np_dot = (\<lambda>a b. Fin (sum_list (map2 (*) a b))),
       np_norm = (\<lambda>a. Fin (sqrt (sum_list (map (\<lambda>x. x * x) a)))),
       f_mul = exact_mul, f_div = exact_div, f_round = exact_round \<rparr>"

text \<open>
  An embedding used to run the ranker on concrete inputs: it looks at the first
  character of the text only.
\<close>

definition axis_encode :: "string \<Rightarrow> vec" where
  "axis_encode t =
     (case t of
        [] \<Rightarrow> [1, 0]
      | c # _ \<Rightarrow> if c = CHR ''a'' then [1, 0] else if c = CHR ''b'' then [0, 1]
                 else if c = CHR ''c'' then [3, 0] else if c = CHR ''z'' then [0, 0]
                 else [-1, 0])"

definition paper_with_abstract :: "string \<Rightarrow> paper" where
  "paper_with_abstract t =
     \<lparr> title = Some t, link = Some ''http://arxiv.org/abs/2'', summary = Some t,
       authors = Some [''Ada Lovelace''], year = Some ''1843'', relevance = None \<rparr>"

definition four_papers :: "paper list" where
  "four_papers = [paper_with_abstract ''doors'', paper_with_abstract ''bees'',
                  paper_with_abstract ''cats'', paper_with_abstract ''ants'']"

subsection \<open>The ranker on a store of objects\<close>

text \<open>
  To say what \<open>rank\<close> does to its arguments, the dictionaries and lists are objects of a
  store and are passed by reference. A store is the list of the objects allocated so
  far; the address of an object is its position, and a new object is put at the end.
  The values inside a dictionary are immutable here; \<open>dict.copy()\<close> allocates a
  dictionary with the same keys and values. \<open>RuntimeError\<close> stands for an address
  outside the store, which no Python reference is.
\<close>

datatype obj = DictObj paper | ListObj "nat list"

type_synonym store = "obj list"

definition alloc :: "obj \<Rightarrow> store \<Rightarrow> nat \<times> store" where
  "alloc v h = (length h, h @ [v])"

definition deref_dict :: "store \<Rightarrow> nat \<Rightarrow> exn + paper" where
  "deref_dict h a =
     (if a < length h then (case h ! a of DictObj p \<Rightarrow> Inr p | ListObj xs \<Rightarrow> Inl TypeError)
      else Inl RuntimeError)"

definition deref_list :: "store \<Rightarrow> nat \<Rightarrow> exn + nat list" where
  "deref_list h a =
     (if a < length h then (case h ! a of ListObj xs \<Rightarrow> Inr xs | DictObj p \<Rightarrow> Inl TypeError)
      else Inl RuntimeError)"

text \<open>\<open>top_papers.append(paper)\<close>, for the list at address \<open>r\<close>.\<close>

definition append_ref :: "nat \<Rightarrow> nat \<Rightarrow> store \<Rightarrow> store" where
  "append_ref r a h = (case h ! r of ListObj xs \<Rightarrow> h[r := ListObj (xs @ [a])] | DictObj p \<Rightarrow> h)"

text \<open>
  The loop \<open>for idx, sim in sims[:top_k]\<close>: the dictionary \<open>papers[idx]\<close> is copied,
  the copy gets the key \<open>relevance\<close>, and its address is appended to \<open>top_papers\<close>.
\<close>

fun annotate_loop :: "numerics \<Rightarrow> nat list \<Rightarrow> (nat \<times> flt) list \<Rightarrow> nat \<Rightarrow> store \<Rightarrow> (exn + nat) \<times> store" where
  "annotate_loop nm refs [] r h = (Inr r, h)"
| "annotate_loop nm refs (x # rest) r h =
     (case deref_dict h (refs ! fst x) of
        Inl e \<Rightarrow> (Inl e, h)
      | Inr p \<Rightarrow>
          (let (a, h1) = alloc (DictObj p) h;
               h2 = h1[a := DictObj (p\<lparr>relevance := Some (relevance_of nm (snd x))\<rparr>)];
               h3 = append_ref r a h2
           in annotate_loop nm refs rest r h3))"

text \<open>
  \<open>SemanticRanker.rank\<close> on the store: \<open>papers_ref\<close> is the address of the list
  \<open>papers\<close>, and the result is the address of the new list \<open>top_papers\<close>, or the
  exception raised, together with the store after the call.
\<close>

definition rank_store :: "numerics \<Rightarrow> (string \<Rightarrow> vec) \<Rightarrow> string \<Rightarrow> nat \<Rightarrow> int \<Rightarrow> store \<Rightarrow> (exn + nat) \<times> store" where
  "rank_store nm encode paragraph_summary papers_ref top_k h =
     (case deref_list h papers_ref of
        Inl e \<Rightarrow> (Inl e, h)
      | Inr refs \<Rightarrow>
          if refs = [] then (let (r, h1) = alloc (ListObj []) h in (Inr r, h1))
          else (case map_exn (deref_dict h) refs of
                  Inl e \<Rightarrow> (Inl e, h)
                | Inr papers \<Rightarrow>
                    (case top_sims nm encode paragraph_summary papers top_k of
                       Inl e \<Rightarrow> (Inl e, h)
                     | Inr tops \<Rightarrow>
                         (let (r, h1) = alloc (ListObj []) h
                          in annotate_loop nm refs tops r h1))))"

definition four_papers_store :: store where
  "four_papers_store = map DictObj four_papers @ [ListObj [0, 1, 2, 3]]"

section \<open>Keyword/Summary Extractor and Keyword Ranker\<close>

datatype json =
    JNull
  | JBool bool
  | JNum real
  | JStr string
  | JArr "json list"
  | JObj "(string \<times> json) list"

text \<open>
  \<open>json.loads\<close> is the parameter \<open>loads\<close>: for a text, the value it returns or the
  exception it raises, which is \<open>JSONDecodeError\<close> for a text that is not JSON and
  \<open>RecursionError\<close> or \<open>ValueError\<close> for a text beyond the limits of the interpreter.
\<close>

definition json_loads :: "(string \<Rightarrow> exn + json) \<Rightarrow> string \<Rightarrow> exn + json" where
  "json_loads loads t = loads t"

text \<open>
  \<open>j.get(k, dflt)\<close>, \<open>j[k]\<close>, \<open>for x in j\<close> and \<open>len(j)\<close> on a value that \<open>json.loads\<close>
  returned. Only a dictionary has \<open>get\<close> and string keys; iterating a string gives its
  characters, iterating a dictionary its keys. \<open>as_str\<close> is the use of a value where
  only a \<open>str\<close> is accepted (\<open>" ".join\<close>, \<open>+\<close> with a string).
\<close>

definition dict_get :: "json \<Rightarrow> string \<Rightarrow> json \<Rightarrow> exn + json" where
  "dict_get j k dflt =
     (case j of
        JObj kvs \<Rightarrow> Inr (case map_of kvs k of None \<Rightarrow> dflt | Some v \<Rightarrow> v)
      | _ \<Rightarrow> Inl AttributeError)"

definition subscript :: "json \<Rightarrow> string \<Rightarrow> exn + json" where
  "subscript j k =
     (case j of
        JObj kvs \<Rightarrow> (case map_of kvs k of None \<Rightarrow> Inl KeyError | Some v \<Rightarrow> Inr v)
      | _ \<Rightarrow> Inl TypeError)"

definition iterate :: "json \<Rightarrow> exn + json list" where
  "iterate j =
     (case j of
        JArr xs \<Rightarrow> Inr xs
      | JStr s \<Rightarrow> Inr (map (\<lambda>c. JStr [c]) s)
      | JObj kvs \<Rightarrow> Inr (map (\<lambda>kv. JStr (fst kv)) kvs)
      | _ \<Rightarrow> Inl TypeError)"

definition py_len :: "json \<Rightarrow> exn + nat" where
  "py_len j =
     (case j of
        JArr xs \<Rightarrow> Inr (length xs)
      | JStr s \<Rightarrow> Inr (length s)
      | JObj kvs \<Rightarrow> Inr (length kvs)
      | _ \<Rightarrow> Inl TypeError)"

definition as_str :: "json \<Rightarrow> exn + string" where
  "as_str j = (case j of JStr s \<Rightarrow> Inr s | _ \<Rightarrow> Inl TypeError)"

text \<open>
  \<open>re.sub(r"```json|```", "", llm_text, flags=re.IGNORECASE).strip()\<close>: every fence,
  with or without the word \<open>json\<close> in any case, is deleted. The counter of \<open>sub_fences\<close>
  is the number of characters of the current match still to be dropped.
\<close>

definition lower_ascii :: "char \<Rightarrow> char" where
  "lower_ascii c =
     (let n = (of_char c :: nat) in if 65 \<le> n \<and> n \<le> 90 then char_of (n + 32) else c)"

definition fence_json :: "string \<Rightarrow> bool" where
  "fence_json s = (take 3 s = ''```'' \<and> map lower_ascii (take 4 (drop 3 s)) = ''json'')"

fun sub_fences :: "nat \<Rightarrow> string \<Rightarrow> string" where
  "sub_fences skip [] = []"
| "sub_fences (Suc k) (c # cs) = sub_fences k cs"
| "sub_fences 0 (c # cs) =
     (if fence_json (c # cs) then sub_fences 6 cs
      else if take 3 (c # cs) = ''```'' then sub_fences 2 cs
      else c # sub_fences 0 cs)"

definition clean_response :: "string \<Rightarrow> string" where
  "clean_response llm_text = py_strip (sub_fences 0 llm_text)"


text \<open>
  The hosted endpoint is the parameter \<open>call_llm\<close>: \<open>call_llm n p\<close> is what the \<open>n\<close>-th
  request of a run returns (the stripped message text) or raises, when it is sent the
  prompt \<open>p\<close>. A prompt is kept as the kind of request and the values put into its text.
\<close>

datatype prompt =
    ExtractPrompt bool string
  | RetryPrompt string
  | RankPrompt string json

type_synonym llm = "nat \<Rightarrow> prompt \<Rightarrow> exn + string"

type_synonym extraction = "(nat \<rightharpoonup> json) \<times> (nat \<rightharpoonup> json) option"

text \<open>
  \<open>extract_keywords_and_summary\<close> of archive/ver0/ver4_extract_key_ele.py. The result is
  the pair of dictionaries \<open>keywords_per_paragraph\<close> and \<open>summary_per_paragraph\<close>, the second
  being \<open>None\<close> when \<open>get_summary\<close> is off. \<open>split_on\<close> is \<open>paragraph.split(".")\<close>.

  On a \<open>JSONDecodeError\<close> with \<open>retry_on_fail\<close> the code builds \<open>prompt_retry\<close> and then
  evaluates \<open>call_llm()\<close>. \<open>call_llm(prompt, headers)\<close> has two required parameters, so that
  call raises \<open>TypeError\<close> before any request is sent, outside the inner \<open>try\<close>; the
  statements after it are never reached. Each paragraph therefore sends one request, and
  the request of paragraph \<open>idx\<close> is the \<open>idx\<close>-th of the run.
\<close>

fun split_on :: "char \<Rightarrow> string \<Rightarrow> string \<Rightarrow> string list" where
  "split_on sep cur [] = [cur]"
| "split_on sep cur (c # cs) =
     (if c = sep then cur # split_on sep [] cs else split_on sep (cur @ [c]) cs)"

definition first_word :: "string \<Rightarrow> exn + string" where
  "first_word s = (case py_split (py_strip s) of [] \<Rightarrow> Inl IndexError | w # ws \<Rightarrow> Inr w)"

definition heuristic_keywords :: "string \<Rightarrow> exn + json" where
  "heuristic_keywords paragraph =
     (let sentences = split_on (CHR ''.'') [] paragraph
      in ebind (map_exn first_word (filter (\<lambda>s. py_strip s \<noteq> []) sentences)) (\<lambda>ws.
           Inr (JArr (map JStr (take 8 ws)))))"

definition heuristic_summary :: "string \<Rightarrow> json" where
  "heuristic_summary paragraph =
     (let sentences = split_on (CHR ''.'') [] paragraph
      in if sentences \<noteq> [] then JStr (py_strip (sentences ! 0)) else JNull)"

definition set_keywords :: "nat \<Rightarrow> json \<Rightarrow> extraction \<Rightarrow> extraction" where
  "set_keywords idx v st = ((fst st)(idx \<mapsto> v), snd st)"

definition set_summary :: "nat \<Rightarrow> json \<Rightarrow> extraction \<Rightarrow> extraction" where
  "set_summary idx v st = (fst st, map_option (\<lambda>m. m(idx \<mapsto> v)) (snd st))"

definition store_parsed :: "bool \<Rightarrow> nat \<Rightarrow> json \<Rightarrow> extraction \<Rightarrow> exn + extraction" where
  "store_parsed get_summary idx llm_json st =
     ebind (dict_get llm_json ''keywords'' (JArr [])) (\<lambda>kws.
       if get_summary
       then ebind (dict_get llm_json ''summary'' JNull) (\<lambda>sm.
              Inr (set_summary idx sm (set_keywords idx kws st)))
       else Inr (set_keywords idx kws st))"

definition extract_one :: "llm \<Rightarrow> (string \<Rightarrow> exn + json) \<Rightarrow> bool \<Rightarrow> bool \<Rightarrow> nat \<Rightarrow> string \<Rightarrow> extraction \<Rightarrow> exn + extraction" where
  "extract_one call_llm loads get_summary retry_on_fail idx paragraph st =
     ebind (call_llm idx (ExtractPrompt get_summary paragraph)) (\<lambda>llm_text.
       case ebind (json_loads loads (clean_response llm_text)) (\<lambda>llm_json.
              store_parsed get_summary idx llm_json st) of
         Inr st1 \<Rightarrow> Inr st1
       | Inl JSONDecodeError \<Rightarrow>
           if retry_on_fail then Inl TypeError
           else ebind (heuristic_keywords paragraph) (\<lambda>kws.
                  if get_summary
                  then Inr (set_summary idx (heuristic_summary paragraph) (set_keywords idx kws st))
                  else Inr (set_keywords idx kws st))
       | Inl e \<Rightarrow> Inl e)"

fun extract_loop :: "llm \<Rightarrow> (string \<Rightarrow> exn + json) \<Rightarrow> bool \<Rightarrow> bool \<Rightarrow> nat \<Rightarrow> string list \<Rightarrow> extraction \<Rightarrow> exn + extraction" where
  "extract_loop call_llm loads get_summary retry_on_fail idx [] st = Inr st"
| "extract_loop call_llm loads get_summary retry_on_fail idx (paragraph # rest) st =
     ebind (extract_one call_llm loads get_summary retry_on_fail idx paragraph st) (\<lambda>st1.
       extract_loop call_llm loads get_summary retry_on_fail (Suc idx) rest st1)"

definition extract_keywords_and_summary :: "llm \<Rightarrow> (string \<Rightarrow> exn + json) \<Rightarrow> string list \<Rightarrow> bool \<Rightarrow> bool \<Rightarrow> exn + extraction" where
  "extract_keywords_and_summary call_llm loads paragraphs get_summary retry_on_fail =
     extract_loop call_llm loads get_summary retry_on_fail 0 paragraphs
       (Map.empty, if get_summary then Some Map.empty else None)"

text \<open>
  An endpoint that answers every request in plain prose, and the values of \<open>json.loads\<close>
  on the texts used below (every other text used below is not JSON).
\<close>

definition prose_llm :: llm where
  "prose_llm n p = Inr ''Sure! Here are the keywords you asked for.''"

definition sample_loads :: "string \<Rightarrow> exn + json" where
  "sample_loads t =
     (if t = ''{'' @ dq @ ''ranked_keywords'' @ dq @ '': []}''
      then Inr (JObj [(''ranked_keywords'', JArr [])])
      else if t = ''{'' @ dq @ ''keywords'' @ dq @ '': ['' @ dq @ ''alpha'' @ dq @ ''], ''
                  @ dq @ ''summary'' @ dq @ '': '' @ dq @ ''apples'' @ dq @ ''}''
      then Inr (JObj [(''keywords'', JArr [JStr ''alpha'']), (''summary'', JStr ''apples'')])
      else if t = ''{'' @ dq @ ''ranked_keywords'' @ dq @ '': [{'' @ dq @ ''keyword'' @ dq
                  @ '': '' @ dq @ ''alpha'' @ dq @ '', '' @ dq @ ''relevance'' @ dq @ '': 0.5}]}''
      then Inr (JObj [(''ranked_keywords'',
                  JArr [JObj [(''keyword'', JStr ''alpha''), (''relevance'', JNum (1 / 2))]])])
      else Inl JSONDecodeError)"

text \<open>
  The Keyword Ranker: \<open>LLMClient.rank_keywords\<close> (archive/ver1/LLMClient.py), whose
  \<open>except\<close> catches every exception, and \<open>rank_keywords_llm\<close> (papers/pipeline.py), whose
  \<open>except\<close> catches \<open>JSONDecodeError\<close> only. \<open>n\<close> is the number of the request.
  \<open>read_ranked\<close> is the body of the \<open>try\<close>, \<open>unranked\<close> the list
  \<open>[(kw, None) for kw in keywords]\<close>.
\<close>

definition read_ranked :: "(string \<Rightarrow> exn + json) \<Rightarrow> string \<Rightarrow> exn + (json \<times> json) list" where
  "read_ranked loads text =
     ebind (json_loads loads (clean_response text)) (\<lambda>data.
     ebind (subscript data ''ranked_keywords'') (\<lambda>ranked.
     ebind (iterate ranked) (\<lambda>items.
       map_exn (\<lambda>kw. ebind (subscript kw ''keyword'') (\<lambda>k.
                      ebind (subscript kw ''relevance'') (\<lambda>r. Inr (k, r)))) items)))"

definition unranked :: "json \<Rightarrow> exn + (json \<times> json) list" where
  "unranked keywords = ebind (iterate keywords) (\<lambda>ks. Inr (map (\<lambda>kw. (kw, JNull)) ks))"

definition rank_keywords :: "llm \<Rightarrow> (string \<Rightarrow> exn + json) \<Rightarrow> nat \<Rightarrow> string \<Rightarrow> json \<Rightarrow> exn + (json \<times> json) list" where
  "rank_keywords call_llm loads n paragraph keywords =
     ebind (call_llm n (RankPrompt paragraph keywords)) (\<lambda>text.
       case read_ranked loads text of
         Inr ranked \<Rightarrow> Inr ranked
       | Inl e \<Rightarrow> unranked keywords)"

definition rank_keywords_llm :: "llm \<Rightarrow> (string \<Rightarrow> exn + json) \<Rightarrow> nat \<Rightarrow> string \<Rightarrow> json \<Rightarrow> exn + (json \<times> json) list" where
  "rank_keywords_llm call_llm loads n paragraph keywords =
     ebind (call_llm n (RankPrompt paragraph keywords)) (\<lambda>text.
       case read_ranked loads text of
         Inr ranked \<Rightarrow> Inr ranked
       | Inl JSONDecodeError \<Rightarrow> unranked keywords
       | Inl e \<Rightarrow> Inl e)"

text \<open>Two endpoints that answer every request with one fixed JSON text.\<close>

definition empty_ranking_llm :: llm where
  "empty_ranking_llm n p = Inr (''{'' @ dq @ ''ranked_keywords'' @ dq @ '': []}'')"

definition alpha_ranking_llm :: llm where
  "alpha_ranking_llm n p =
     Inr (''```json'' @ nl @ ''{'' @ dq @ ''ranked_keywords'' @ dq @ '': [{'' @ dq @ ''keyword''
          @ dq @ '': '' @ dq @ ''alpha'' @ dq @ '', '' @ dq @ ''relevance'' @ dq @ '': 0.5}]}''
          @ nl @ ''```'')"

section \<open>Pipeline Orchestrator\<close>

text \<open>
  \<open>LLMClient.extract_keywords_and_summary\<close> (archive/ver1/LLMClient.py) and
  \<open>extract_keywords_and_summary\<close> of papers/pipeline.py: one request per paragraph and no
  retry; a response that is not JSON gives the keywords \<open>[]\<close> and the summary \<open>""\<close>.
\<close>

definition extract_one_plain :: "llm \<Rightarrow> (string \<Rightarrow> exn + json) \<Rightarrow> bool \<Rightarrow> nat \<Rightarrow> string \<Rightarrow> extraction \<Rightarrow> exn + extraction" where
  "extract_one_plain call_llm loads get_summary idx para st =
     ebind (call_llm idx (ExtractPrompt get_summary para)) (\<lambda>reply.
       case ebind (json_loads loads (clean_response reply)) (\<lambda>data.
              store_parsed get_summary idx data st) of
         Inr st1 \<Rightarrow> Inr st1
       | Inl JSONDecodeError \<Rightarrow>
           Inr (if get_summary
                then set_summary idx (JStr '''') (set_keywords idx (JArr []) st)
                else set_keywords idx (JArr []) st)
       | Inl e \<Rightarrow> Inl e)"

fun extract_loop_plain :: "llm \<Rightarrow> (string \<Rightarrow> exn + json) \<Rightarrow> bool \<Rightarrow> nat \<Rightarrow> string list \<Rightarrow> extraction \<Rightarrow> exn + extraction" where
  "extract_loop_plain call_llm loads get_summary idx [] st = Inr st"
| "extract_loop_plain call_llm loads get_summary idx (para # rest) st =
     ebind (extract_one_plain call_llm loads get_summary idx para st) (\<lambda>st1.
       extract_loop_plain call_llm loads get_summary (Suc idx) rest st1)"

definition extract_keywords_and_summary_plain :: "llm \<Rightarrow> (string \<Rightarrow> exn + json) \<Rightarrow> string list \<Rightarrow> bool \<Rightarrow> exn + extraction" where
  "extract_keywords_and_summary_plain call_llm loads paragraphs get_summary =
     extract_loop_plain call_llm loads get_summary 0 paragraphs
       (Map.empty, if get_summary then Some Map.empty else None)"

text \<open>
  \<open>keywords[idx]\<close> and \<open>summaries[idx]\<close> on the dictionaries of an extraction, and the
  Query Builder on the values found there: \<open>" ".join\<close> and \<open>+\<close> accept strings only.
\<close>

definition lookup :: "(nat \<rightharpoonup> json) \<Rightarrow> nat \<Rightarrow> exn + json" where
  "lookup m k = (case m k of None \<Rightarrow> Inl KeyError | Some v \<Rightarrow> Inr v)"

definition lookup_summary :: "(nat \<rightharpoonup> json) option \<Rightarrow> nat \<Rightarrow> exn + json" where
  "lookup_summary m k = (case m of None \<Rightarrow> Inl TypeError | Some d \<Rightarrow> lookup d k)"

definition build_query_values :: "(json \<times> json) list \<Rightarrow> json \<Rightarrow> int \<Rightarrow> exn + string" where
  "build_query_values ranked_keywords summary_value top_n =
     ebind (map_exn as_str (map fst (py_take top_n ranked_keywords))) (\<lambda>kws.
     ebind (as_str summary_value) (\<lambda>summary_text.
       Inr (join_query kws summary_text)))"

text \<open>
  \<open>paper[key]\<close> on a paper record, and the dictionaries that the orchestrators build for
  their results: one per paper inside one per paragraph for \<open>pipeline_run\<close> of
  ver5_Main_webUI_error_msg, one per paper for \<open>pipeline_run\<close> of Doc-Scraper/webUI.
\<close>

definition need :: "'a option \<Rightarrow> exn + 'a" where
  "need field = (case field of None \<Rightarrow> Inl KeyError | Some v \<Rightarrow> Inr v)"

record paper_result =
  res_title :: string
  res_authors :: "string list"
  res_year :: string
  res_link :: string
  res_relevance :: flt
  res_citation :: string

record paragraph_result =
  res_paragraph :: string
  res_papers :: "paper_result list"

definition paper_entry :: "(string \<Rightarrow> string) \<Rightarrow> string \<Rightarrow> paper \<Rightarrow> exn + paper_result" where
  "paper_entry now citation_style p =
     ebind (format now p citation_style) (\<lambda>citation_text.
     ebind (need (title p)) (\<lambda>t.
     ebind (need (authors p)) (\<lambda>a.
     ebind (need (year p)) (\<lambda>y.
     ebind (need (link p)) (\<lambda>l.
     ebind (need (relevance p)) (\<lambda>r.
       Inr \<lparr> res_title = t, res_authors = a, res_year = y, res_link = l,
             res_relevance = r, res_citation = citation_text \<rparr>))))))"

text \<open>
  The external services of a run: the sentence segmentation, the endpoint, \<open>json.loads\<close>,
  the paper search (\<open>sv_search sv i q\<close> is what the \<open>i\<close>-th search of the run returns or
  raises for the query \<open>q\<close>), the embedding model and the clock.
\<close>

record services =
  sv_sents :: "string \<Rightarrow> string list"
  sv_call_llm :: llm
  sv_loads :: "string \<Rightarrow> exn + json"
  sv_search :: "nat \<Rightarrow> string \<Rightarrow> exn + paper list"
  sv_encode :: "string \<Rightarrow> vec"
  sv_numerics :: numerics
  sv_now :: "string \<Rightarrow> string"

text \<open>\<open>cleaner.clean()\<close> with the default \<open>min_words=10\<close>, on the services of a run.\<close>

abbreviation clean_default :: "services \<Rightarrow> string list \<Rightarrow> string list" where
  "clean_default sv paragraphs \<equiv> ParagraphCleaner_clean (sv_sents sv) 10 paragraphs"

text \<open>
  \<open>pipeline_run\<close> of ver5_Main_webUI_error_msg/papers/pipeline.py, from the paragraphs
  that the text extractor returned. Its components are the classes modelled above; the
  cleaner keeps its default \<open>min_words=10\<close>. \<open>paragraph_entry\<close> is one round of the loop
  over the cleaned paragraphs: after the \<open>n\<close> requests of the extraction, the ranking of
  the keywords of paragraph \<open>idx\<close> is request \<open>n + idx\<close>. The value of the key \<open>export\<close>
  is written by the csv and PDF libraries and is left out; an unknown \<open>export_type\<close>
  raises \<open>ValueError\<close> after the loop.
\<close>

definition paragraph_entry :: "services \<Rightarrow> extraction \<Rightarrow> nat \<Rightarrow> int \<Rightarrow> string \<Rightarrow> nat \<Rightarrow> string \<Rightarrow> exn + paragraph_result" where
  "paragraph_entry sv ex n top_k citation_style idx para =
     ebind (lookup (fst ex) idx) (\<lambda>kws.
     ebind (rank_keywords (sv_call_llm sv) (sv_loads sv) (n + idx) para kws) (\<lambda>ranked_keywords.
     ebind (lookup_summary (snd ex) idx) (\<lambda>summary_value.
     ebind (build_query_values ranked_keywords summary_value 5) (\<lambda>query.
     ebind (sv_search sv idx query) (\<lambda>found.
     ebind (as_str summary_value) (\<lambda>summary_text.
     ebind (rank (sv_numerics sv) (sv_encode sv) summary_text found top_k) (\<lambda>top_papers.
     ebind (map_exn (paper_entry (sv_now sv) citation_style) top_papers) (\<lambda>entries.
       Inr \<lparr> res_paragraph = para, res_papers = entries \<rparr>))))))))"

fun paragraph_loop :: "services \<Rightarrow> extraction \<Rightarrow> nat \<Rightarrow> int \<Rightarrow> string \<Rightarrow> nat \<Rightarrow> string list \<Rightarrow> exn + paragraph_result list" where
  "paragraph_loop sv ex n top_k citation_style idx [] = Inr []"
| "paragraph_loop sv ex n top_k citation_style idx (para # rest) =
     ebind (paragraph_entry sv ex n top_k citation_style idx para) (\<lambda>paragraph_result.
     ebind (paragraph_loop sv ex n top_k citation_style (Suc idx) rest) (\<lambda>results.
       Inr (paragraph_result # results)))"

fun all_empty :: "json list \<Rightarrow> exn + bool" where
  "all_empty [] = Inr True"
| "all_empty (kw # kws) =
     ebind (py_len kw) (\<lambda>l. if l = 0 then all_empty kws else Inr False)"

definition lower_latin1 :: "char \<Rightarrow> char" where
  "lower_latin1 c =
     (let n = (of_char c :: nat)
      in if (65 \<le> n \<and> n \<le> 90) \<or> (192 \<le> n \<and> n \<le> 222 \<and> n \<noteq> 215)
         then char_of (n + 32) else c)"

definition check_export :: "string option \<Rightarrow> exn + unit" where
  "check_export export_type =
     (case export_type of
        None \<Rightarrow> Inr ()
      | Some t \<Rightarrow>
          if t = [] then Inr ()
          else if map lower_latin1 t \<in> set [''json'', ''csv'', ''bibtex'', ''pdf''] then Inr ()
          else Inl ValueError)"

definition pipeline_run :: "services \<Rightarrow> string list \<Rightarrow> int \<Rightarrow> string option \<Rightarrow> string \<Rightarrow> exn + paragraph_result list" where
  "pipeline_run sv paragraphs top_k export_type citation_style =
     (if paragraphs = [] then Inr []
      else let cleaned_paragraphs = ParagraphCleaner_clean (sv_sents sv) 10 paragraphs
           in if cleaned_paragraphs = [] then Inr []
              else ebind (extract_keywords_and_summary_plain (sv_call_llm sv) (sv_loads sv)
                            cleaned_paragraphs True) (\<lambda>ex.
                   ebind (map_exn (lookup (fst ex)) [0 ..< length cleaned_paragraphs]) (\<lambda>kws.
                   ebind (all_empty kws) (\<lambda>no_keywords.
                     if no_keywords then Inl RuntimeError
                     else ebind (paragraph_loop sv ex (length cleaned_paragraphs) top_k
                                   citation_style 0 cleaned_paragraphs) (\<lambda>all_results.
                          ebind (check_export export_type) (\<lambda>u. Inr all_results))))))"


text \<open>
  \<open>pipeline_run\<close> of Doc-Scraper/webUI/papers/pipeline.py, from the paragraphs that the
  text extraction returned: it appends one dictionary per ranked paper to a single list.
  \<open>rows_loop\<close> keeps the dictionaries of each paragraph together, and the result is their
  concatenation.
\<close>

record citation_row =
  row_title :: string
  row_authors :: "string list"
  row_year :: string
  row_citation :: string
  row_link :: string
  row_relevance :: flt
  row_matched_text :: string

definition citation_entry :: "(string \<Rightarrow> string) \<Rightarrow> string \<Rightarrow> paper \<Rightarrow> exn + citation_row" where
  "citation_entry now para p =
     ebind (need (title p)) (\<lambda>t.
     ebind (need (authors p)) (\<lambda>a.
     ebind (need (year p)) (\<lambda>y.
     ebind (format_harvard now p) (\<lambda>c.
     ebind (need (link p)) (\<lambda>l.
     ebind (need (relevance p)) (\<lambda>r.
       Inr \<lparr> row_title = t, row_authors = a, row_year = y, row_citation = c, row_link = l,
             row_relevance = r, row_matched_text = para \<rparr>))))))"

definition paragraph_rows :: "services \<Rightarrow> extraction \<Rightarrow> nat \<Rightarrow> nat \<Rightarrow> string \<Rightarrow> exn + citation_row list" where
  "paragraph_rows sv ex n idx para =
     ebind (lookup (fst ex) idx) (\<lambda>kws.
     ebind (rank_keywords_llm (sv_call_llm sv) (sv_loads sv) (n + idx) para kws) (\<lambda>ranked.
     ebind (lookup_summary (snd ex) idx) (\<lambda>summary_value.
     ebind (build_query_values ranked summary_value 5) (\<lambda>query.
     ebind (sv_search sv idx query) (\<lambda>found.
     ebind (as_str summary_value) (\<lambda>summary_text.
     ebind (rank (sv_numerics sv) (sv_encode sv) summary_text found 3) (\<lambda>top_papers.
       map_exn (citation_entry (sv_now sv) para) top_papers)))))))"

fun rows_loop :: "services \<Rightarrow> extraction \<Rightarrow> nat \<Rightarrow> nat \<Rightarrow> string list \<Rightarrow> exn + citation_row list list" where
  "rows_loop sv ex n idx [] = Inr []"
| "rows_loop sv ex n idx (para # rest) =
     ebind (paragraph_rows sv ex n idx para) (\<lambda>rows.
     ebind (rows_loop sv ex n (Suc idx) rest) (\<lambda>groups. Inr (rows # groups)))"

definition pipeline_run_rows :: "services \<Rightarrow> string list \<Rightarrow> exn + citation_row list" where
  "pipeline_run_rows sv paras =
     (let cleaned_paras = ParagraphCleaner_clean (sv_sents sv) 10 paras
      in if cleaned_paras = [] then Inr []
         else ebind (extract_keywords_and_summary_plain (sv_call_llm sv) (sv_loads sv)
                       cleaned_paras True) (\<lambda>ex.
              ebind (rows_loop sv ex (length cleaned_paras) 0 cleaned_paras) (\<lambda>groups.
                Inr (concat groups))))"

text \<open>
  Services, a document of two paragraphs and the results expected for it, used to run
  the orchestrators on concrete inputs: the first search of a run finds no paper, every
  other search finds four.
\<close>

definition keywords_reply :: string where
  "keywords_reply = ''{'' @ dq @ ''keywords'' @ dq @ '': ['' @ dq @ ''alpha'' @ dq @ ''], ''
                  @ dq @ ''summary'' @ dq @ '': '' @ dq @ ''apples'' @ dq @ ''}''"

definition ranking_reply :: string where
  "ranking_reply = ''```json'' @ nl @ ''{'' @ dq @ ''ranked_keywords'' @ dq @ '': [{'' @ dq @ ''keyword''
          @ dq @ '': '' @ dq @ ''alpha'' @ dq @ '', '' @ dq @ ''relevance'' @ dq @ '': 0.5}]}''
          @ nl @ ''```''"

text \<open>An endpoint that answers every request with the reply to an extraction request.\<close>

definition keywords_llm :: llm where
  "keywords_llm n p = Inr keywords_reply"

definition sample_llm :: llm where
  "sample_llm n p =
     (case p of
        ExtractPrompt get_summary para \<Rightarrow> Inr keywords_reply
      | RetryPrompt para \<Rightarrow> Inr ''Sure! Here are the keywords you asked for.''
      | RankPrompt para kws \<Rightarrow> Inr ranking_reply)"

definition sample_search :: "nat \<Rightarrow> string \<Rightarrow> exn + paper list" where
  "sample_search i q = (if i = 0 then Inr [] else Inr four_papers)"

definition sample_services :: services where
  "sample_services =
     \<lparr> sv_sents = cut_at_stops [], sv_call_llm = sample_llm, sv_loads = sample_loads,
       sv_search = sample_search, sv_encode = axis_encode, sv_numerics = exact_numerics,
       sv_now = fixed_clock \<rparr>"

text \<open>The same services with an endpoint that answers every request in prose.\<close>

definition prose_services :: services where
  "prose_services = sample_services\<lparr>sv_call_llm := prose_llm\<rparr>"

definition alpha_paragraph :: string where
  "alpha_paragraph = ''Alpha particles are helium nuclei emitted by some heavy radioactive atoms.''"

definition apple_paragraph :: string where
  "apple_paragraph = ''Apples and pears are grown in orchards all over the temperate world.''"

definition ranked_entry :: "string \<Rightarrow> flt \<Rightarrow> paper_result" where
  "ranked_entry t r =
     \<lparr> res_title = t, res_authors = [''Ada Lovelace''], res_year = ''1843'',
       res_link = ''http://arxiv.org/abs/2'', res_relevance = r,
       res_citation = ''Lovelace, A. (1843) '' @ sq @ t @ sq
         @ '', arXiv. Available at: http://arxiv.org/abs/2 (Accessed: 03 Nov 2026).'' \<rparr>"

definition ranked_row :: "string \<Rightarrow> flt \<Rightarrow> string \<Rightarrow> citation_row" where
  "ranked_row t r para =
     \<lparr> row_title = t, row_authors = [''Ada Lovelace''], row_year = ''1843'',
       row_citation = ''Lovelace, A. (1843) '' @ sq @ t @ sq
         @ '', arXiv. Available at: http://arxiv.org/abs/2 (Accessed: 03 Nov 2026).'',
       row_link = ''http://arxiv.org/abs/2'', row_relevance = r, row_matched_text = para \<rparr>"

definition sample_results :: "paragraph_result list" where
  "sample_results =
     [\<lparr> res_paragraph = alpha_paragraph, res_papers = [] \<rparr>,
      \<lparr> res_paragraph = apple_paragraph,
        res_papers = [ranked_entry ''cats'' (Fin 100), ranked_entry ''ants'' (Fin 100),
                      ranked_entry ''bees'' (Fin 0)] \<rparr>]"

definition sample_rows :: "citation_row list" where
  "sample_rows =
     [ranked_row ''cats'' (Fin 100) apple_paragraph, ranked_row ''ants'' (Fin 100) apple_paragraph,
      ranked_row ''bees'' (Fin 0) apple_paragraph]"

section \<open>Properties of the string methods\<close>

lemma split_from_tokens:
  "list_all (\<lambda>c. \<not> isspace c) cur \<Longrightarrow>
   list_all (\<lambda>t. t \<noteq> [] \<and> list_all (\<lambda>c. \<not> isspace c) t) (split_from cur s)"
  by (induction s arbitrary: cur) auto

lemma py_split_tokens:
  "list_all (\<lambda>t. t \<noteq> [] \<and> list_all (\<lambda>c. \<not> isspace c) t) (py_split s)"
  unfolding py_split_def by (rule split_from_tokens) simp

lemma split_from_chars:
  "set (concat (split_from cur s)) \<subseteq> set cur \<union> set s"
proof (induction s arbitrary: cur)
  case Nil
  then show ?case by simp
next
  case (Cons c cs)
  have a: "set (concat (split_from [] cs)) \<subseteq> set cs"
    using Cons.IH [of "[]"] by simp
  have b: "set (concat (split_from (cur @ [c]) cs)) \<subseteq> set cur \<union> insert c (set cs)"
    using Cons.IH [of "cur @ [c]"] by auto
  show ?case
    using a b by (cases "isspace c"; cases "cur = []") auto
qed

lemma py_split_chars: "set (concat (py_split s)) \<subseteq> set s"
  unfolding py_split_def using split_from_chars [of "[]" s] by simp

lemma py_join_chars: "set (py_join sep xs) \<subseteq> set sep \<union> set (concat xs)"
  by (induction sep xs rule: py_join.induct) auto

lemma py_join_Nil [simp]: "py_join sep [] = []"
  by simp

section \<open>Properties of the Paragraph Cleaner\<close>

text \<open>
  Claim C9. For every paragraph, every segmentation and every threshold \<open>min_words\<close>:
  each sentence kept by the Cleaner has at least \<open>min_words\<close> words; the kept sentences
  are a subsequence of the segmented sentences of the input, so there are never more of
  them; the Cleaner returns the kept sentences joined by single spaces; and it returns the
  empty string when no sentence is kept.
\<close>

theorem cleaner_keeps_long_sentences_in_order:
  "list_all (\<lambda>s. min_words \<le> int (length (py_split s))) (kept_sentences sents min_words text)
   \<and> subseq (kept_sentences sents min_words text) (segmented sents text)
   \<and> length (kept_sentences sents min_words text) \<le> length (segmented sents text)
   \<and> ParagraphCleaner_clean1 sents min_words text = py_join '' '' (kept_sentences sents min_words text)
   \<and> (kept_sentences sents min_words text = [] \<longrightarrow> ParagraphCleaner_clean1 sents min_words text = [])"
  by (simp add: kept_sentences_def ParagraphCleaner_clean1_def list_all_iff)

theorem cleaner_keeps_long_sentences_in_order_witness:
  "kept_sentences (cut_at_stops []) 10 ''Too short.'' = []
   \<and> ParagraphCleaner_clean1 (cut_at_stops []) 10 ''Too short.'' = []
   \<and> kept_sentences (cut_at_stops []) 3
         ''<b>One two  three four.</b>  Too short. Five six seven eight nine.''
       = [''One two three four.'', ''Five six seven eight nine.'']
   \<and> subseq [''One two three four.'', ''Five six seven eight nine.'']
         (segmented (cut_at_stops [])
            ''<b>One two  three four.</b>  Too short. Five six seven eight nine.'')"
proof -
  have e: "kept_sentences (cut_at_stops []) 10 ''Too short.'' = []"
    by code_simp
  have k: "kept_sentences (cut_at_stops []) 3
         ''<b>One two  three four.</b>  Too short. Five six seven eight nine.''
       = [''One two three four.'', ''Five six seven eight nine.'']"
    by code_simp
  have c: "ParagraphCleaner_clean1 (cut_at_stops []) 10 ''Too short.'' = []"
    using cleaner_keeps_long_sentences_in_order [of 10 "cut_at_stops []" "''Too short.''"] e
    by blast
  have "subseq (kept_sentences (cut_at_stops []) 3
         ''<b>One two  three four.</b>  Too short. Five six seven eight nine.'')
         (segmented (cut_at_stops [])
            ''<b>One two  three four.</b>  Too short. Five six seven eight nine.'')"
    using cleaner_keeps_long_sentences_in_order [of 3 "cut_at_stops []"
        "''<b>One two  three four.</b>  Too short. Five six seven eight nine.''"]
    by blast
  then show ?thesis
    unfolding k using e c k by blast
qed

section \<open>Properties of the Query Builder\<close>

lemma build_query_unfold:
  "build_query rk s n =
     py_join ''+'' (py_split (filter (\<lambda>c. ascii_alnum c \<or> isspace c)
        (py_join '' '' (map fst (py_take n rk)) @ '' '' @ s)))"
  by (simp add: build_query_def join_query_def Let_def)

lemma joined_tokens_charset:
  assumes "\<forall>c \<in> set t. ascii_alnum c \<or> isspace c"
  shows "list_all (\<lambda>c. ascii_alnum c \<or> c = CHR ''+'') (py_join ''+'' (py_split t))"
proof -
  have "ascii_alnum c \<or> c = CHR ''+''" if c: "c \<in> set (py_join ''+'' (py_split t))" for c
  proof (cases "c = CHR ''+''")
    case True
    then show ?thesis by simp
  next
    case False
    with c py_join_chars [of "''+''" "py_split t"]
    have "c \<in> set (concat (py_split t))" by auto
    then obtain tok where tok: "tok \<in> set (py_split t)" "c \<in> set tok" by auto
    have "\<not> isspace c"
      using py_split_tokens [of t] tok by (auto simp: list_all_iff)
    moreover have "c \<in> set t"
      using py_split_chars [of t] tok by auto
    ultimately show ?thesis using assms by blast
  qed
  then show ?thesis by (simp add: list_all_iff)
qed

text \<open>
  Claim C7. The Query Builder is a function of the ranked keyword list, the summary and
  \<open>top_n\<close> alone, so equal inputs give the identical string. For all inputs that string is
  the \<open>+\<close>-join of the whitespace-separated tokens of the text made of the first \<open>top_n\<close>
  keywords joined by spaces, a space and the summary, from which every character outside
  \<open>[a-zA-Z0-9]\<close> and whitespace was removed; it contains no character outside
  \<open>[A-Za-z0-9+]\<close>; and \<open>top_n\<close> is 5 by default.
\<close>

theorem build_query_deterministic_and_url_safe:
  "list_all (\<lambda>c. ascii_alnum c \<or> c = CHR ''+'') (build_query rk s n)
   \<and> build_query rk s n =
       py_join ''+'' (py_split (filter (\<lambda>c. ascii_alnum c \<or> isspace c)
          (py_join '' '' (map fst (py_take n rk)) @ '' '' @ s)))
   \<and> build_query_default rk s = build_query rk s 5
   \<and> (\<forall>rk' s' n'. rk' = rk \<and> s' = s \<and> n' = n \<longrightarrow> build_query rk' s' n' = build_query rk s n)"
proof -
  have "list_all (\<lambda>c. ascii_alnum c \<or> c = CHR ''+'') (build_query rk s n)"
    unfolding build_query_unfold by (rule joined_tokens_charset) (simp only: set_filter, blast)
  then show ?thesis
    by (simp add: build_query_unfold build_query_default_def)
qed

theorem build_query_deterministic_and_url_safe_witness:
  "build_query [(''deep learning'', Some (9::int)), (''NLP!'', None)]
      ''Transformers: state-of-the-art  results.'' 5
     = ''deep+learning+NLP+Transformers+stateoftheart+results''
   \<and> list_all (\<lambda>c. ascii_alnum c \<or> c = CHR ''+'')
        ''deep+learning+NLP+Transformers+stateoftheart+results''"
proof -
  have e: "build_query [(''deep learning'', Some (9::int)), (''NLP!'', None)]
      ''Transformers: state-of-the-art  results.'' 5
     = ''deep+learning+NLP+Transformers+stateoftheart+results''"
    by code_simp
  have "list_all (\<lambda>c. ascii_alnum c \<or> c = CHR ''+'')
          (build_query [(''deep learning'', Some (9::int)), (''NLP!'', None)]
             ''Transformers: state-of-the-art  results.'' 5)"
    using build_query_deterministic_and_url_safe
      [of "[(''deep learning'', Some (9::int)), (''NLP!'', None)]"
          "''Transformers: state-of-the-art  results.''" 5]
    by blast
  then show ?thesis
    unfolding e using e by blast
qed

section \<open>Properties of the Citation Formatter\<close>

lemma ebind_Inr [simp]: "ebind (Inr x) f = f x"
  by (simp add: ebind_def)

lemma ebind_Inl [simp]: "ebind (Inl e) f = Inl e"
  by (simp add: ebind_def)

lemma ebind_eq_Inr:
  "ebind m f = Inr y \<longleftrightarrow> (\<exists>x. m = Inr x \<and> f x = Inr y)"
  by (cases m) simp_all

lemma format_authors_none: "format_authors [] = Inr ''''"
  by simp

lemma format_authors_one:
  "name_parts a = Inr (l, f) \<Longrightarrow> format_authors [a] = Inr (l @ '', '' @ [f] @ ''.'')"
  by simp

lemma format_authors_two:
  "name_parts a = Inr (l1, f1) \<Longrightarrow> name_parts b = Inr (l2, f2) \<Longrightarrow>
   format_authors [a, b] = Inr (l1 @ '', '' @ [f1] @ ''. and '' @ l2 @ '', '' @ [f2] @ ''.'')"
  by simp

lemma format_authors_three:
  "name_parts a = Inr (l1, f1) \<Longrightarrow> name_parts b = Inr (l2, f2) \<Longrightarrow>
   name_parts c = Inr (l3, f3) \<Longrightarrow>
   format_authors [a, b, c] =
     Inr (l1 @ '', '' @ [f1] @ ''., '' @ l2 @ '', '' @ [f2] @ '' and '' @ l3 @ '', '' @ [f3] @ ''.'')"
  by simp

lemma format_authors_four_or_more:
  "name_parts a = Inr (l1, f1) \<Longrightarrow> 4 \<le> length (a # rest) \<Longrightarrow>
   format_authors (a # rest) = Inr (l1 @ '', '' @ [f1] @ ''. et al.'')"
proof -
  assume n: "name_parts a = Inr (l1, f1)" and len: "4 \<le> length (a # rest)"
  from len obtain b c d us where "rest = b # c # d # us"
    by (cases rest; cases "tl rest"; cases "tl (tl rest)") auto
  with n show ?thesis by simp
qed

lemma format_harvard_eq_harvard: "format_harvard now p = harvard now p"
proof -
  have "format_harvard now p = harvard now p" if "get (authors p) [] = xs" for xs
  proof (cases xs)
    case Nil
    with that show ?thesis by (simp add: format_harvard_def harvard_def)
  next
    case (Cons a as)
    note c1 = this
    show ?thesis
    proof (cases as)
      case Nil
      with c1 that show ?thesis by (simp add: format_harvard_def harvard_def)
    next
      case (Cons b bs)
      note c2 = this
      show ?thesis
      proof (cases bs)
        case Nil
        with c1 c2 that show ?thesis by (simp add: format_harvard_def harvard_def)
      next
        case (Cons c cs)
        with c1 c2 that show ?thesis
          by (cases cs) (simp_all add: format_harvard_def harvard_def)
      qed
    qed
  qed
  then show ?thesis by simp
qed

text \<open>
  Claim C1. The Harvard author formatter renders three authors with a full stop after the
  first and the third initial only: for Ada Lovelace, Alan Turing and Grace Brewster
  Hopper it returns \<open>Lovelace, A., Turing, A and Hopper, G.\<close>, not
  \<open>Lovelace, A., Turing, A. and Hopper, G.\<close>; \<open>format_harvard\<close> puts the same author
  string in front of its citation.
\<close>

theorem three_authors_second_initial_without_full_stop:
  "format_authors three_authors = Inr ''Lovelace, A., Turing, A and Hopper, G.''
   \<and> format_authors three_authors \<noteq> Inr ''Lovelace, A., Turing, A. and Hopper, G.''
   \<and> format_harvard fixed_clock (turing_paper\<lparr>authors := Some three_authors\<rparr>) =
       Inr (''Lovelace, A., Turing, A and Hopper, G.'' @ '' (1936) '' @ sq
            @ ''On Computable Numbers'' @ sq
            @ '', arXiv. Available at: http://arxiv.org/abs/1 (Accessed: 03 Nov 2026).'')"
proof -
  have a: "format_authors three_authors = Inr ''Lovelace, A., Turing, A and Hopper, G.''"
    by code_simp
  have b: "format_harvard fixed_clock (turing_paper\<lparr>authors := Some three_authors\<rparr>) =
       Inr (''Lovelace, A., Turing, A and Hopper, G.'' @ '' (1936) '' @ sq
            @ ''On Computable Numbers'' @ sq
            @ '', arXiv. Available at: http://arxiv.org/abs/1 (Accessed: 03 Nov 2026).'')"
    unfolding format_harvard_eq_harvard
    by (simp add: harvard_def a get_def turing_paper_def fixed_clock_def)
  show ?thesis
    unfolding a using b by simp
qed

text \<open>
  Claim C2, as stated, fails for the style \<open>ieee\<close>: \<open>format\<close> gives the Harvard rendering,
  which differs from the IEEE rendering with its bracketed index.
\<close>

theorem format_ieee_gives_harvard:
  "format fixed_clock turing_paper ''ieee'' = harvard fixed_clock turing_paper
   \<and> format fixed_clock turing_paper ''ieee'' =
       Inr (''Turing, A. (1936) '' @ sq @ ''On Computable Numbers'' @ sq
            @ '', arXiv. Available at: http://arxiv.org/abs/1 (Accessed: 03 Nov 2026).'')
   \<and> ieee turing_paper 1 =
       Inr (''[1] Turing A., '' @ dq @ ''On Computable Numbers,'' @ dq
            @ '' arXiv, 1936. http://arxiv.org/abs/1'')
   \<and> format fixed_clock turing_paper ''ieee'' \<noteq> ieee turing_paper 1"
proof -
  have n: "name_parts ''Alan Turing'' = Inr (''Turing'', CHR ''A'')"
    by code_simp
  have h: "harvard fixed_clock turing_paper =
       Inr (''Turing, A. (1936) '' @ sq @ ''On Computable Numbers'' @ sq
            @ '', arXiv. Available at: http://arxiv.org/abs/1 (Accessed: 03 Nov 2026).'')"
    by (simp add: harvard_def n get_def turing_paper_def fixed_clock_def)
  have d: "str_int 1 = ''1''"
    by code_simp
  have i: "ieee turing_paper 1 =
       Inr (''[1] Turing A., '' @ dq @ ''On Computable Numbers,'' @ dq
            @ '' arXiv, 1936. http://arxiv.org/abs/1'')"
    by (simp add: ieee_def ieee_name_def n get_def turing_paper_def d)
  have f: "format fixed_clock turing_paper ''ieee'' = harvard fixed_clock turing_paper"
    by (simp add: format_def)
  show ?thesis
    unfolding f h i by (simp add: sq_def)
qed

text \<open>
  Claim C2, amended. For every paper record, \<open>format\<close> with a style among \<open>harvard\<close>,
  \<open>apa\<close>, \<open>mla\<close>, \<open>chicago\<close> and \<open>bibtex\<close> returns the rendering of that same style; every
  other style, \<open>ieee\<close> included, gives the Harvard rendering. The IEEE rendering, which
  starts with the bracketed index, is what \<open>ieee\<close> itself returns.
\<close>

theorem format_dispatches_five_styles:
  "format now p ''harvard'' = harvard now p
   \<and> format now p ''apa'' = apa p
   \<and> format now p ''mla'' = mla now p
   \<and> format now p ''chicago'' = chicago now p
   \<and> format now p ''bibtex'' = bibtex p
   \<and> format now p ''ieee'' = harvard now p
   \<and> (style \<notin> set [''harvard'', ''apa'', ''mla'', ''chicago'', ''bibtex'']
        \<longrightarrow> format now p style = harvard now p)
   \<and> (\<forall>r. ieee p number = Inr r \<longrightarrow> (\<exists>rest. r = ''['' @ str_int number @ '']'' @ rest))"
proof -
  have "\<exists>rest. r = ''['' @ str_int number @ '']'' @ rest" if "ieee p number = Inr r" for r
    using that by (auto simp: ieee_def ebind_eq_Inr)
  then show ?thesis
    by (simp add: format_def)
qed

theorem format_dispatches_five_styles_witness:
  "''vancouver'' \<notin> set [''harvard'', ''apa'', ''mla'', ''chicago'', ''bibtex'']
   \<and> format fixed_clock turing_paper ''vancouver'' = harvard fixed_clock turing_paper
   \<and> ieee turing_paper 7 =
       Inr (''[7] Turing A., '' @ dq @ ''On Computable Numbers,'' @ dq
            @ '' arXiv, 1936. http://arxiv.org/abs/1'')
   \<and> (\<exists>rest. ''[7] Turing A., '' @ dq @ ''On Computable Numbers,'' @ dq
            @ '' arXiv, 1936. http://arxiv.org/abs/1'' = ''['' @ str_int 7 @ '']'' @ rest)"
proof -
  have n: "name_parts ''Alan Turing'' = Inr (''Turing'', CHR ''A'')"
    by code_simp
  have d: "str_int 7 = ''7''"
    by code_simp
  have i: "ieee turing_paper 7 =
       Inr (''[7] Turing A., '' @ dq @ ''On Computable Numbers,'' @ dq
            @ '' arXiv, 1936. http://arxiv.org/abs/1'')"
    by (simp add: ieee_def ieee_name_def n get_def turing_paper_def d)
  have v: "''vancouver'' \<notin> set [''harvard'', ''apa'', ''mla'', ''chicago'', ''bibtex'']"
    by simp
  note t = format_dispatches_five_styles [of fixed_clock turing_paper "''vancouver''" 7]
  from t v have "format fixed_clock turing_paper ''vancouver'' = harvard fixed_clock turing_paper"
    by blast
  moreover from t i have "\<exists>rest. ''[7] Turing A., '' @ dq @ ''On Computable Numbers,'' @ dq
            @ '' arXiv, 1936. http://arxiv.org/abs/1'' = ''['' @ str_int 7 @ '']'' @ rest"
    by blast
  ultimately show ?thesis using v i by blast
qed

section \<open>Properties of the Semantic Ranker\<close>

lemma rint_mono: "x \<le> y \<Longrightarrow> rint x \<le> rint y"
proof -
  assume xy: "x \<le> y"
  have fl: "\<lfloor>x\<rfloor> \<le> \<lfloor>y\<rfloor>" using xy by (rule floor_mono)
  show ?thesis
  proof (cases "\<lfloor>x\<rfloor> = \<lfloor>y\<rfloor>")
    case True
    then have "x - of_int \<lfloor>x\<rfloor> \<le> y - of_int \<lfloor>y\<rfloor>" using xy by simp
    then show ?thesis using True unfolding rint_def Let_def by auto
  next
    case False
    with fl have "\<lfloor>x\<rfloor> + 1 \<le> \<lfloor>y\<rfloor>" by simp
    moreover have "rint x \<le> \<lfloor>x\<rfloor> + 1" unfolding rint_def Let_def by auto
    moreover have "\<lfloor>y\<rfloor> \<le> rint y" unfolding rint_def Let_def by auto
    ultimately show ?thesis by linarith
  qed
qed

lemma rint_of_int [simp]: "rint (of_int n) = n"
  unfolding rint_def Let_def by simp

lemma rint_values: "rint 0 = 0" "rint 10000 = 10000" "rint (- 10000) = - 10000"
  using rint_of_int [of 0] rint_of_int [of 10000] rint_of_int [of "- 10000"] by simp_all

lemma rint_ties_to_even:
  "rint (5 / 2) = 2" "rint (7 / 2) = 4" "rint (- 5 / 2) = - 2" "rint (13 / 5) = 3"
  unfolding rint_def Let_def by (simp_all add: floor_divide_of_int_eq)

lemma exact_round_values:
  "exact_round (Fin (5 / 2)) 0 = Fin 2"
  "exact_round (Fin (257 / 1024)) 2 = Fin (1 / 4)"
  "exact_round NaN 2 = NaN"
  "exact_round (Fin 100) 2 = Fin 100"
  "exact_round (Fin 0) 2 = Fin 0"
  "exact_round (Fin (- 100)) 2 = Fin (- 100)"
  unfolding exact_round_def rint_def Let_def by simp_all

lemma flt_less_ge: "flt_less x y \<Longrightarrow> flt_ge y x"
  by (cases x; cases y) (auto simp: flt_ge_def)

lemma flt_ge_trans: "flt_ge x y \<Longrightarrow> flt_ge y z \<Longrightarrow> flt_ge x z"
  by (cases x; cases y; cases z) (auto simp: flt_ge_def)

lemma insert_desc_set [simp]: "set (insert_desc x ys) = insert x (set ys)"
  by (induction ys) auto

lemma insert_desc_length [simp]: "length (insert_desc x ys) = Suc (length ys)"
  by (induction ys) auto

lemma sort_desc_set [simp]: "set (sort_desc xs) = set xs"
  unfolding sort_desc_def by (induction xs) auto

lemma sort_desc_length [simp]: "length (sort_desc xs) = length xs"
  unfolding sort_desc_def by (induction xs) auto

lemma insert_desc_sorted:
  assumes "snd x \<noteq> NaN" "\<forall>y \<in> set ys. snd y \<noteq> NaN"
    and "sorted_wrt (\<lambda>a b. flt_ge (snd a) (snd b)) ys"
  shows "sorted_wrt (\<lambda>a b. flt_ge (snd a) (snd b)) (insert_desc x ys)"
  using assms
proof (induction ys)
  case Nil
  then show ?case by simp
next
  case (Cons y ys)
  show ?case
  proof (cases "flt_less (snd x) (snd y)")
    case True
    then have "flt_ge (snd y) (snd x)" by (rule flt_less_ge)
    with True Cons show ?thesis by auto
  next
    case False
    with Cons.prems have xy: "flt_ge (snd x) (snd y)" by (simp add: flt_ge_def)
    then have "\<forall>z \<in> set ys. flt_ge (snd x) (snd z)"
      using Cons.prems(3) by (auto intro: flt_ge_trans)
    with False xy Cons.prems(3) show ?thesis by simp
  qed
qed

lemma sort_desc_sorted:
  "\<forall>x \<in> set xs. snd x \<noteq> NaN \<Longrightarrow> sorted_wrt (\<lambda>a b. flt_ge (snd a) (snd b)) (sort_desc xs)"
proof (induction xs)
  case Nil
  then show ?case by (simp add: sort_desc_def)
next
  case (Cons x xs)
  then have "sorted_wrt (\<lambda>a b. flt_ge (snd a) (snd b)) (sort_desc xs)" by simp
  moreover have "snd x \<noteq> NaN" "\<forall>y \<in> set (sort_desc xs). snd y \<noteq> NaN"
    using Cons.prems by simp_all
  ultimately have "sorted_wrt (\<lambda>a b. flt_ge (snd a) (snd b)) (insert_desc x (sort_desc xs))"
    by (intro insert_desc_sorted)
  then show ?case by (simp add: sort_desc_def)
qed

lemma sort_desc_stable:
  "sort_desc [(0, Fin 1), (1, Fin 2), (2, Fin 1), (3, Fin 2)] = [(1, Fin 2), (3, Fin 2), (0, Fin 1), (2, Fin 1)]"
  by (simp add: sort_desc_def)

lemma exact_round_mono:
  "flt_ge x y \<Longrightarrow> flt_ge (exact_round x 2) (exact_round y 2)"
proof (cases x; cases y)
  fix a b assume x: "x = Fin a" and y: "y = Fin b" and ge: "flt_ge x y"
  then have "b \<le> a" by (simp add: flt_ge_def)
  then have "rint (b * 100) \<le> rint (a * 100)" by (intro rint_mono) simp
  then have "real_of_int (rint (b * 100)) / 100 \<le> real_of_int (rint (a * 100)) / 100"
    by (simp add: divide_right_mono)
  then show ?thesis using x y by (simp add: exact_round_def flt_ge_def)
qed (auto simp: exact_round_def flt_ge_def)

lemma exact_mul_100_mono:
  "flt_ge x y \<Longrightarrow> flt_ge (exact_mul x (Fin 100)) (exact_mul y (Fin 100))"
  by (cases x; cases y) (auto simp: exact_mul_def flt_ge_def flt_sign_def signed_inf_def)

lemma exact_numerics_simps [simp]:
  "np_dot exact_numerics a b = Fin (sum_list (map2 (*) a b))"
  "np_norm exact_numerics a = Fin (sqrt (sum_list (map (\<lambda>x. x * x) a)))"
  "f_mul exact_numerics = exact_mul"
  "f_div exact_numerics = exact_div"
  "f_round exact_numerics = exact_round"
  by (simp_all add: exact_numerics_def)

lemma exact_monotone: "monotone_rounding exact_numerics"
proof -
  have "flt_ge (exact_round (exact_mul x (Fin 100)) 2) (exact_round (exact_mul y (Fin 100)) 2)"
    if "flt_ge x y" for x y
    using that by (intro exact_round_mono exact_mul_100_mono)
  moreover have "exact_round (exact_mul (Fin 0) (Fin 100)) 2 = Fin 0"
    by (simp add: exact_mul_def exact_round_def rint_def)
  ultimately show ?thesis
    unfolding monotone_rounding_def by simp
qed

lemma map_exn_Inr_iff:
  "map_exn f xs = Inr ys \<longleftrightarrow> list_all2 (\<lambda>x y. f x = Inr y) xs ys"
proof (induction xs arbitrary: ys)
  case Nil
  then show ?case by auto
next
  case (Cons x xs)
  show ?case
    by (cases ys) (auto simp: ebind_eq_Inr Cons.IH)
qed

lemma py_take_is_take: "\<exists>m. py_take k xs = take m xs"
  unfolding py_take_def by auto

lemma py_take_length: "0 \<le> k \<Longrightarrow> length (py_take k xs) \<le> nat k"
  unfolding py_take_def by simp

lemma py_take_subset: "set (py_take k xs) \<subseteq> set xs"
  unfolding py_take_def by (auto dest: in_set_takeD)

lemma sims_shape:
  assumes "map_exn (\<lambda>(i, pe). ebind (cosine_similarity nm e pe) (\<lambda>sim. Inr (i, sim)))
             (enumerate 0 embs) = Inr sims"
  shows "length sims = length embs"
    and "\<forall>j < length embs. fst (sims ! j) = j \<and> cosine_similarity nm e (embs ! j) = Inr (snd (sims ! j))"
proof -
  from assms have l2: "list_all2 (\<lambda>x y. (case x of (i, pe) \<Rightarrow>
        ebind (cosine_similarity nm e pe) (\<lambda>sim. Inr (i, sim))) = Inr y) (enumerate 0 embs) sims"
    by (simp add: map_exn_Inr_iff)
  then show len: "length sims = length embs"
    by (auto dest: list_all2_lengthD)
  show "\<forall>j < length embs. fst (sims ! j) = j \<and> cosine_similarity nm e (embs ! j) = Inr (snd (sims ! j))"
  proof (intro allI impI)
    fix j assume j: "j < length embs"
    with l2 have "(case enumerate 0 embs ! j of (i, pe) \<Rightarrow>
        ebind (cosine_similarity nm e pe) (\<lambda>sim. Inr (i, sim))) = Inr (sims ! j)"
      by (auto dest: list_all2_nthD)
    with j obtain x where "cosine_similarity nm e (embs ! j) = Inr x" "sims ! j = (j, x)"
      by (auto simp: nth_enumerate_eq ebind_eq_Inr)
    then show "fst (sims ! j) = j \<and> cosine_similarity nm e (embs ! j) = Inr (snd (sims ! j))"
      by simp
  qed
qed

lemma top_sims_shape:
  assumes "top_sims nm enc s papers k = Inr tps"
  shows "\<exists>sims. tps = py_take k (sort_desc sims) \<and> length sims = length papers
           \<and> (\<forall>x \<in> set sims. fst x < length papers \<and>
                (\<exists>t. summary (papers ! fst x) = Some t \<and>
                     cosine_similarity nm (enc s) (enc t) = Inr (snd x)))"
proof -
  from assms obtain texts sims where
    texts: "map_exn abstract_of papers = Inr texts" and
    sims: "map_exn (\<lambda>(i, pe). ebind (cosine_similarity nm (enc s) pe) (\<lambda>sim. Inr (i, sim)))
             (enumerate 0 (map enc texts)) = Inr sims" and
    tps: "tps = py_take k (sort_desc sims)"
    by (auto simp: top_sims_def Let_def ebind_eq_Inr)
  from texts have tl: "list_all2 (\<lambda>p t. abstract_of p = Inr t) papers texts"
    by (simp add: map_exn_Inr_iff)
  then have len_t: "length texts = length papers"
    by (auto dest: list_all2_lengthD)
  note sh = sims_shape [OF sims]
  have "fst x < length papers \<and>
           (\<exists>t. summary (papers ! fst x) = Some t \<and>
                cosine_similarity nm (enc s) (enc t) = Inr (snd x))" if "x \<in> set sims" for x
  proof -
    from that obtain j where j: "j < length sims" "x = sims ! j"
      by (auto simp: in_set_conv_nth)
    with sh len_t have jl: "j < length papers" and fx: "fst x = j"
      and cs: "cosine_similarity nm (enc s) (enc (texts ! j)) = Inr (snd x)"
      by auto
    from tl jl have "abstract_of (papers ! j) = Inr (texts ! j)"
      by (auto dest: list_all2_nthD)
    then have "summary (papers ! j) = Some (texts ! j)"
      by (auto simp: abstract_of_def split: option.splits)
    with jl fx cs show ?thesis by auto
  qed
  with tps sh(1) len_t show ?thesis by auto
qed

lemma top_sims_props:
  assumes "top_sims nm enc s papers k = Inr tps"
  shows "\<forall>x \<in> set tps. fst x < length papers \<and>
           (\<exists>t. summary (papers ! fst x) = Some t \<and>
                cosine_similarity nm (enc s) (enc t) = Inr (snd x))"
    and "0 \<le> k \<Longrightarrow> length tps \<le> nat k"
    and "length tps \<le> length papers"
    and "no_nan nm enc s papers \<Longrightarrow> sorted_wrt (\<lambda>x y. flt_ge (snd x) (snd y)) tps"
proof -
  from top_sims_shape [OF assms] obtain sims where
    tps: "tps = py_take k (sort_desc sims)" and len: "length sims = length papers" and
    el: "\<forall>x \<in> set sims. fst x < length papers \<and>
                (\<exists>t. summary (papers ! fst x) = Some t \<and>
                     cosine_similarity nm (enc s) (enc t) = Inr (snd x))"
    by blast
  have sub: "set tps \<subseteq> set sims"
    using py_take_subset [of k "sort_desc sims"] tps by simp
  with el show "\<forall>x \<in> set tps. fst x < length papers \<and>
           (\<exists>t. summary (papers ! fst x) = Some t \<and>
                cosine_similarity nm (enc s) (enc t) = Inr (snd x))"
    by blast
  show "length tps \<le> nat k" if "0 \<le> k"
    using that tps by (simp add: py_take_length)
  obtain m where m: "tps = take m (sort_desc sims)"
    using py_take_is_take tps by blast
  then show "length tps \<le> length papers"
    using len by simp
  show "sorted_wrt (\<lambda>x y. flt_ge (snd x) (snd y)) tps" if nn: "no_nan nm enc s papers"
  proof -
    have "snd x \<noteq> NaN" if "x \<in> set sims" for x
    proof -
      from el that obtain t where "fst x < length papers" "summary (papers ! fst x) = Some t"
        "cosine_similarity nm (enc s) (enc t) = Inr (snd x)"
        by blast
      with nn show ?thesis
        unfolding no_nan_def by (metis nth_mem)
    qed
    then have "sorted_wrt (\<lambda>x y. flt_ge (snd x) (snd y)) (sort_desc sims)"
      by (intro sort_desc_sorted) simp
    then show ?thesis unfolding m by (rule sorted_wrt_take)
  qed
qed

lemma sims_returns:
  assumes "\<forall>pe \<in> set embs. length pe = length e"
  shows "\<exists>sims. map_exn (\<lambda>(i, pe). ebind (cosine_similarity nm e pe) (\<lambda>sim. Inr (i, sim)))
             (enumerate n embs) = Inr sims"
  using assms
proof (induction embs arbitrary: n)
  case Nil
  then show ?case by simp
next
  case (Cons pe embs)
  then obtain sims where "map_exn (\<lambda>(i, pe). ebind (cosine_similarity nm e pe) (\<lambda>sim. Inr (i, sim)))
             (enumerate (Suc n) embs) = Inr sims"
    by fastforce
  moreover have "length e = length pe" using Cons.prems by simp
  ultimately show ?case
    by (simp add: cosine_similarity_def)
qed

lemma abstracts_return:
  "\<forall>p \<in> set ps. summary p \<noteq> None \<Longrightarrow> \<exists>texts. map_exn abstract_of ps = Inr texts"
  by (induction ps) (auto simp: abstract_of_def)

lemma top_sims_returns:
  assumes "\<forall>p \<in> set papers. summary p \<noteq> None"
    and "\<forall>t. length (enc t) = length (enc s)"
  shows "\<exists>tps. top_sims nm enc s papers k = Inr tps"
proof -
  obtain texts where texts: "map_exn abstract_of papers = Inr texts"
    using abstracts_return [OF assms(1)] by blast
  have "\<forall>pe \<in> set (map enc texts). length pe = length (enc s)"
    using assms(2) by simp
  from sims_returns [OF this, of nm 0] texts show ?thesis
    by (auto simp: top_sims_def Let_def)
qed

lemma rank_cases:
  assumes "rank nm enc s papers k = Inr out"
  shows "(papers = [] \<and> out = [])
         \<or> (\<exists>tps. top_sims nm enc s papers k = Inr tps \<and> out = map (annotate nm papers) tps)"
  using assms by (cases "papers = []") (auto simp: rank_def ebind_eq_Inr)

lemma rank_elems:
  assumes "rank nm enc s papers k = Inr out"
  shows "\<forall>r \<in> set out. \<exists>p \<in> set papers. \<exists>t. summary p = Some t
            \<and> length (enc s) = length (enc t)
            \<and> r = p\<lparr>relevance := Some (f_round nm (f_mul nm
                  (f_div nm (np_dot nm (enc s) (enc t))
                     (f_mul nm (np_norm nm (enc s)) (np_norm nm (enc t))))
                  (Fin 100)) 2)\<rparr>"
proof
  fix r assume r: "r \<in> set out"
  with rank_cases [OF assms] obtain tps where tps: "top_sims nm enc s papers k = Inr tps"
    and out: "out = map (annotate nm papers) tps"
    by auto
  from r out obtain x where x: "x \<in> set tps" "r = annotate nm papers x"
    by auto
  with top_sims_props(1) [OF tps] obtain t where
    t: "fst x < length papers" "summary (papers ! fst x) = Some t"
      "cosine_similarity nm (enc s) (enc t) = Inr (snd x)"
    by blast
  from t(3) have len: "length (enc s) = length (enc t)"
    and sx: "snd x = f_div nm (np_dot nm (enc s) (enc t))
                     (f_mul nm (np_norm nm (enc s)) (np_norm nm (enc t)))"
    by (auto simp: cosine_similarity_def split: if_splits)
  show "\<exists>p \<in> set papers. \<exists>t. summary p = Some t
            \<and> length (enc s) = length (enc t)
            \<and> r = p\<lparr>relevance := Some (f_round nm (f_mul nm
                  (f_div nm (np_dot nm (enc s) (enc t))
                     (f_mul nm (np_norm nm (enc s)) (np_norm nm (enc t))))
                  (Fin 100)) 2)\<rparr>"
  proof (intro bexI [of _ "papers ! fst x"] exI [of _ t] conjI)
    show "papers ! fst x \<in> set papers" using t(1) by simp
    show "summary (papers ! fst x) = Some t" by (rule t(2))
    show "length (enc s) = length (enc t)" by (rule len)
    show "r = (papers ! fst x)\<lparr>relevance := Some (f_round nm (f_mul nm
                  (f_div nm (np_dot nm (enc s) (enc t))
                     (f_mul nm (np_norm nm (enc s)) (np_norm nm (enc t))))
                  (Fin 100)) 2)\<rparr>"
      using x(2) sx by (simp add: annotate_def relevance_of_def)
  qed
qed

lemma rank_sorted:
  assumes "rank nm enc s papers k = Inr out"
    and "monotone_rounding nm" and "no_nan nm enc s papers"
  shows "sorted_wrt (\<lambda>a b. \<exists>x y. relevance a = Some x \<and> relevance b = Some y \<and> flt_ge x y) out"
proof -
  from rank_cases [OF assms(1)] show ?thesis
  proof
    assume "papers = [] \<and> out = []"
    then show ?thesis by simp
  next
    assume "\<exists>tps. top_sims nm enc s papers k = Inr tps \<and> out = map (annotate nm papers) tps"
    then obtain tps where tps: "top_sims nm enc s papers k = Inr tps"
      and out: "out = map (annotate nm papers) tps"
      by blast
    have "sorted_wrt (\<lambda>x y. flt_ge (snd x) (snd y)) tps"
      using top_sims_props(4) [OF tps assms(3)] .
    moreover have "flt_ge (relevance_of nm x) (relevance_of nm y)" if "flt_ge x y" for x y
      using assms(2) that unfolding monotone_rounding_def relevance_of_def by blast
    ultimately have "sorted_wrt (\<lambda>x y. flt_ge (relevance_of nm (snd x)) (relevance_of nm (snd y))) tps"
      by (rule sorted_wrt_mono_rel [rotated]) simp
    then show ?thesis
      unfolding out by (simp add: sorted_wrt_map annotate_def)
  qed
qed

lemma rank_length:
  assumes "rank nm enc s papers k = Inr out"
  shows "0 \<le> k \<Longrightarrow> int (length out) \<le> k" and "length out \<le> length papers"
proof -
  show "int (length out) \<le> k" if "0 \<le> k"
    using rank_cases [OF assms] that top_sims_props(2) [of nm enc s papers k] by auto
  show "length out \<le> length papers"
    using rank_cases [OF assms] top_sims_props(3) [of nm enc s papers k] by auto
qed

lemma rank_returns:
  assumes "\<forall>p \<in> set papers. summary p \<noteq> None"
    and "\<forall>t. length (enc t) = length (enc s)"
  shows "\<exists>out. rank nm enc s papers k = Inr out"
  using top_sims_returns [OF assms, of nm k] by (auto simp: rank_def)

lemma sqrt_9: "sqrt 9 = 3"
  by (rule real_sqrt_unique) simp_all

lemma axis_encode_values:
  "axis_encode ''apples'' = [1, 0]" "axis_encode ''doors'' = [- 1, 0]"
  "axis_encode ''bees'' = [0, 1]" "axis_encode ''cats'' = [3, 0]"
  "axis_encode ''ants'' = [1, 0]" "axis_encode ''zero'' = [0, 0]"
  by (simp_all add: axis_encode_def)

lemma exact_cosines:
  "cosine_similarity exact_numerics [1, 0] [- 1, 0] = Inr (Fin (- 1))"
  "cosine_similarity exact_numerics [1, 0] [0, 1] = Inr (Fin 0)"
  "cosine_similarity exact_numerics [1, 0] [3, 0] = Inr (Fin 1)"
  "cosine_similarity exact_numerics [1, 0] [1, 0] = Inr (Fin 1)"
  "cosine_similarity exact_numerics [1, 0] [0, 0] = Inr NaN"
  by (simp_all add: cosine_similarity_def exact_mul_def exact_div_def sqrt_9 flt_sign_def
      signed_inf_def)

lemma exact_relevances:
  "relevance_of exact_numerics (Fin 1) = Fin 100"
  "relevance_of exact_numerics (Fin 0) = Fin 0"
  "relevance_of exact_numerics (Fin (- 1)) = Fin (- 100)"
  "relevance_of exact_numerics NaN = NaN"
  by (simp_all add: relevance_of_def exact_mul_def exact_round_values)

lemma top_sims_example:
  "top_sims exact_numerics axis_encode ''apples'' four_papers 3
     = Inr [(2, Fin 1), (3, Fin 1), (1, Fin 0)]"
  "top_sims exact_numerics axis_encode ''apples'' four_papers (- 1)
     = Inr [(2, Fin 1), (3, Fin 1), (1, Fin 0)]"
  by (simp_all add: top_sims_def Let_def four_papers_def paper_with_abstract_def abstract_of_def
      axis_encode_values exact_cosines sort_desc_def py_take_def eval_nat_numeral)

lemma rank_example:
  "rank exact_numerics axis_encode ''apples'' four_papers 3 =
     Inr [(paper_with_abstract ''cats'')\<lparr>relevance := Some (Fin 100)\<rparr>,
          (paper_with_abstract ''ants'')\<lparr>relevance := Some (Fin 100)\<rparr>,
          (paper_with_abstract ''bees'')\<lparr>relevance := Some (Fin 0)\<rparr>]"
  "rank exact_numerics axis_encode ''apples'' four_papers (- 1) =
     Inr [(paper_with_abstract ''cats'')\<lparr>relevance := Some (Fin 100)\<rparr>,
          (paper_with_abstract ''ants'')\<lparr>relevance := Some (Fin 100)\<rparr>,
          (paper_with_abstract ''bees'')\<lparr>relevance := Some (Fin 0)\<rparr>]"
  by (simp_all add: rank_def top_sims_example annotate_def exact_relevances)
     (simp_all add: four_papers_def)


lemma rank_zero_embedding:
  "rank exact_numerics axis_encode ''apples''
       [paper_with_abstract ''zero'', paper_with_abstract ''ants''] 3 =
     Inr [(paper_with_abstract ''zero'')\<lparr>relevance := Some NaN\<rparr>,
          (paper_with_abstract ''ants'')\<lparr>relevance := Some (Fin 100)\<rparr>]"
  by (simp add: rank_def top_sims_def paper_with_abstract_def abstract_of_def
      axis_encode_values exact_cosines sort_desc_def Let_def
      annotate_def exact_relevances py_take_def)

lemma no_nan_example: "no_nan exact_numerics axis_encode ''apples'' four_papers"
  by (auto simp add: no_nan_def four_papers_def paper_with_abstract_def
      axis_encode_values exact_cosines)



text \<open>
  Claim C5, as stated, fails in two ways. With a negative \<open>top_k\<close> the slice
  \<open>sims[:top_k]\<close> leaves out the last records only: for \<open>top_k = -1\<close> and four papers the
  ranker returns three records, which is more than \<open>top_k\<close>. And an abstract whose
  embedding has norm zero gets the similarity not-a-number, which no comparison orders:
  its record is returned, with the relevance not-a-number, in front of a record of
  relevance 100, so the returned list is not in descending order of relevance.
\<close>

theorem rank_negative_top_k_and_not_a_number:
  "rank exact_numerics axis_encode ''apples'' four_papers (- 1) =
     Inr [(paper_with_abstract ''cats'')\<lparr>relevance := Some (Fin 100)\<rparr>,
          (paper_with_abstract ''ants'')\<lparr>relevance := Some (Fin 100)\<rparr>,
          (paper_with_abstract ''bees'')\<lparr>relevance := Some (Fin 0)\<rparr>]
   \<and> \<not> int (length [(paper_with_abstract ''cats'')\<lparr>relevance := Some (Fin 100)\<rparr>,
                      (paper_with_abstract ''ants'')\<lparr>relevance := Some (Fin 100)\<rparr>,
                      (paper_with_abstract ''bees'')\<lparr>relevance := Some (Fin 0)\<rparr>]) \<le> - 1
   \<and> rank exact_numerics axis_encode ''apples''
         [paper_with_abstract ''zero'', paper_with_abstract ''ants''] 3 =
       Inr [(paper_with_abstract ''zero'')\<lparr>relevance := Some NaN\<rparr>,
            (paper_with_abstract ''ants'')\<lparr>relevance := Some (Fin 100)\<rparr>]
   \<and> \<not> sorted_wrt (\<lambda>a b. \<exists>x y. relevance a = Some x \<and> relevance b = Some y \<and> flt_ge x y)
         [(paper_with_abstract ''zero'')\<lparr>relevance := Some NaN\<rparr>,
          (paper_with_abstract ''ants'')\<lparr>relevance := Some (Fin 100)\<rparr>]"
  using rank_example(2) rank_zero_embedding by (simp add: flt_ge_def)

text \<open>
  Claim C5, amended. For every summary and every list of paper records: the Semantic
  Ranker returns the empty list when the input list is empty; \<open>top_k\<close> is 3 by default;
  it returns when every record has an abstract and all embeddings have one length. For
  the list it returns: it has no more than \<open>top_k\<close> records when \<open>top_k\<close> is not negative,
  and never more than the input list; each record is a record of the input list with
  \<open>relevance\<close> set to \<open>round(similarity * 100, 2)\<close>, for the cosine similarity
  \<open>dot(s, t) / (norm(s) * norm(t))\<close> of the embeddings of the summary and of that record's
  abstract, in the float arithmetic of the library; and the list is in descending order
  of relevance when no similarity is a not-a-number (rounding keeps the order of floats).
\<close>

theorem rank_top_k_sorted_by_relevance:
  "rank nm enc s [] k = Inr []
   \<and> rank_default nm enc s papers = rank nm enc s papers 3
   \<and> ((\<forall>p \<in> set papers. summary p \<noteq> None) \<and> (\<forall>t. length (enc t) = length (enc s))
        \<longrightarrow> (\<exists>out. rank nm enc s papers k = Inr out))
   \<and> (rank nm enc s papers k = Inr out \<longrightarrow>
        (0 \<le> k \<longrightarrow> int (length out) \<le> k)
        \<and> length out \<le> length papers
        \<and> (\<forall>r \<in> set out. \<exists>p \<in> set papers. \<exists>t. summary p = Some t
              \<and> length (enc s) = length (enc t)
              \<and> r = p\<lparr>relevance := Some (f_round nm (f_mul nm
                    (f_div nm (np_dot nm (enc s) (enc t))
                       (f_mul nm (np_norm nm (enc s)) (np_norm nm (enc t))))
                    (Fin 100)) 2)\<rparr>)
        \<and> (monotone_rounding nm \<and> no_nan nm enc s papers \<longrightarrow>
             sorted_wrt (\<lambda>a b. \<exists>x y. relevance a = Some x \<and> relevance b = Some y \<and> flt_ge x y)
               out))"
proof (intro conjI impI)
  show "rank nm enc s [] k = Inr []" by (simp add: rank_def)
  show "rank_default nm enc s papers = rank nm enc s papers 3" by (simp add: rank_default_def)
  show "\<exists>out. rank nm enc s papers k = Inr out"
    if "(\<forall>p \<in> set papers. summary p \<noteq> None) \<and> (\<forall>t. length (enc t) = length (enc s))"
    using that rank_returns [of papers enc s nm k] by blast
next
  assume r: "rank nm enc s papers k = Inr out"
  show "int (length out) \<le> k" if "0 \<le> k" using rank_length(1) [OF r that] .
  show "length out \<le> length papers" using rank_length(2) [OF r] .
  show "\<forall>r \<in> set out. \<exists>p \<in> set papers. \<exists>t. summary p = Some t
              \<and> length (enc s) = length (enc t)
              \<and> r = p\<lparr>relevance := Some (f_round nm (f_mul nm
                    (f_div nm (np_dot nm (enc s) (enc t))
                       (f_mul nm (np_norm nm (enc s)) (np_norm nm (enc t))))
                    (Fin 100)) 2)\<rparr>"
    using rank_elems [OF r] .
  show "sorted_wrt (\<lambda>a b. \<exists>x y. relevance a = Some x \<and> relevance b = Some y \<and> flt_ge x y) out"
    if "monotone_rounding nm \<and> no_nan nm enc s papers"
    using that rank_sorted [OF r] by blast
qed

theorem rank_top_k_sorted_by_relevance_witness:
  "list_all (\<lambda>p. summary p \<noteq> None) four_papers
   \<and> (\<forall>t. length (axis_encode t) = length (axis_encode ''apples''))
   \<and> (0::int) \<le> 3
   \<and> monotone_rounding exact_numerics
   \<and> no_nan exact_numerics axis_encode ''apples'' four_papers
   \<and> rank exact_numerics axis_encode ''apples'' four_papers 3 =
       Inr [(paper_with_abstract ''cats'')\<lparr>relevance := Some (Fin 100)\<rparr>,
            (paper_with_abstract ''ants'')\<lparr>relevance := Some (Fin 100)\<rparr>,
            (paper_with_abstract ''bees'')\<lparr>relevance := Some (Fin 0)\<rparr>]
   \<and> int (length [(paper_with_abstract ''cats'')\<lparr>relevance := Some (Fin 100)\<rparr>,
            (paper_with_abstract ''ants'')\<lparr>relevance := Some (Fin 100)\<rparr>,
            (paper_with_abstract ''bees'')\<lparr>relevance := Some (Fin 0)\<rparr>]) \<le> 3
   \<and> sorted_wrt (\<lambda>a b. \<exists>x y. relevance a = Some x \<and> relevance b = Some y \<and> flt_ge x y)
        [(paper_with_abstract ''cats'')\<lparr>relevance := Some (Fin 100)\<rparr>,
         (paper_with_abstract ''ants'')\<lparr>relevance := Some (Fin 100)\<rparr>,
         (paper_with_abstract ''bees'')\<lparr>relevance := Some (Fin 0)\<rparr>]"
proof -
  have s: "\<forall>p \<in> set four_papers. summary p \<noteq> None"
    by (simp add: four_papers_def paper_with_abstract_def)
  have d: "\<forall>t. length (axis_encode t) = length (axis_encode ''apples'')"
    by (simp add: axis_encode_def split: list.splits)
  note t = rank_top_k_sorted_by_relevance [of exact_numerics axis_encode "''apples''" 3
      four_papers
      "[(paper_with_abstract ''cats'')\<lparr>relevance := Some (Fin 100)\<rparr>,
        (paper_with_abstract ''ants'')\<lparr>relevance := Some (Fin 100)\<rparr>,
        (paper_with_abstract ''bees'')\<lparr>relevance := Some (Fin 0)\<rparr>]"]
  from t exact_monotone no_nan_example rank_example(1) show ?thesis
    using s d by (simp add: list_all_iff)
qed




lemma annotate_loop_frame:
  "annotate_loop nm refs tops r h = (res, h') \<Longrightarrow> n \<le> r \<Longrightarrow> r < length h \<Longrightarrow>
   take n h' = take n h \<and> length h \<le> length h'"
proof (induction tops arbitrary: h)
  case Nil
  then show ?case by simp
next
  case (Cons x rest)
  show ?case
  proof (cases "deref_dict h (refs ! fst x)")
    case (Inl e)
    with Cons.prems show ?thesis by simp
  next
    case (Inr p)
    define h3 where "h3 = append_ref r (length h)
        ((h @ [DictObj p])[length h := DictObj (p\<lparr>relevance := Some (relevance_of nm (snd x))\<rparr>)])"
    from Cons.prems(1) Inr have run: "annotate_loop nm refs rest r h3 = (res, h')"
      by (simp add: alloc_def h3_def)
    have len: "length h3 = Suc (length h)"
      by (simp add: h3_def append_ref_def split: obj.splits)
    have tk: "take n h3 = take n h"
      using Cons.prems(2,3) by (simp add: h3_def append_ref_def split: obj.splits)
    from Cons.IH [OF run Cons.prems(2)] len Cons.prems(3) tk show ?thesis by simp
  qed
qed

lemma rank_store_frame:
  "rank_store nm enc s l k h = (res, h') \<Longrightarrow> take (length h) h' = h"
proof -
  assume a: "rank_store nm enc s l k h = (res, h')"
  show ?thesis
  proof (cases "deref_list h l")
    case (Inl e)
    with a show ?thesis by (simp add: rank_store_def)
  next
    case (Inr refs)
    note refs = this
    show ?thesis
    proof (cases "refs = []")
      case True
      with a refs show ?thesis by (auto simp: rank_store_def alloc_def)
    next
      case False
      show ?thesis
      proof (cases "map_exn (deref_dict h) refs")
        case (Inl e)
        with a refs False show ?thesis by (simp add: rank_store_def)
      next
        case (Inr papers)
        note papers = this
        show ?thesis
        proof (cases "top_sims nm enc s papers k")
          case (Inl e)
          with a refs False papers show ?thesis by (simp add: rank_store_def)
        next
          case (Inr tops)
          with a refs False papers
          have "annotate_loop nm refs tops (length h) (h @ [ListObj []]) = (res, h')"
            by (simp add: rank_store_def alloc_def)
          from annotate_loop_frame [OF this, of "length h"] show ?thesis by simp
        qed
      qed
    qed
  qed
qed


lemma deref_dict_Inr: "deref_dict h a = Inr p \<longleftrightarrow> a < length h \<and> h ! a = DictObj p"
  by (auto simp: deref_dict_def split: obj.splits)

lemma deref_list_Inr: "deref_list h a = Inr xs \<longleftrightarrow> a < length h \<and> h ! a = ListObj xs"
  by (auto simp: deref_list_def split: obj.splits)

lemma annotate_loop_result:
  assumes "r < length h" "h ! r = ListObj acc"
    and "list_all2 (\<lambda>b p. b < length h \<and> b \<noteq> r \<and> h ! b = DictObj p) refs papers"
    and "list_all2 (\<lambda>a v. a < length h \<and> a \<noteq> r \<and> h ! a = DictObj v) acc accv"
    and "\<forall>x \<in> set tops. fst x < length refs"
  shows "\<exists>h' news. annotate_loop nm refs tops r h = (Inr r, h') \<and> r < length h'
           \<and> h' ! r = ListObj (acc @ news)
           \<and> list_all2 (\<lambda>a v. a < length h' \<and> a \<noteq> r \<and> h' ! a = DictObj v)
                (acc @ news) (accv @ map (annotate nm papers) tops)
           \<and> (\<forall>a \<in> set news. length h \<le> a)"
  using assms
proof (induction tops arbitrary: h acc accv)
  case Nil
  then show ?case by simp
next
  case (Cons x rest)
  define p where "p = papers ! fst x"
  define h3 where "h3 = (h @ [DictObj (annotate nm papers x)])[r := ListObj (acc @ [length h])]"
  have ix: "fst x < length refs" using Cons.prems(5) by simp
  with Cons.prems(3) have b: "refs ! fst x < length h" "h ! (refs ! fst x) = DictObj p"
    unfolding p_def by (auto dest: list_all2_nthD)
  then have d: "deref_dict h (refs ! fst x) = Inr p"
    by (simp add: deref_dict_Inr)
  have h3: "append_ref r (length h)
      ((h @ [DictObj p])[length h := DictObj (p\<lparr>relevance := Some (relevance_of nm (snd x))\<rparr>)]) = h3"
    using Cons.prems(1,2)
    by (simp add: append_ref_def h3_def annotate_def p_def nth_append list_update_append)
  have step: "annotate_loop nm refs (x # rest) r h = annotate_loop nm refs rest r h3"
    using d h3 by (simp add: alloc_def)
  have l3: "length h3 = Suc (length h)" by (simp add: h3_def)
  have old: "h3 ! i = h ! i" if "i < length h" "i \<noteq> r" for i
    using that by (simp add: h3_def nth_append)
  have p1: "r < length h3" using Cons.prems(1) l3 by simp
  have p2: "h3 ! r = ListObj (acc @ [length h])"
    using Cons.prems(1) by (simp add: h3_def)
  have p3: "list_all2 (\<lambda>b p. b < length h3 \<and> b \<noteq> r \<and> h3 ! b = DictObj p) refs papers"
    using Cons.prems(3) old l3 by (auto elim!: list_all2_mono)
  have new: "h3 ! length h = DictObj (annotate nm papers x)"
    using Cons.prems(1) by (simp add: h3_def nth_append)
  have p4: "list_all2 (\<lambda>a v. a < length h3 \<and> a \<noteq> r \<and> h3 ! a = DictObj v)
              (acc @ [length h]) (accv @ [annotate nm papers x])"
  proof (rule list_all2_appendI)
    show "list_all2 (\<lambda>a v. a < length h3 \<and> a \<noteq> r \<and> h3 ! a = DictObj v) acc accv"
      using Cons.prems(4) old l3 by (auto elim!: list_all2_mono)
    show "list_all2 (\<lambda>a v. a < length h3 \<and> a \<noteq> r \<and> h3 ! a = DictObj v)
            [length h] [annotate nm papers x]"
      using new l3 Cons.prems(1) by simp
  qed
  have p5: "\<forall>x \<in> set rest. fst x < length refs" using Cons.prems(5) by simp
  from Cons.IH [OF p1 p2 p3 p4 p5] obtain h' news where
    r: "annotate_loop nm refs rest r h3 = (Inr r, h')" "r < length h'"
       "h' ! r = ListObj ((acc @ [length h]) @ news)"
       "list_all2 (\<lambda>a v. a < length h' \<and> a \<noteq> r \<and> h' ! a = DictObj v)
          ((acc @ [length h]) @ news) ((accv @ [annotate nm papers x]) @ map (annotate nm papers) rest)"
       "\<forall>a \<in> set news. length h3 \<le> a"
    by blast
  show ?case
  proof (intro exI [of _ h'] exI [of _ "length h # news"] conjI)
    show "annotate_loop nm refs (x # rest) r h = (Inr r, h')" using step r(1) by simp
    show "r < length h'" by (rule r(2))
    show "h' ! r = ListObj (acc @ length h # news)" using r(3) by simp
    show "list_all2 (\<lambda>a v. a < length h' \<and> a \<noteq> r \<and> h' ! a = DictObj v)
            (acc @ length h # news) (accv @ map (annotate nm papers) (x # rest))"
      using r(4) by simp
    show "\<forall>a \<in> set (length h # news). length h \<le> a" using r(5) l3 by auto
  qed
qed


lemma prefix_nth: "take n h' = h \<Longrightarrow> i < length h \<Longrightarrow> h' ! i = h ! i"
  by (metis length_take min_less_iff_conj nth_take)

lemma prefix_deref:
  assumes "take (length h) h' = h"
  shows "deref_dict h a = Inr p \<Longrightarrow> deref_dict h' a = Inr p"
    and "deref_list h a = Inr xs \<Longrightarrow> deref_list h' a = Inr xs"
proof -
  have len: "length h \<le> length h'"
    using arg_cong [OF assms, of length] by simp
  show "deref_dict h' a = Inr p" if "deref_dict h a = Inr p"
    using that len prefix_nth [OF assms, of a] by (auto simp: deref_dict_Inr)
  show "deref_list h' a = Inr xs" if "deref_list h a = Inr xs"
    using that len prefix_nth [OF assms, of a] by (auto simp: deref_list_Inr)
qed

lemma rank_store_result:
  assumes run: "rank_store nm enc s l k h = (Inr r, h')"
  shows "\<exists>refs papers out vals.
           deref_list h l = Inr refs \<and> map_exn (deref_dict h) refs = Inr papers
           \<and> deref_list h' r = Inr out \<and> list_all (\<lambda>a. length h \<le> a) out
           \<and> map_exn (deref_dict h') out = Inr vals \<and> rank nm enc s papers k = Inr vals"
proof -
  from run obtain refs where refs: "deref_list h l = Inr refs"
    by (cases "deref_list h l") (auto simp: rank_store_def)
  show ?thesis
  proof (cases "refs = []")
    case True
    with run refs have "r = length h" "h' = h @ [ListObj []]"
      by (auto simp: rank_store_def alloc_def)
    with True refs show ?thesis
      by (auto simp: deref_list_Inr rank_def)
  next
    case False
    with run refs obtain papers where papers: "map_exn (deref_dict h) refs = Inr papers"
      by (cases "map_exn (deref_dict h) refs") (auto simp: rank_store_def)
    with run refs False obtain tops where tops: "top_sims nm enc s papers k = Inr tops"
      by (cases "top_sims nm enc s papers k") (auto simp: rank_store_def)
    with run refs False papers
    have loop: "annotate_loop nm refs tops (length h) (h @ [ListObj []]) = (Inr r, h')"
      by (simp add: rank_store_def alloc_def)
    from papers have l2: "list_all2 (\<lambda>b p. b < length h \<and> h ! b = DictObj p) refs papers"
      by (simp add: map_exn_Inr_iff deref_dict_Inr)
    then have len: "length papers = length refs"
      by (auto dest: list_all2_lengthD)
    have a3: "list_all2 (\<lambda>b p. b < length (h @ [ListObj []]) \<and> b \<noteq> length h
                \<and> (h @ [ListObj []]) ! b = DictObj p) refs papers"
      using l2 by (auto elim!: list_all2_mono simp: nth_append)
    have a5: "\<forall>x \<in> set tops. fst x < length refs"
      using top_sims_props(1) [OF tops] len by auto
    from annotate_loop_result [of "length h" "h @ [ListObj []]" "[]" refs papers "[]" tops nm,
        OF _ _ a3 _ a5]
    obtain h2 news where
      n: "annotate_loop nm refs tops (length h) (h @ [ListObj []]) = (Inr (length h), h2)"
         "length h < length h2" "h2 ! length h = ListObj news"
         "list_all2 (\<lambda>a v. a < length h2 \<and> a \<noteq> length h \<and> h2 ! a = DictObj v)
            news (map (annotate nm papers) tops)"
         "\<forall>a \<in> set news. length (h @ [ListObj []]) \<le> a"
      by auto
    from loop n(1) have eq: "r = length h" "h' = h2" by simp_all
    have "deref_list h' r = Inr news"
      using n(2,3) eq by (simp add: deref_list_Inr)
    moreover have "list_all (\<lambda>a. length h \<le> a) news"
      using n(5) by (auto simp: list_all_iff)
    moreover have "map_exn (deref_dict h') news = Inr (map (annotate nm papers) tops)"
      using n(4) eq by (auto simp: map_exn_Inr_iff deref_dict_Inr elim!: list_all2_mono)
    moreover have "rank nm enc s papers k = Inr (map (annotate nm papers) tops)"
      using tops len False by (auto simp: rank_def)
    ultimately show ?thesis using refs papers by blast
  qed
qed

text \<open>
  Claim C10. \<open>rank\<close> never mutates its arguments: whatever the call returns or raises,
  every object that was in the store before the call is unchanged afterwards, the list
  \<open>papers\<close> and each dictionary in it included. When it returns, the result is a new
  list of new dictionaries, and each of them is a copy of a dictionary of \<open>papers\<close> that
  differs from it in the key \<open>relevance\<close> only; their values are the records that
  \<open>rank\<close> computes on the values of \<open>papers\<close>.
\<close>

theorem rank_store_leaves_arguments_unchanged:
  "rank_store nm enc s l k h = (res, h') \<longrightarrow>
     take (length h) h' = h
     \<and> deref_list h' l = deref_list h l
     \<and> (\<forall>r. res = Inr r \<longrightarrow>
          (\<exists>refs papers out vals.
             deref_list h l = Inr refs \<and> map_exn (deref_dict h) refs = Inr papers
             \<and> map_exn (deref_dict h') refs = Inr papers
             \<and> deref_list h' r = Inr out \<and> list_all (\<lambda>a. length h \<le> a) out
             \<and> map_exn (deref_dict h') out = Inr vals \<and> rank nm enc s papers k = Inr vals
             \<and> list_all (\<lambda>v. \<exists>p \<in> set papers. \<exists>x. v = p\<lparr>relevance := Some x\<rparr>) vals))"
proof (intro impI conjI allI)
  assume run: "rank_store nm enc s l k h = (res, h')"
  show fr: "take (length h) h' = h" using run by (rule rank_store_frame)
  show "deref_list h' l = deref_list h l"
  proof (cases "deref_list h l")
    case (Inl e)
    with run have "h' = h" by (simp add: rank_store_def)
    then show ?thesis by simp
  next
    case (Inr xs)
    with prefix_deref(2) [OF fr] show ?thesis by simp
  qed
  fix r assume "res = Inr r"
  with run rank_store_result [of nm enc s l k h r h'] obtain refs papers out vals where
    o: "deref_list h l = Inr refs" "map_exn (deref_dict h) refs = Inr papers"
       "deref_list h' r = Inr out" "list_all (\<lambda>a. length h \<le> a) out"
       "map_exn (deref_dict h') out = Inr vals" "rank nm enc s papers k = Inr vals"
    by blast
  have same: "map_exn (deref_dict h') refs = Inr papers"
    using o(2) prefix_deref(1) [OF fr] by (auto simp: map_exn_Inr_iff elim!: list_all2_mono)
  have "list_all (\<lambda>v. \<exists>p \<in> set papers. \<exists>x. v = p\<lparr>relevance := Some x\<rparr>) vals"
    using rank_elems [OF o(6)] unfolding list_all_iff by blast
  with o same show "\<exists>refs papers out vals.
             deref_list h l = Inr refs \<and> map_exn (deref_dict h) refs = Inr papers
             \<and> map_exn (deref_dict h') refs = Inr papers
             \<and> deref_list h' r = Inr out \<and> list_all (\<lambda>a. length h \<le> a) out
             \<and> map_exn (deref_dict h') out = Inr vals \<and> rank nm enc s papers k = Inr vals
             \<and> list_all (\<lambda>v. \<exists>p \<in> set papers. \<exists>x. v = p\<lparr>relevance := Some x\<rparr>) vals"
    by blast
qed

lemma rank_store_example:
  "rank_store exact_numerics axis_encode ''apples'' 4 3 four_papers_store =
     (Inr 5, four_papers_store @
        [ListObj [6, 7, 8],
         DictObj ((paper_with_abstract ''cats'')\<lparr>relevance := Some (Fin 100)\<rparr>),
         DictObj ((paper_with_abstract ''ants'')\<lparr>relevance := Some (Fin 100)\<rparr>),
         DictObj ((paper_with_abstract ''bees'')\<lparr>relevance := Some (Fin 0)\<rparr>)])"
proof -
  have t: "top_sims exact_numerics axis_encode ''apples''
             [paper_with_abstract ''doors'', paper_with_abstract ''bees'',
              paper_with_abstract ''cats'', paper_with_abstract ''ants''] 3
           = Inr [(2, Fin 1), (3, Fin 1), (1, Fin 0)]"
    using top_sims_example(1) by (simp add: four_papers_def)
  show ?thesis
    by (simp add: rank_store_def four_papers_store_def four_papers_def deref_list_def
        deref_dict_def t alloc_def append_ref_def exact_relevances)
qed


theorem rank_store_leaves_arguments_unchanged_witness:
  "rank_store exact_numerics axis_encode ''apples'' 4 3 four_papers_store =
     (Inr 5, four_papers_store @
        [ListObj [6, 7, 8],
         DictObj ((paper_with_abstract ''cats'')\<lparr>relevance := Some (Fin 100)\<rparr>),
         DictObj ((paper_with_abstract ''ants'')\<lparr>relevance := Some (Fin 100)\<rparr>),
         DictObj ((paper_with_abstract ''bees'')\<lparr>relevance := Some (Fin 0)\<rparr>)])
   \<and> take (length four_papers_store) (four_papers_store @
        [ListObj [6, 7, 8],
         DictObj ((paper_with_abstract ''cats'')\<lparr>relevance := Some (Fin 100)\<rparr>),
         DictObj ((paper_with_abstract ''ants'')\<lparr>relevance := Some (Fin 100)\<rparr>),
         DictObj ((paper_with_abstract ''bees'')\<lparr>relevance := Some (Fin 0)\<rparr>)]) = four_papers_store
   \<and> deref_list (four_papers_store @
        [ListObj [6, 7, 8],
         DictObj ((paper_with_abstract ''cats'')\<lparr>relevance := Some (Fin 100)\<rparr>),
         DictObj ((paper_with_abstract ''ants'')\<lparr>relevance := Some (Fin 100)\<rparr>),
         DictObj ((paper_with_abstract ''bees'')\<lparr>relevance := Some (Fin 0)\<rparr>)]) 4
       = deref_list four_papers_store 4"
  using rank_store_example
    rank_store_leaves_arguments_unchanged [of exact_numerics axis_encode "''apples''" 4 3 four_papers_store
      "Inr 5" "four_papers_store @
        [ListObj [6, 7, 8],
         DictObj ((paper_with_abstract ''cats'')\<lparr>relevance := Some (Fin 100)\<rparr>),
         DictObj ((paper_with_abstract ''ants'')\<lparr>relevance := Some (Fin 100)\<rparr>),
         DictObj ((paper_with_abstract ''bees'')\<lparr>relevance := Some (Fin 0)\<rparr>)]"]
  by blast

section \<open>Properties of the Keyword/Summary Extractor\<close>

lemma extract_one_parse_failure:
  assumes "call_llm idx (ExtractPrompt get_summary p) = Inr reply"
    and "loads (clean_response reply) = Inl JSONDecodeError"
  shows "extract_one call_llm loads get_summary True idx p st = Inl TypeError"
  using assms by (simp add: extract_one_def json_loads_def)

lemma extract_loop_parse_failure:
  assumes "k < length ps"
    and "call_llm (idx + k) (ExtractPrompt get_summary (ps ! k)) = Inr reply"
    and "loads (clean_response reply) = Inl JSONDecodeError"
  shows "\<exists>e. extract_loop call_llm loads get_summary True idx ps st = Inl e"
  using assms
proof (induction ps arbitrary: idx k st)
  case Nil
  then show ?case by simp
next
  case (Cons p ps)
  show ?case
  proof (cases k)
    case 0
    with Cons.prems have "extract_one call_llm loads get_summary True idx p st = Inl TypeError"
      by (simp add: extract_one_parse_failure)
    then show ?thesis by simp
  next
    case (Suc j)
    show ?thesis
    proof (cases "extract_one call_llm loads get_summary True idx p st")
      case (Inl e)
      then show ?thesis by simp
    next
      case (Inr st1)
      from Cons.prems Suc have "j < length ps"
        "call_llm (Suc idx + j) (ExtractPrompt get_summary (ps ! j)) = Inr reply"
        by simp_all
      from Cons.IH [OF this Cons.prems(3), of st1] Inr show ?thesis by simp
    qed
  qed
qed

text \<open>
  Claim C3. With the default \<open>retry_on_fail\<close>, a paragraph whose response fails JSON
  parsing does not lead to a retry and a heuristic fallback: the retry statement raises
  \<open>TypeError\<close>, which leaves \<open>extract_keywords_and_summary\<close>. When the response to the
  first paragraph fails to parse, the function raises \<open>TypeError\<close>; when the response to
  any paragraph fails to parse, the function raises and returns no result, so the
  paragraphs after it are not processed.
\<close>

theorem extract_retry_raises_TypeError:
  "(call_llm 0 (ExtractPrompt get_summary p) = Inr reply \<and> loads (clean_response reply) = Inl JSONDecodeError
     \<longrightarrow> extract_keywords_and_summary call_llm loads (p # ps) get_summary True = Inl TypeError)
   \<and> (k < length qs \<and> call_llm k (ExtractPrompt get_summary (qs ! k)) = Inr reply
       \<and> loads (clean_response reply) = Inl JSONDecodeError
     \<longrightarrow> (\<exists>e. extract_keywords_and_summary call_llm loads qs get_summary True = Inl e))"
proof (intro conjI impI)
  assume "call_llm 0 (ExtractPrompt get_summary p) = Inr reply \<and> loads (clean_response reply) = Inl JSONDecodeError"
  then show "extract_keywords_and_summary call_llm loads (p # ps) get_summary True = Inl TypeError"
    by (simp add: extract_keywords_and_summary_def extract_one_parse_failure)
next
  assume a: "k < length qs \<and> call_llm k (ExtractPrompt get_summary (qs ! k)) = Inr reply
       \<and> loads (clean_response reply) = Inl JSONDecodeError"
  then show "\<exists>e. extract_keywords_and_summary call_llm loads qs get_summary True = Inl e"
    unfolding extract_keywords_and_summary_def
    using extract_loop_parse_failure [of k qs call_llm 0 get_summary reply loads] by simp
qed

lemma prose_not_json:
  "sample_loads (clean_response ''Sure! Here are the keywords you asked for.'') = Inl JSONDecodeError"
  by code_simp

theorem extract_retry_raises_TypeError_witness:
  "prose_llm 0 (ExtractPrompt True ''Quantum computers are fast. Qubits are fragile.'')
     = Inr ''Sure! Here are the keywords you asked for.''
   \<and> sample_loads (clean_response ''Sure! Here are the keywords you asked for.'') = Inl JSONDecodeError
   \<and> (1 :: nat) < length [''Quantum computers are fast. Qubits are fragile.'', ''Second paragraph.'']
   \<and> prose_llm 1 (ExtractPrompt True
          ([''Quantum computers are fast. Qubits are fragile.'', ''Second paragraph.''] ! 1))
       = Inr ''Sure! Here are the keywords you asked for.''
   \<and> extract_keywords_and_summary prose_llm sample_loads
        [''Quantum computers are fast. Qubits are fragile.'', ''Second paragraph.''] True True
       = Inl TypeError
   \<and> (\<exists>e. extract_keywords_and_summary prose_llm sample_loads
        [''Quantum computers are fast. Qubits are fragile.'', ''Second paragraph.''] True True
       = Inl e)"
proof -
  note t = extract_retry_raises_TypeError [of prose_llm True
      "''Quantum computers are fast. Qubits are fragile.''"
      "''Sure! Here are the keywords you asked for.''" sample_loads "[''Second paragraph.'']"
      1 "[''Quantum computers are fast. Qubits are fragile.'', ''Second paragraph.'']"]
  have a: "prose_llm 0 (ExtractPrompt True ''Quantum computers are fast. Qubits are fragile.'')
     = Inr ''Sure! Here are the keywords you asked for.''"
    by (simp add: prose_llm_def)
  have b: "prose_llm 1 (ExtractPrompt True
          ([''Quantum computers are fast. Qubits are fragile.'', ''Second paragraph.''] ! 1))
       = Inr ''Sure! Here are the keywords you asked for.''"
    by (simp add: prose_llm_def)
  have l: "(1 :: nat) < length [''Quantum computers are fast. Qubits are fragile.'', ''Second paragraph.'']"
    by simp
  from t a prose_not_json
  have c: "extract_keywords_and_summary prose_llm sample_loads
        [''Quantum computers are fast. Qubits are fragile.'', ''Second paragraph.''] True True
       = Inl TypeError"
    by blast
  from t b l prose_not_json
  have d: "\<exists>e. extract_keywords_and_summary prose_llm sample_loads
        [''Quantum computers are fast. Qubits are fragile.'', ''Second paragraph.''] True True
       = Inl e"
    by blast
  from a b l c d prose_not_json show ?thesis by blast
qed

lemma split_from_nonempty:
  "cur \<noteq> [] \<or> (\<exists>c \<in> set s. \<not> isspace c) \<Longrightarrow> split_from cur s \<noteq> []"
  by (induction s arbitrary: cur) auto

lemma py_strip_nonblank:
  assumes "py_strip s \<noteq> []"
  shows "\<exists>c \<in> set (py_strip s). \<not> isspace c"
proof -
  let ?t = "dropWhile isspace (rev (dropWhile isspace s))"
  from assms have ne: "?t \<noteq> []" by (simp add: py_strip_def)
  then have "\<not> isspace (hd ?t)" by (rule hd_dropWhile)
  moreover have "hd ?t \<in> set (py_strip s)" using ne by (simp add: py_strip_def)
  ultimately show ?thesis by blast
qed

lemma first_word_returns:
  "py_strip s \<noteq> [] \<Longrightarrow> \<exists>w. first_word s = Inr w"
  using split_from_nonempty [of "[]" "py_strip s"] py_strip_nonblank [of s]
  by (auto simp: first_word_def py_split_def split: list.splits)

lemma first_words_return:
  "\<forall>s \<in> set xs. py_strip s \<noteq> [] \<Longrightarrow> \<exists>ws. map_exn first_word xs = Inr ws"
proof (induction xs)
  case Nil
  then show ?case by simp
next
  case (Cons x xs)
  then obtain w ws where "first_word x = Inr w" "map_exn first_word xs = Inr ws"
    using first_word_returns [of x] by auto
  then show ?case by simp
qed

lemma heuristic_keywords_returns:
  "\<exists>ws. heuristic_keywords p = Inr (JArr (map JStr ws)) \<and> length ws \<le> 8"
proof -
  obtain ws where "map_exn first_word
      (filter (\<lambda>s. py_strip s \<noteq> []) (split_on (CHR ''.'') [] p)) = Inr ws"
    using first_words_return [of "filter (\<lambda>s. py_strip s \<noteq> []) (split_on (CHR ''.'') [] p)"]
    by auto
  then have "heuristic_keywords p = Inr (JArr (map JStr (take 8 ws)))"
    by (simp add: heuristic_keywords_def)
  then show ?thesis by (intro exI [of _ "take 8 ws"]) simp
qed

lemma extract_without_retry_falls_back:
  assumes "call_llm idx (ExtractPrompt True p) = Inr text"
    and "loads (clean_response text) = Inl JSONDecodeError"
  shows "\<exists>ws. length ws \<le> 8 \<and> heuristic_keywords p = Inr (JArr (map JStr ws))
           \<and> extract_one call_llm loads True False idx p st =
               Inr (set_summary idx (heuristic_summary p)
                      (set_keywords idx (JArr (map JStr ws)) st))"
proof -
  obtain ws where ws: "heuristic_keywords p = Inr (JArr (map JStr ws))" "length ws \<le> 8"
    using heuristic_keywords_returns by blast
  with assms show ?thesis
    by (intro exI [of _ ws]) (simp add: extract_one_def json_loads_def)
qed

section \<open>Properties of the Keyword Ranker\<close>

lemma read_ranked_load_error:
  "loads (clean_response reply) = Inl e \<Longrightarrow> read_ranked loads reply = Inl e"
  by (simp add: read_ranked_def json_loads_def)

lemma read_ranked_Inr_iff:
  "read_ranked loads reply = Inr items \<longleftrightarrow>
     (\<exists>kvs v objs. loads (clean_response reply) = Inr (JObj kvs)
        \<and> map_of kvs ''ranked_keywords'' = Some v \<and> iterate v = Inr objs
        \<and> list_all2 (\<lambda>ob it. subscript ob ''keyword'' = Inr (fst it)
                            \<and> subscript ob ''relevance'' = Inr (snd it)) objs items)"
proof -
  have pair: "(ebind (subscript ob ''keyword'') (\<lambda>k.
                 ebind (subscript ob ''relevance'') (\<lambda>r. Inr (k, r))) = Inr it)
              \<longleftrightarrow> (subscript ob ''keyword'' = Inr (fst it) \<and> subscript ob ''relevance'' = Inr (snd it))"
    for ob it
    by (cases it) (auto simp: ebind_eq_Inr)
  have sub: "subscript data ''ranked_keywords'' = Inr v
              \<longleftrightarrow> (\<exists>kvs. data = JObj kvs \<and> map_of kvs ''ranked_keywords'' = Some v)"
    for data v
    by (auto simp: subscript_def split: json.splits option.splits)
  have m: "map_exn (\<lambda>kw. ebind (subscript kw ''keyword'') (\<lambda>k.
                      ebind (subscript kw ''relevance'') (\<lambda>r. Inr (k, r)))) objs = Inr items
           \<longleftrightarrow> list_all2 (\<lambda>ob it. subscript ob ''keyword'' = Inr (fst it)
                            \<and> subscript ob ''relevance'' = Inr (snd it)) objs items"
    for objs
    by (simp add: map_exn_Inr_iff pair)
  show ?thesis
    unfolding read_ranked_def json_loads_def
    by (simp add: ebind_eq_Inr m sub) blast
qed

lemma read_ranked_missing_key:
  "loads (clean_response reply) = Inr (JObj kvs) \<Longrightarrow> map_of kvs ''ranked_keywords'' = None
   \<Longrightarrow> read_ranked loads reply = Inl KeyError"
  by (simp add: read_ranked_def json_loads_def subscript_def)

text \<open>
  Claim C4, amended. Once the endpoint has answered a request for a keyword list:
  \<open>LLMClient.rank_keywords\<close> never raises; on every exception raised while the response
  is read (by \<open>json.loads\<close>, by a subscript or by the iteration) it returns the original
  keywords in their original order, each paired with a null score, a list as long as the
  keyword list. \<open>rank_keywords_llm\<close> returns that list when \<open>json.loads\<close> raises
  \<open>JSONDecodeError\<close>, and raises every other exception of the reading itself, a
  \<open>KeyError\<close> for a dictionary without the key \<open>ranked_keywords\<close> for one. The response
  is read without an exception exactly when it parses to a dictionary whose
  \<open>ranked_keywords\<close> can be iterated and holds dictionaries with the keys \<open>keyword\<close> and
  \<open>relevance\<close>; then both rankers return the pairs the response lists, in its order:
  a list as long as the list of the response.
\<close>

theorem rank_keywords_fallback_and_length:
  "call_llm n (RankPrompt paragraph (JArr ks)) = Inr reply \<longrightarrow>
     (\<exists>res. rank_keywords call_llm loads n paragraph (JArr ks) = Inr res)
     \<and> (\<forall>e. read_ranked loads reply = Inl e \<longrightarrow>
           rank_keywords call_llm loads n paragraph (JArr ks) = Inr (map (\<lambda>kw. (kw, JNull)) ks)
           \<and> rank_keywords_llm call_llm loads n paragraph (JArr ks)
               = (if e = JSONDecodeError then Inr (map (\<lambda>kw. (kw, JNull)) ks) else Inl e))
     \<and> length (map (\<lambda>kw. (kw, JNull)) ks) = length ks
     \<and> (\<forall>e. loads (clean_response reply) = Inl e \<longrightarrow> read_ranked loads reply = Inl e)
     \<and> (\<forall>kvs. loads (clean_response reply) = Inr (JObj kvs)
            \<and> map_of kvs ''ranked_keywords'' = None \<longrightarrow> read_ranked loads reply = Inl KeyError)
     \<and> (loads (clean_response reply) = Inl JSONDecodeError \<longrightarrow>
          rank_keywords call_llm loads n paragraph (JArr ks) = Inr (map (\<lambda>kw. (kw, JNull)) ks)
          \<and> rank_keywords_llm call_llm loads n paragraph (JArr ks) = Inr (map (\<lambda>kw. (kw, JNull)) ks))
     \<and> (\<forall>items. read_ranked loads reply = Inr items \<longleftrightarrow>
           (\<exists>kvs v objs. loads (clean_response reply) = Inr (JObj kvs)
              \<and> map_of kvs ''ranked_keywords'' = Some v \<and> iterate v = Inr objs
              \<and> list_all2 (\<lambda>ob it. subscript ob ''keyword'' = Inr (fst it)
                                  \<and> subscript ob ''relevance'' = Inr (snd it)) objs items))
     \<and> (\<forall>items. read_ranked loads reply = Inr items \<longrightarrow>
           rank_keywords call_llm loads n paragraph (JArr ks) = Inr items
           \<and> rank_keywords_llm call_llm loads n paragraph (JArr ks) = Inr items)
     \<and> (loads (clean_response reply) = Inr (JObj kvs)
          \<and> map_of kvs ''ranked_keywords'' = Some (JArr objs)
          \<and> list_all2 (\<lambda>ob it. subscript ob ''keyword'' = Inr (fst it)
                              \<and> subscript ob ''relevance'' = Inr (snd it)) objs items \<longrightarrow>
          rank_keywords call_llm loads n paragraph (JArr ks) = Inr items
          \<and> rank_keywords_llm call_llm loads n paragraph (JArr ks) = Inr items
          \<and> length items = length objs)"
proof
  assume t: "call_llm n (RankPrompt paragraph (JArr ks)) = Inr reply"
  have returns: "\<exists>res. rank_keywords call_llm loads n paragraph (JArr ks) = Inr res"
    using t by (cases "read_ranked loads reply")
      (simp_all add: rank_keywords_def unranked_def iterate_def)
  have raised: "rank_keywords call_llm loads n paragraph (JArr ks) = Inr (map (\<lambda>kw. (kw, JNull)) ks)
           \<and> rank_keywords_llm call_llm loads n paragraph (JArr ks)
               = (if e = JSONDecodeError then Inr (map (\<lambda>kw. (kw, JNull)) ks) else Inl e)"
    if "read_ranked loads reply = Inl e" for e
    using t that
    by (cases e) (simp_all add: rank_keywords_def rank_keywords_llm_def unranked_def iterate_def)
  have load_error: "read_ranked loads reply = Inl e" if "loads (clean_response reply) = Inl e" for e
    using that by (rule read_ranked_load_error)
  have missing: "read_ranked loads reply = Inl KeyError"
    if "loads (clean_response reply) = Inr (JObj kvs) \<and> map_of kvs ''ranked_keywords'' = None"
    for kvs
    using that read_ranked_missing_key [of loads reply kvs] by blast
  have fallback: "rank_keywords call_llm loads n paragraph (JArr ks) = Inr (map (\<lambda>kw. (kw, JNull)) ks)
          \<and> rank_keywords_llm call_llm loads n paragraph (JArr ks) = Inr (map (\<lambda>kw. (kw, JNull)) ks)"
    if "loads (clean_response reply) = Inl JSONDecodeError"
    using raised [OF load_error [OF that]] by simp
  have read: "rank_keywords call_llm loads n paragraph (JArr ks) = Inr items
           \<and> rank_keywords_llm call_llm loads n paragraph (JArr ks) = Inr items"
    if "read_ranked loads reply = Inr items" for items
    using t that by (simp add: rank_keywords_def rank_keywords_llm_def)
  have parsed: "rank_keywords call_llm loads n paragraph (JArr ks) = Inr items
          \<and> rank_keywords_llm call_llm loads n paragraph (JArr ks) = Inr items
          \<and> length items = length objs"
    if a: "loads (clean_response reply) = Inr (JObj kvs)
          \<and> map_of kvs ''ranked_keywords'' = Some (JArr objs)
          \<and> list_all2 (\<lambda>ob it. subscript ob ''keyword'' = Inr (fst it)
                              \<and> subscript ob ''relevance'' = Inr (snd it)) objs items"
  proof -
    have "iterate (JArr objs) = Inr objs" by (simp add: iterate_def)
    with a have "read_ranked loads reply = Inr items"
      unfolding read_ranked_Inr_iff by blast
    with read a show ?thesis
      by (auto dest: list_all2_lengthD)
  qed
  show "(\<exists>res. rank_keywords call_llm loads n paragraph (JArr ks) = Inr res)
     \<and> (\<forall>e. read_ranked loads reply = Inl e \<longrightarrow>
           rank_keywords call_llm loads n paragraph (JArr ks) = Inr (map (\<lambda>kw. (kw, JNull)) ks)
           \<and> rank_keywords_llm call_llm loads n paragraph (JArr ks)
               = (if e = JSONDecodeError then Inr (map (\<lambda>kw. (kw, JNull)) ks) else Inl e))
     \<and> length (map (\<lambda>kw. (kw, JNull)) ks) = length ks
     \<and> (\<forall>e. loads (clean_response reply) = Inl e \<longrightarrow> read_ranked loads reply = Inl e)
     \<and> (\<forall>kvs. loads (clean_response reply) = Inr (JObj kvs)
            \<and> map_of kvs ''ranked_keywords'' = None \<longrightarrow> read_ranked loads reply = Inl KeyError)
     \<and> (loads (clean_response reply) = Inl JSONDecodeError \<longrightarrow>
          rank_keywords call_llm loads n paragraph (JArr ks) = Inr (map (\<lambda>kw. (kw, JNull)) ks)
          \<and> rank_keywords_llm call_llm loads n paragraph (JArr ks) = Inr (map (\<lambda>kw. (kw, JNull)) ks))
     \<and> (\<forall>items. read_ranked loads reply = Inr items \<longleftrightarrow>
           (\<exists>kvs v objs. loads (clean_response reply) = Inr (JObj kvs)
              \<and> map_of kvs ''ranked_keywords'' = Some v \<and> iterate v = Inr objs
              \<and> list_all2 (\<lambda>ob it. subscript ob ''keyword'' = Inr (fst it)
                                  \<and> subscript ob ''relevance'' = Inr (snd it)) objs items))
     \<and> (\<forall>items. read_ranked loads reply = Inr items \<longrightarrow>
           rank_keywords call_llm loads n paragraph (JArr ks) = Inr items
           \<and> rank_keywords_llm call_llm loads n paragraph (JArr ks) = Inr items)
     \<and> (loads (clean_response reply) = Inr (JObj kvs)
          \<and> map_of kvs ''ranked_keywords'' = Some (JArr objs)
          \<and> list_all2 (\<lambda>ob it. subscript ob ''keyword'' = Inr (fst it)
                              \<and> subscript ob ''relevance'' = Inr (snd it)) objs items \<longrightarrow>
          rank_keywords call_llm loads n paragraph (JArr ks) = Inr items
          \<and> rank_keywords_llm call_llm loads n paragraph (JArr ks) = Inr items
          \<and> length items = length objs)"
  proof (intro conjI allI impI)
    show "\<exists>res. rank_keywords call_llm loads n paragraph (JArr ks) = Inr res" by (rule returns)
    show "length (map (\<lambda>kw. (kw, JNull)) ks) = length ks" by simp
    show "read_ranked loads reply = Inr items \<longleftrightarrow>
           (\<exists>kvs v objs. loads (clean_response reply) = Inr (JObj kvs)
              \<and> map_of kvs ''ranked_keywords'' = Some v \<and> iterate v = Inr objs
              \<and> list_all2 (\<lambda>ob it. subscript ob ''keyword'' = Inr (fst it)
                                  \<and> subscript ob ''relevance'' = Inr (snd it)) objs items)"
      for items by (rule read_ranked_Inr_iff)
  qed (use raised load_error missing fallback read parsed in blast)+
qed

lemma empty_ranking_parses:
  "sample_loads (clean_response (''{'' @ dq @ ''ranked_keywords'' @ dq @ '': []}''))
     = Inr (JObj [(''ranked_keywords'', JArr [])])"
  by code_simp

lemma empty_ranking_read:
  "read_ranked sample_loads (''{'' @ dq @ ''ranked_keywords'' @ dq @ '': []}'') = Inr []"
  unfolding read_ranked_def json_loads_def empty_ranking_parses
  by (simp add: subscript_def iterate_def)

lemma keywords_reply_parses:
  "json_loads sample_loads (clean_response keywords_reply)
     = Inr (JObj [(''keywords'', JArr [JStr ''alpha'']), (''summary'', JStr ''apples'')])"
  by code_simp

lemma keywords_reply_read: "read_ranked sample_loads keywords_reply = Inl KeyError"
  unfolding read_ranked_def keywords_reply_parses
  by (simp add: subscript_def)

text \<open>
  Claim C4, as stated, fails. For a response that parses to an empty ranking, the list
  returned for one keyword is empty, so it does not have the length of the keyword list.
  And for a response that is JSON of another shape, a dictionary without the key
  \<open>ranked_keywords\<close>, \<open>rank_keywords_llm\<close> raises \<open>KeyError\<close>, where
  \<open>LLMClient.rank_keywords\<close> returns the keywords with null scores.
\<close>

theorem rank_keywords_returns_llm_list:
  "rank_keywords empty_ranking_llm sample_loads 0 ''Alpha particles are helium nuclei.''
      (JArr [JStr ''alpha'']) = Inr []
   \<and> rank_keywords_llm empty_ranking_llm sample_loads 0 ''Alpha particles are helium nuclei.''
      (JArr [JStr ''alpha'']) = Inr []
   \<and> length ([] :: (json \<times> json) list) \<noteq> length [JStr ''alpha'']
   \<and> rank_keywords_llm keywords_llm sample_loads 0 ''Alpha particles are helium nuclei.''
      (JArr [JStr ''alpha'']) = Inl KeyError
   \<and> rank_keywords keywords_llm sample_loads 0 ''Alpha particles are helium nuclei.''
      (JArr [JStr ''alpha'']) = Inr [(JStr ''alpha'', JNull)]"
  unfolding rank_keywords_def rank_keywords_llm_def empty_ranking_llm_def keywords_llm_def
    ebind_Inr empty_ranking_read keywords_reply_read
  by (simp add: unranked_def iterate_def)

lemma alpha_ranking_parses:
  "sample_loads (clean_response (''```json'' @ nl @ ''{'' @ dq @ ''ranked_keywords'' @ dq @ '': [{'' @ dq @ ''keyword''
          @ dq @ '': '' @ dq @ ''alpha'' @ dq @ '', '' @ dq @ ''relevance'' @ dq @ '': 0.5}]}''
          @ nl @ ''```''))
     = Inr (JObj [(''ranked_keywords'',
                  JArr [JObj [(''keyword'', JStr ''alpha''), (''relevance'', JNum (1 / 2))]])])"
  by code_simp

theorem rank_keywords_fallback_and_length_witness:
  "prose_llm 0 (RankPrompt ''Alpha particles are helium nuclei.'' (JArr [JStr ''alpha'', JStr ''beta'']))
     = Inr ''Sure! Here are the keywords you asked for.''
   \<and> sample_loads (clean_response ''Sure! Here are the keywords you asked for.'') = Inl JSONDecodeError
   \<and> rank_keywords prose_llm sample_loads 0 ''Alpha particles are helium nuclei.''
        (JArr [JStr ''alpha'', JStr ''beta'']) = Inr [(JStr ''alpha'', JNull), (JStr ''beta'', JNull)]
   \<and> rank_keywords_llm prose_llm sample_loads 0 ''Alpha particles are helium nuclei.''
        (JArr [JStr ''alpha'', JStr ''beta'']) = Inr [(JStr ''alpha'', JNull), (JStr ''beta'', JNull)]
   \<and> rank_keywords_llm alpha_ranking_llm sample_loads 0 ''Alpha particles are helium nuclei.''
        (JArr [JStr ''alpha'', JStr ''beta'']) = Inr [(JStr ''alpha'', JNum (1 / 2))]
   \<and> keywords_llm 0 (RankPrompt ''Alpha particles are helium nuclei.'' (JArr [JStr ''alpha'', JStr ''beta'']))
     = Inr keywords_reply
   \<and> read_ranked sample_loads keywords_reply = Inl KeyError
   \<and> rank_keywords keywords_llm sample_loads 0 ''Alpha particles are helium nuclei.''
        (JArr [JStr ''alpha'', JStr ''beta'']) = Inr [(JStr ''alpha'', JNull), (JStr ''beta'', JNull)]
   \<and> rank_keywords_llm keywords_llm sample_loads 0 ''Alpha particles are helium nuclei.''
        (JArr [JStr ''alpha'', JStr ''beta'']) = Inl KeyError"
proof -
  have p: "prose_llm 0 (RankPrompt ''Alpha particles are helium nuclei.''
             (JArr [JStr ''alpha'', JStr ''beta'']))
           = Inr ''Sure! Here are the keywords you asked for.''"
    by (simp add: prose_llm_def)
  note f = rank_keywords_fallback_and_length [of prose_llm 0
      "''Alpha particles are helium nuclei.''" "[JStr ''alpha'', JStr ''beta'']"
      "''Sure! Here are the keywords you asked for.''" sample_loads]
  from f p prose_not_json
  have a: "rank_keywords prose_llm sample_loads 0 ''Alpha particles are helium nuclei.''
        (JArr [JStr ''alpha'', JStr ''beta'']) = Inr [(JStr ''alpha'', JNull), (JStr ''beta'', JNull)]"
    and b: "rank_keywords_llm prose_llm sample_loads 0 ''Alpha particles are helium nuclei.''
        (JArr [JStr ''alpha'', JStr ''beta'']) = Inr [(JStr ''alpha'', JNull), (JStr ''beta'', JNull)]"
    by simp_all
  have q: "alpha_ranking_llm 0 (RankPrompt ''Alpha particles are helium nuclei.''
             (JArr [JStr ''alpha'', JStr ''beta'']))
           = Inr (''```json'' @ nl @ ''{'' @ dq @ ''ranked_keywords'' @ dq @ '': [{'' @ dq @ ''keyword''
          @ dq @ '': '' @ dq @ ''alpha'' @ dq @ '', '' @ dq @ ''relevance'' @ dq @ '': 0.5}]}''
          @ nl @ ''```'')"
    unfolding alpha_ranking_llm_def by (rule refl)
  have m: "map_of [(''ranked_keywords'',
                  JArr [JObj [(''keyword'', JStr ''alpha''), (''relevance'', JNum (1 / 2))]])]
             ''ranked_keywords''
           = Some (JArr [JObj [(''keyword'', JStr ''alpha''), (''relevance'', JNum (1 / 2))]])"
    by simp
  have l: "list_all2 (\<lambda>ob it. subscript ob ''keyword'' = Inr (fst it)
                              \<and> subscript ob ''relevance'' = Inr (snd it))
             [JObj [(''keyword'', JStr ''alpha''), (''relevance'', JNum (1 / 2))]]
             [(JStr ''alpha'', JNum (1 / 2))]"
    by (simp add: subscript_def)
  from rank_keywords_fallback_and_length [of alpha_ranking_llm 0
      "''Alpha particles are helium nuclei.''" "[JStr ''alpha'', JStr ''beta'']" _ sample_loads
      "[(''ranked_keywords'',
          JArr [JObj [(''keyword'', JStr ''alpha''), (''relevance'', JNum (1 / 2))]])]"
      "[JObj [(''keyword'', JStr ''alpha''), (''relevance'', JNum (1 / 2))]]"
      "[(JStr ''alpha'', JNum (1 / 2))]"] q alpha_ranking_parses m l
  have c: "rank_keywords_llm alpha_ranking_llm sample_loads 0 ''Alpha particles are helium nuclei.''
        (JArr [JStr ''alpha'', JStr ''beta'']) = Inr [(JStr ''alpha'', JNum (1 / 2))]"
    by blast
  have k: "keywords_llm 0 (RankPrompt ''Alpha particles are helium nuclei.''
             (JArr [JStr ''alpha'', JStr ''beta''])) = Inr keywords_reply"
    by (simp add: keywords_llm_def)
  note g = rank_keywords_fallback_and_length [of keywords_llm 0
      "''Alpha particles are helium nuclei.''" "[JStr ''alpha'', JStr ''beta'']"
      keywords_reply sample_loads]
  from g k keywords_reply_read
  have d: "rank_keywords keywords_llm sample_loads 0 ''Alpha particles are helium nuclei.''
        (JArr [JStr ''alpha'', JStr ''beta'']) = Inr [(JStr ''alpha'', JNull), (JStr ''beta'', JNull)]"
    and e: "rank_keywords_llm keywords_llm sample_loads 0 ''Alpha particles are helium nuclei.''
        (JArr [JStr ''alpha'', JStr ''beta'']) = Inl KeyError"
    by simp_all
  from p prose_not_json a b c k keywords_reply_read d e show ?thesis by blast
qed

section \<open>Properties of the Pipeline Orchestrator\<close>

lemma rank_no_papers: "rank nm enc s [] k = Inr []"
  by (simp add: rank_def)

lemma paragraph_entry_trace:
  "paragraph_entry sv ex n k style idx para = Inr pr \<longleftrightarrow>
     (\<exists>kws ranked summary_value query found summary_text top_papers entries.
        lookup (fst ex) idx = Inr kws
        \<and> rank_keywords (sv_call_llm sv) (sv_loads sv) (n + idx) para kws = Inr ranked
        \<and> lookup_summary (snd ex) idx = Inr summary_value
        \<and> build_query_values ranked summary_value 5 = Inr query
        \<and> sv_search sv idx query = Inr found
        \<and> as_str summary_value = Inr summary_text
        \<and> rank (sv_numerics sv) (sv_encode sv) summary_text found k = Inr top_papers
        \<and> map_exn (paper_entry (sv_now sv) style) top_papers = Inr entries
        \<and> pr = \<lparr> res_paragraph = para, res_papers = entries \<rparr>)"
  unfolding paragraph_entry_def ebind_eq_Inr by blast

lemma paragraph_loop_trace:
  "paragraph_loop sv ex n k style idx paras = Inr res \<Longrightarrow>
   length res = length paras
   \<and> (\<forall>i < length paras. paragraph_entry sv ex n k style (idx + i) (paras ! i) = Inr (res ! i))"
proof (induction paras arbitrary: idx res)
  case Nil
  then show ?case by simp
next
  case (Cons para rest)
  from Cons.prems obtain pr results where
    pr: "paragraph_entry sv ex n k style idx para = Inr pr" and
    rs: "paragraph_loop sv ex n k style (Suc idx) rest = Inr results" and
    res: "res = pr # results"
    by (auto simp: ebind_eq_Inr)
  note ih = Cons.IH [OF rs]
  have "paragraph_entry sv ex n k style (idx + i) ((para # rest) ! i) = Inr (res ! i)"
    if i: "i < length (para # rest)" for i
  proof (cases i)
    case 0
    with pr res show ?thesis by simp
  next
    case (Suc j)
    with i ih res show ?thesis by simp
  qed
  with ih res show ?case by simp
qed

lemma map_exn_length: "map_exn f xs = Inr ys \<Longrightarrow> length ys = length xs"
  by (auto simp: map_exn_Inr_iff dest: list_all2_lengthD)

lemma citation_entry_text: "citation_entry now para p = Inr r \<Longrightarrow> row_matched_text r = para"
  unfolding citation_entry_def ebind_eq_Inr by auto

lemma citation_entries_text:
  assumes "map_exn (citation_entry now para) top_papers = Inr rows"
  shows "list_all (\<lambda>r. row_matched_text r = para) rows"
proof -
  from assms have "list_all2 (\<lambda>p r. citation_entry now para p = Inr r) top_papers rows"
    by (simp add: map_exn_Inr_iff)
  then have "\<forall>r \<in> set rows. row_matched_text r = para"
    using citation_entry_text [of now para]
    by (fastforce simp: list_all2_conv_all_nth in_set_conv_nth)
  then show ?thesis by (simp add: list_all_iff)
qed

lemma paragraph_rows_trace:
  "paragraph_rows sv ex n idx para = Inr rows \<longleftrightarrow>
     (\<exists>kws ranked summary_value query found summary_text top_papers.
        lookup (fst ex) idx = Inr kws
        \<and> rank_keywords_llm (sv_call_llm sv) (sv_loads sv) (n + idx) para kws = Inr ranked
        \<and> lookup_summary (snd ex) idx = Inr summary_value
        \<and> build_query_values ranked summary_value 5 = Inr query
        \<and> sv_search sv idx query = Inr found
        \<and> as_str summary_value = Inr summary_text
        \<and> rank (sv_numerics sv) (sv_encode sv) summary_text found 3 = Inr top_papers
        \<and> map_exn (citation_entry (sv_now sv) para) top_papers = Inr rows)"
  unfolding paragraph_rows_def ebind_eq_Inr by blast

lemma rows_loop_trace:
  "rows_loop sv ex n idx paras = Inr groups \<Longrightarrow>
   length groups = length paras
   \<and> (\<forall>i < length paras. paragraph_rows sv ex n (idx + i) (paras ! i) = Inr (groups ! i))"
proof (induction paras arbitrary: idx groups)
  case Nil
  then show ?case by simp
next
  case (Cons para rest)
  from Cons.prems obtain rows gs where
    rw: "paragraph_rows sv ex n idx para = Inr rows" and
    rs: "rows_loop sv ex n (Suc idx) rest = Inr gs" and
    g: "groups = rows # gs"
    by (auto simp: ebind_eq_Inr)
  note ih = Cons.IH [OF rs]
  have "paragraph_rows sv ex n (idx + i) ((para # rest) ! i) = Inr (groups ! i)"
    if i: "i < length (para # rest)" for i
  proof (cases i)
    case 0
    with rw g show ?thesis by simp
  next
    case (Suc j)
    with i ih g show ?thesis by simp
  qed
  with ih g show ?case by simp
qed

lemma pipeline_run_loop:
  assumes "pipeline_run sv paragraphs top_k export_type style = Inr res"
  shows "(ParagraphCleaner_clean (sv_sents sv) 10 paragraphs = [] \<and> res = [])
         \<or> (\<exists>ex. extract_keywords_and_summary_plain (sv_call_llm sv) (sv_loads sv)
                    (ParagraphCleaner_clean (sv_sents sv) 10 paragraphs) True = Inr ex
               \<and> paragraph_loop sv ex (length (ParagraphCleaner_clean (sv_sents sv) 10 paragraphs))
                    top_k style 0 (ParagraphCleaner_clean (sv_sents sv) 10 paragraphs) = Inr res)"
proof -
  define cleaned where "cleaned = ParagraphCleaner_clean (sv_sents sv) 10 paragraphs"
  show ?thesis
  proof (cases "paragraphs = [] \<or> cleaned = []")
    case True
    have c: "cleaned = []"
      using True by (auto simp: cleaned_def ParagraphCleaner_clean_def)
    from assms have "res = []"
      unfolding pipeline_run_def Let_def cleaned_def [symmetric] c by (simp split: if_splits)
    with c show ?thesis unfolding cleaned_def [symmetric] by simp
  next
    case False
    from assms False obtain ex where
      "extract_keywords_and_summary_plain (sv_call_llm sv) (sv_loads sv) cleaned True = Inr ex"
      "paragraph_loop sv ex (length cleaned) top_k style 0 cleaned = Inr res"
      unfolding pipeline_run_def Let_def cleaned_def [symmetric]
      by (auto simp: ebind_eq_Inr split: if_splits)
    then show ?thesis unfolding cleaned_def [symmetric] by blast
  qed
qed

lemma pipeline_run_rows_loop:
  assumes "pipeline_run_rows sv paragraphs = Inr rows"
  shows "(ParagraphCleaner_clean (sv_sents sv) 10 paragraphs = [] \<and> rows = [])
         \<or> (\<exists>ex groups. extract_keywords_and_summary_plain (sv_call_llm sv) (sv_loads sv)
                    (ParagraphCleaner_clean (sv_sents sv) 10 paragraphs) True = Inr ex
               \<and> rows_loop sv ex (length (ParagraphCleaner_clean (sv_sents sv) 10 paragraphs))
                    0 (ParagraphCleaner_clean (sv_sents sv) 10 paragraphs) = Inr groups
               \<and> rows = concat groups)"
proof -
  define cleaned where "cleaned = ParagraphCleaner_clean (sv_sents sv) 10 paragraphs"
  show ?thesis
  proof (cases "cleaned = []")
    case True
    from assms have "rows = []"
      unfolding pipeline_run_rows_def Let_def cleaned_def [symmetric] True by simp
    with True show ?thesis unfolding cleaned_def [symmetric] by simp
  next
    case False
    from assms False obtain ex groups where
      "extract_keywords_and_summary_plain (sv_call_llm sv) (sv_loads sv) cleaned True = Inr ex"
      "rows_loop sv ex (length cleaned) 0 cleaned = Inr groups" "rows = concat groups"
      unfolding pipeline_run_rows_def Let_def cleaned_def [symmetric]
      by (auto simp: ebind_eq_Inr)
    then show ?thesis unfolding cleaned_def [symmetric] by blast
  qed
qed

lemma paragraph_loop_entries:
  assumes "paragraph_loop sv ex n k style 0 paras = Inr res"
  shows "map res_paragraph res = paras"
    and "\<forall>i < length res. \<exists>kws ranked summary_value query found summary_text top_papers.
           lookup (fst ex) i = Inr kws
           \<and> rank_keywords (sv_call_llm sv) (sv_loads sv) (n + i) (paras ! i) kws = Inr ranked
           \<and> lookup_summary (snd ex) i = Inr summary_value
           \<and> build_query_values ranked summary_value 5 = Inr query
           \<and> sv_search sv i query = Inr found
           \<and> as_str summary_value = Inr summary_text
           \<and> rank (sv_numerics sv) (sv_encode sv) summary_text found k = Inr top_papers
           \<and> map_exn (paper_entry (sv_now sv) style) top_papers = Inr (res_papers (res ! i))
           \<and> length (res_papers (res ! i)) = length top_papers
           \<and> res_paragraph (res ! i) = paras ! i
           \<and> (found = [] \<longrightarrow> res_papers (res ! i) = [])"
proof -
  note tr = paragraph_loop_trace [OF assms]
  have en: "paragraph_entry sv ex n k style i (paras ! i) = Inr (res ! i)" if "i < length res" for i
    using tr that by simp
  have "res_paragraph (res ! i) = paras ! i" if "i < length res" for i
    using en [OF that] unfolding paragraph_entry_trace by auto
  then show "map res_paragraph res = paras"
    using tr by (auto simp: list_eq_iff_nth_eq)
  show "\<forall>i < length res. \<exists>kws ranked summary_value query found summary_text top_papers.
           lookup (fst ex) i = Inr kws
           \<and> rank_keywords (sv_call_llm sv) (sv_loads sv) (n + i) (paras ! i) kws = Inr ranked
           \<and> lookup_summary (snd ex) i = Inr summary_value
           \<and> build_query_values ranked summary_value 5 = Inr query
           \<and> sv_search sv i query = Inr found
           \<and> as_str summary_value = Inr summary_text
           \<and> rank (sv_numerics sv) (sv_encode sv) summary_text found k = Inr top_papers
           \<and> map_exn (paper_entry (sv_now sv) style) top_papers = Inr (res_papers (res ! i))
           \<and> length (res_papers (res ! i)) = length top_papers
           \<and> res_paragraph (res ! i) = paras ! i
           \<and> (found = [] \<longrightarrow> res_papers (res ! i) = [])"
  proof (intro allI impI)
    fix i assume "i < length res"
    from en [OF this] obtain kws ranked summary_value query found summary_text top_papers entries
      where t: "lookup (fst ex) i = Inr kws"
        "rank_keywords (sv_call_llm sv) (sv_loads sv) (n + i) (paras ! i) kws = Inr ranked"
        "lookup_summary (snd ex) i = Inr summary_value"
        "build_query_values ranked summary_value 5 = Inr query"
        "sv_search sv i query = Inr found"
        "as_str summary_value = Inr summary_text"
        "rank (sv_numerics sv) (sv_encode sv) summary_text found k = Inr top_papers"
        "map_exn (paper_entry (sv_now sv) style) top_papers = Inr entries"
        "res ! i = \<lparr> res_paragraph = paras ! i, res_papers = entries \<rparr>"
      unfolding paragraph_entry_trace by blast
    have e: "res_papers (res ! i) = entries" "res_paragraph (res ! i) = paras ! i"
      using t(9) by simp_all
    have l: "length entries = length top_papers" using t(8) by (rule map_exn_length)
    have z: "entries = []" if "found = []"
      using that t(7) l by (simp add: rank_no_papers)
    from t(1-8) e l z
    show "\<exists>kws ranked summary_value query found summary_text top_papers.
           lookup (fst ex) i = Inr kws
           \<and> rank_keywords (sv_call_llm sv) (sv_loads sv) (n + i) (paras ! i) kws = Inr ranked
           \<and> lookup_summary (snd ex) i = Inr summary_value
           \<and> build_query_values ranked summary_value 5 = Inr query
           \<and> sv_search sv i query = Inr found
           \<and> as_str summary_value = Inr summary_text
           \<and> rank (sv_numerics sv) (sv_encode sv) summary_text found k = Inr top_papers
           \<and> map_exn (paper_entry (sv_now sv) style) top_papers = Inr (res_papers (res ! i))
           \<and> length (res_papers (res ! i)) = length top_papers
           \<and> res_paragraph (res ! i) = paras ! i
           \<and> (found = [] \<longrightarrow> res_papers (res ! i) = [])"
      by (intro exI [of _ kws] exI [of _ ranked] exI [of _ summary_value] exI [of _ query]
          exI [of _ found] exI [of _ summary_text] exI [of _ top_papers]) simp
  qed
qed

lemma rows_loop_entries:
  assumes "rows_loop sv ex n 0 paras = Inr groups"
  shows "length groups = length paras"
    and "\<forall>i < length groups. \<exists>kws ranked summary_value query found summary_text top_papers.
           lookup (fst ex) i = Inr kws
           \<and> rank_keywords_llm (sv_call_llm sv) (sv_loads sv) (n + i) (paras ! i) kws = Inr ranked
           \<and> lookup_summary (snd ex) i = Inr summary_value
           \<and> build_query_values ranked summary_value 5 = Inr query
           \<and> sv_search sv i query = Inr found
           \<and> as_str summary_value = Inr summary_text
           \<and> rank (sv_numerics sv) (sv_encode sv) summary_text found 3 = Inr top_papers
           \<and> map_exn (citation_entry (sv_now sv) (paras ! i)) top_papers = Inr (groups ! i)
           \<and> length (groups ! i) = length top_papers
           \<and> list_all (\<lambda>r. row_matched_text r = paras ! i) (groups ! i)
           \<and> (found = [] \<longrightarrow> groups ! i = [])"
proof -
  note tr = rows_loop_trace [OF assms]
  then show "length groups = length paras" by simp
  show "\<forall>i < length groups. \<exists>kws ranked summary_value query found summary_text top_papers.
           lookup (fst ex) i = Inr kws
           \<and> rank_keywords_llm (sv_call_llm sv) (sv_loads sv) (n + i) (paras ! i) kws = Inr ranked
           \<and> lookup_summary (snd ex) i = Inr summary_value
           \<and> build_query_values ranked summary_value 5 = Inr query
           \<and> sv_search sv i query = Inr found
           \<and> as_str summary_value = Inr summary_text
           \<and> rank (sv_numerics sv) (sv_encode sv) summary_text found 3 = Inr top_papers
           \<and> map_exn (citation_entry (sv_now sv) (paras ! i)) top_papers = Inr (groups ! i)
           \<and> length (groups ! i) = length top_papers
           \<and> list_all (\<lambda>r. row_matched_text r = paras ! i) (groups ! i)
           \<and> (found = [] \<longrightarrow> groups ! i = [])"
  proof (intro allI impI)
    fix i assume "i < length groups"
    with tr have "paragraph_rows sv ex n i (paras ! i) = Inr (groups ! i)" by simp
    then obtain kws ranked summary_value query found summary_text top_papers
      where t: "lookup (fst ex) i = Inr kws"
        "rank_keywords_llm (sv_call_llm sv) (sv_loads sv) (n + i) (paras ! i) kws = Inr ranked"
        "lookup_summary (snd ex) i = Inr summary_value"
        "build_query_values ranked summary_value 5 = Inr query"
        "sv_search sv i query = Inr found"
        "as_str summary_value = Inr summary_text"
        "rank (sv_numerics sv) (sv_encode sv) summary_text found 3 = Inr top_papers"
        "map_exn (citation_entry (sv_now sv) (paras ! i)) top_papers = Inr (groups ! i)"
      unfolding paragraph_rows_trace by blast
    have l: "length (groups ! i) = length top_papers" using t(8) by (rule map_exn_length)
    have m: "list_all (\<lambda>r. row_matched_text r = paras ! i) (groups ! i)"
      using t(8) by (rule citation_entries_text)
    have z: "groups ! i = []" if "found = []"
      using that t(7) l by (simp add: rank_no_papers)
    from t l m z
    show "\<exists>kws ranked summary_value query found summary_text top_papers.
           lookup (fst ex) i = Inr kws
           \<and> rank_keywords_llm (sv_call_llm sv) (sv_loads sv) (n + i) (paras ! i) kws = Inr ranked
           \<and> lookup_summary (snd ex) i = Inr summary_value
           \<and> build_query_values ranked summary_value 5 = Inr query
           \<and> sv_search sv i query = Inr found
           \<and> as_str summary_value = Inr summary_text
           \<and> rank (sv_numerics sv) (sv_encode sv) summary_text found 3 = Inr top_papers
           \<and> map_exn (citation_entry (sv_now sv) (paras ! i)) top_papers = Inr (groups ! i)
           \<and> length (groups ! i) = length top_papers
           \<and> list_all (\<lambda>r. row_matched_text r = paras ! i) (groups ! i)
           \<and> (found = [] \<longrightarrow> groups ! i = [])"
      by (intro exI [of _ kws] exI [of _ ranked] exI [of _ summary_value] exI [of _ query]
          exI [of _ found] exI [of _ summary_text] exI [of _ top_papers]) simp
  qed
qed

text \<open>
  Claim C8, amended. Whenever \<open>pipeline_run\<close> of ver5_Main_webUI_error_msg returns, its
  result list has one entry per cleaned paragraph, in the order of the document; the
  entry of a paragraph holds the text of the paragraph and one entry per paper that the
  Semantic Ranker returned for the papers found by the search for the query built from
  that paragraph's ranked keywords and summary; when that search finds no paper, the
  paragraph has its entry, with its text and an empty list of papers. \<open>pipeline_run\<close> of
  Doc-Scraper/webUI returns one entry per ranked paper: the entries of each cleaned
  paragraph stand together, in the order of the paragraphs, each with its paragraph as
  \<open>matched_text\<close>, and a paragraph whose search finds no paper has no entry.
\<close>

theorem pipelines_keep_paragraph_order:
  "(pipeline_run sv paragraphs top_k export_type style = Inr res \<longrightarrow>
      map res_paragraph res = clean_default sv paragraphs
      \<and> length res = length (clean_default sv paragraphs)
      \<and> (\<forall>i < length res.
            \<exists>ex kws ranked summary_value query found summary_text top_papers.
              extract_keywords_and_summary_plain (sv_call_llm sv) (sv_loads sv)
                 (clean_default sv paragraphs) True = Inr ex
              \<and> lookup (fst ex) i = Inr kws
              \<and> rank_keywords (sv_call_llm sv) (sv_loads sv)
                   (length (clean_default sv paragraphs) + i) (clean_default sv paragraphs ! i) kws
                  = Inr ranked
              \<and> lookup_summary (snd ex) i = Inr summary_value
              \<and> build_query_values ranked summary_value 5 = Inr query
              \<and> sv_search sv i query = Inr found
              \<and> as_str summary_value = Inr summary_text
              \<and> rank (sv_numerics sv) (sv_encode sv) summary_text found top_k = Inr top_papers
              \<and> map_exn (paper_entry (sv_now sv) style) top_papers = Inr (res_papers (res ! i))
              \<and> length (res_papers (res ! i)) = length top_papers
              \<and> res_paragraph (res ! i) = clean_default sv paragraphs ! i
              \<and> (found = [] \<longrightarrow> res_papers (res ! i) = [])))
   \<and> (pipeline_run_rows sv paragraphs = Inr rows \<longrightarrow>
      (\<exists>groups. rows = concat groups
         \<and> length groups = length (clean_default sv paragraphs)
         \<and> (\<forall>i < length groups.
               \<exists>ex kws ranked summary_value query found summary_text top_papers.
                 extract_keywords_and_summary_plain (sv_call_llm sv) (sv_loads sv)
                    (clean_default sv paragraphs) True = Inr ex
                 \<and> lookup (fst ex) i = Inr kws
                 \<and> rank_keywords_llm (sv_call_llm sv) (sv_loads sv)
                      (length (clean_default sv paragraphs) + i) (clean_default sv paragraphs ! i) kws
                     = Inr ranked
                 \<and> lookup_summary (snd ex) i = Inr summary_value
                 \<and> build_query_values ranked summary_value 5 = Inr query
                 \<and> sv_search sv i query = Inr found
                 \<and> as_str summary_value = Inr summary_text
                 \<and> rank (sv_numerics sv) (sv_encode sv) summary_text found 3 = Inr top_papers
                 \<and> map_exn (citation_entry (sv_now sv) (clean_default sv paragraphs ! i)) top_papers
                     = Inr (groups ! i)
                 \<and> length (groups ! i) = length top_papers
                 \<and> list_all (\<lambda>r. row_matched_text r = clean_default sv paragraphs ! i) (groups ! i)
                 \<and> (found = [] \<longrightarrow> groups ! i = []))))"
proof (intro conjI impI)
  assume run: "pipeline_run sv paragraphs top_k export_type style = Inr res"
  from pipeline_run_loop [OF run]
  have "map res_paragraph res = clean_default sv paragraphs
      \<and> (\<forall>i < length res.
            \<exists>ex kws ranked summary_value query found summary_text top_papers.
              extract_keywords_and_summary_plain (sv_call_llm sv) (sv_loads sv)
                 (clean_default sv paragraphs) True = Inr ex
              \<and> lookup (fst ex) i = Inr kws
              \<and> rank_keywords (sv_call_llm sv) (sv_loads sv)
                   (length (clean_default sv paragraphs) + i) (clean_default sv paragraphs ! i) kws
                  = Inr ranked
              \<and> lookup_summary (snd ex) i = Inr summary_value
              \<and> build_query_values ranked summary_value 5 = Inr query
              \<and> sv_search sv i query = Inr found
              \<and> as_str summary_value = Inr summary_text
              \<and> rank (sv_numerics sv) (sv_encode sv) summary_text found top_k = Inr top_papers
              \<and> map_exn (paper_entry (sv_now sv) style) top_papers = Inr (res_papers (res ! i))
              \<and> length (res_papers (res ! i)) = length top_papers
              \<and> res_paragraph (res ! i) = clean_default sv paragraphs ! i
              \<and> (found = [] \<longrightarrow> res_papers (res ! i) = []))"
  proof
    assume "clean_default sv paragraphs = [] \<and> res = []"
    then show ?thesis by simp
  next
    assume "\<exists>ex. extract_keywords_and_summary_plain (sv_call_llm sv) (sv_loads sv)
                    (clean_default sv paragraphs) True = Inr ex
               \<and> paragraph_loop sv ex (length (clean_default sv paragraphs))
                    top_k style 0 (clean_default sv paragraphs) = Inr res"
    then obtain ex where
      ex: "extract_keywords_and_summary_plain (sv_call_llm sv) (sv_loads sv)
                    (clean_default sv paragraphs) True = Inr ex" and
      lp: "paragraph_loop sv ex (length (clean_default sv paragraphs))
                    top_k style 0 (clean_default sv paragraphs) = Inr res"
      by blast
    from paragraph_loop_entries [OF lp] ex show ?thesis by blast
  qed
  then show "map res_paragraph res = clean_default sv paragraphs"
    and "\<forall>i < length res.
            \<exists>ex kws ranked summary_value query found summary_text top_papers.
              extract_keywords_and_summary_plain (sv_call_llm sv) (sv_loads sv)
                 (clean_default sv paragraphs) True = Inr ex
              \<and> lookup (fst ex) i = Inr kws
              \<and> rank_keywords (sv_call_llm sv) (sv_loads sv)
                   (length (clean_default sv paragraphs) + i) (clean_default sv paragraphs ! i) kws
                  = Inr ranked
              \<and> lookup_summary (snd ex) i = Inr summary_value
              \<and> build_query_values ranked summary_value 5 = Inr query
              \<and> sv_search sv i query = Inr found
              \<and> as_str summary_value = Inr summary_text
              \<and> rank (sv_numerics sv) (sv_encode sv) summary_text found top_k = Inr top_papers
              \<and> map_exn (paper_entry (sv_now sv) style) top_papers = Inr (res_papers (res ! i))
              \<and> length (res_papers (res ! i)) = length top_papers
              \<and> res_paragraph (res ! i) = clean_default sv paragraphs ! i
              \<and> (found = [] \<longrightarrow> res_papers (res ! i) = [])"
    by blast+
  then have "length (map res_paragraph res) = length (clean_default sv paragraphs)"
    by (simp only:)
  then show "length res = length (clean_default sv paragraphs)"
    by (simp only: length_map)
next
  assume run: "pipeline_run_rows sv paragraphs = Inr rows"
  from pipeline_run_rows_loop [OF run]
  show "\<exists>groups. rows = concat groups
         \<and> length groups = length (clean_default sv paragraphs)
         \<and> (\<forall>i < length groups.
               \<exists>ex kws ranked summary_value query found summary_text top_papers.
                 extract_keywords_and_summary_plain (sv_call_llm sv) (sv_loads sv)
                    (clean_default sv paragraphs) True = Inr ex
                 \<and> lookup (fst ex) i = Inr kws
                 \<and> rank_keywords_llm (sv_call_llm sv) (sv_loads sv)
                      (length (clean_default sv paragraphs) + i) (clean_default sv paragraphs ! i) kws
                     = Inr ranked
                 \<and> lookup_summary (snd ex) i = Inr summary_value
                 \<and> build_query_values ranked summary_value 5 = Inr query
                 \<and> sv_search sv i query = Inr found
                 \<and> as_str summary_value = Inr summary_text
                 \<and> rank (sv_numerics sv) (sv_encode sv) summary_text found 3 = Inr top_papers
                 \<and> map_exn (citation_entry (sv_now sv) (clean_default sv paragraphs ! i)) top_papers
                     = Inr (groups ! i)
                 \<and> length (groups ! i) = length top_papers
                 \<and> list_all (\<lambda>r. row_matched_text r = clean_default sv paragraphs ! i) (groups ! i)
                 \<and> (found = [] \<longrightarrow> groups ! i = []))"
  proof
    assume "clean_default sv paragraphs = [] \<and> rows = []"
    then show ?thesis by (intro exI [of _ "[]"]) simp
  next
    assume "\<exists>ex groups. extract_keywords_and_summary_plain (sv_call_llm sv) (sv_loads sv)
                    (clean_default sv paragraphs) True = Inr ex
               \<and> rows_loop sv ex (length (clean_default sv paragraphs))
                    0 (clean_default sv paragraphs) = Inr groups
               \<and> rows = concat groups"
    then obtain ex groups where
      ex: "extract_keywords_and_summary_plain (sv_call_llm sv) (sv_loads sv)
                    (clean_default sv paragraphs) True = Inr ex" and
      lp: "rows_loop sv ex (length (clean_default sv paragraphs))
                    0 (clean_default sv paragraphs) = Inr groups" and
      c: "rows = concat groups"
      by blast
    from rows_loop_entries [OF lp] ex c show ?thesis
      by (intro exI [of _ groups]) blast
  qed
qed

lemma sample_clean_one:
  "ParagraphCleaner_clean (cut_at_stops []) 10 [alpha_paragraph] = [alpha_paragraph]"
  by code_simp

lemma sample_clean_two:
  "ParagraphCleaner_clean (cut_at_stops []) 10 [alpha_paragraph, apple_paragraph]
     = [alpha_paragraph, apple_paragraph]"
  by code_simp

lemma ranking_reply_read:
  "read_ranked sample_loads ranking_reply = Inr [(JStr ''alpha'', JNum (1 / 2))]"
proof -
  have "json_loads sample_loads (clean_response ranking_reply)
     = Inr (JObj [(''ranked_keywords'',
                  JArr [JObj [(''keyword'', JStr ''alpha''), (''relevance'', JNum (1 / 2))]])])"
    unfolding ranking_reply_def json_loads_def alpha_ranking_parses by simp
  then show ?thesis
    unfolding read_ranked_def by (simp add: subscript_def iterate_def)
qed

lemma sample_extract_one:
  "extract_one_plain sample_llm sample_loads True idx para st
     = Inr (set_summary idx (JStr ''apples'') (set_keywords idx (JArr [JStr ''alpha'']) st))"
  unfolding extract_one_plain_def
  by (simp add: sample_llm_def keywords_reply_parses store_parsed_def dict_get_def)

lemma sample_rank_keywords:
  "rank_keywords sample_llm sample_loads n para kws = Inr [(JStr ''alpha'', JNum (1 / 2))]"
  "rank_keywords_llm sample_llm sample_loads n para kws = Inr [(JStr ''alpha'', JNum (1 / 2))]"
  by (simp_all add: rank_keywords_def rank_keywords_llm_def sample_llm_def ranking_reply_read)

lemma sample_query:
  "build_query_values [(JStr ''alpha'', JNum (1 / 2))] (JStr ''apples'') 5
     = Inr (join_query [''alpha''] ''apples'')"
  by (simp add: build_query_values_def py_take_def as_str_def)

lemma sample_rows_one:
  "pipeline_run_rows sample_services [alpha_paragraph] = Inr []"
  unfolding pipeline_run_rows_def
  by (simp add: sample_services_def sample_clean_one extract_keywords_and_summary_plain_def
      sample_extract_one set_summary_def set_keywords_def paragraph_rows_def lookup_def
      lookup_summary_def sample_rank_keywords sample_query sample_search_def as_str_def
      rank_no_papers)

lemma lovelace_parts: "name_parts ''Ada Lovelace'' = Inr (''Lovelace'', CHR ''A'')"
  by code_simp

lemma sample_harvard:
  "harvard fixed_clock ((paper_with_abstract t)\<lparr>relevance := Some r\<rparr>)
     = Inr (''Lovelace, A. (1843) '' @ sq @ t @ sq
         @ '', arXiv. Available at: http://arxiv.org/abs/2 (Accessed: 03 Nov 2026).'')"
  by (simp add: harvard_def paper_with_abstract_def get_def lovelace_parts fixed_clock_def)

lemma sample_fields:
  "need (title (paper_with_abstract t)) = Inr t"
  "need (authors (paper_with_abstract t)) = Inr [''Ada Lovelace'']"
  "need (year (paper_with_abstract t)) = Inr ''1843''"
  "need (link (paper_with_abstract t)) = Inr ''http://arxiv.org/abs/2''"
  "need (Some r) = Inr r"
  by (simp_all add: need_def paper_with_abstract_def)

lemma sample_paper_entry:
  "paper_entry fixed_clock ''harvard'' ((paper_with_abstract t)\<lparr>relevance := Some r\<rparr>)
     = Inr (ranked_entry t r)"
  unfolding paper_entry_def
  by (simp add: format_def sample_harvard ranked_entry_def sample_fields)

lemma sample_citation_entry:
  "citation_entry fixed_clock para ((paper_with_abstract t)\<lparr>relevance := Some r\<rparr>)
     = Inr (ranked_row t r para)"
  unfolding citation_entry_def format_harvard_eq_harvard
  by (simp add: sample_harvard ranked_row_def sample_fields)

lemma sample_extract_two:
  "extract_keywords_and_summary_plain sample_llm sample_loads [alpha_paragraph, apple_paragraph] True
     = Inr ([0 \<mapsto> JArr [JStr ''alpha''], Suc 0 \<mapsto> JArr [JStr ''alpha'']],
            Some [0 \<mapsto> JStr ''apples'', Suc 0 \<mapsto> JStr ''apples''])"
  by (simp add: extract_keywords_and_summary_plain_def sample_extract_one set_summary_def
      set_keywords_def)

lemma sample_entry_0:
  "paragraph_entry sample_services
      ([0 \<mapsto> JArr [JStr ''alpha''], Suc 0 \<mapsto> JArr [JStr ''alpha'']],
       Some [0 \<mapsto> JStr ''apples'', Suc 0 \<mapsto> JStr ''apples'']) n 3 ''harvard'' 0 para
     = Inr \<lparr> res_paragraph = para, res_papers = [] \<rparr>"
  unfolding paragraph_entry_def
  by (simp add: sample_services_def lookup_def lookup_summary_def sample_rank_keywords
      sample_query sample_search_def as_str_def rank_no_papers)

lemma sample_entry_1:
  "paragraph_entry sample_services
      ([0 \<mapsto> JArr [JStr ''alpha''], Suc 0 \<mapsto> JArr [JStr ''alpha'']],
       Some [0 \<mapsto> JStr ''apples'', Suc 0 \<mapsto> JStr ''apples'']) n 3 ''harvard'' (Suc 0) para
     = Inr \<lparr> res_paragraph = para,
             res_papers = [ranked_entry ''cats'' (Fin 100), ranked_entry ''ants'' (Fin 100),
                           ranked_entry ''bees'' (Fin 0)] \<rparr>"
  unfolding paragraph_entry_def
  by (simp add: sample_services_def lookup_def lookup_summary_def sample_rank_keywords
      sample_query sample_search_def as_str_def rank_example(1) sample_paper_entry)

lemma sample_run:
  "pipeline_run sample_services [alpha_paragraph, apple_paragraph] 3 None ''harvard''
     = Inr sample_results"
proof -
  have c: "ParagraphCleaner_clean (sv_sents sample_services) 10 [alpha_paragraph, apple_paragraph]
     = [alpha_paragraph, apple_paragraph]"
    using sample_clean_two by (simp add: sample_services_def)
  have e: "extract_keywords_and_summary_plain (sv_call_llm sample_services)
             (sv_loads sample_services) [alpha_paragraph, apple_paragraph] True
     = Inr ([0 \<mapsto> JArr [JStr ''alpha''], Suc 0 \<mapsto> JArr [JStr ''alpha'']],
            Some [0 \<mapsto> JStr ''apples'', Suc 0 \<mapsto> JStr ''apples''])"
    using sample_extract_two by (simp add: sample_services_def)
  have u: "[0 ..< length [alpha_paragraph, apple_paragraph]] = [0, Suc 0]"
    by (simp add: upt_rec)
  show ?thesis
    unfolding pipeline_run_def Let_def c e u
    by (simp add: lookup_def py_len_def sample_entry_0 sample_entry_1 check_export_def
        sample_results_def)
qed

lemma sample_rows_0:
  "paragraph_rows sample_services
      ([0 \<mapsto> JArr [JStr ''alpha''], Suc 0 \<mapsto> JArr [JStr ''alpha'']],
       Some [0 \<mapsto> JStr ''apples'', Suc 0 \<mapsto> JStr ''apples'']) n 0 para = Inr []"
  unfolding paragraph_rows_def
  by (simp add: sample_services_def lookup_def lookup_summary_def sample_rank_keywords
      sample_query sample_search_def as_str_def rank_no_papers)

lemma sample_rows_1:
  "paragraph_rows sample_services
      ([0 \<mapsto> JArr [JStr ''alpha''], Suc 0 \<mapsto> JArr [JStr ''alpha'']],
       Some [0 \<mapsto> JStr ''apples'', Suc 0 \<mapsto> JStr ''apples'']) n (Suc 0) para
     = Inr [ranked_row ''cats'' (Fin 100) para, ranked_row ''ants'' (Fin 100) para,
            ranked_row ''bees'' (Fin 0) para]"
  unfolding paragraph_rows_def
  by (simp add: sample_services_def lookup_def lookup_summary_def sample_rank_keywords
      sample_query sample_search_def as_str_def rank_example(1) sample_citation_entry)

lemma sample_run_rows:
  "pipeline_run_rows sample_services [alpha_paragraph, apple_paragraph] = Inr sample_rows"
proof -
  have c: "ParagraphCleaner_clean (sv_sents sample_services) 10 [alpha_paragraph, apple_paragraph]
     = [alpha_paragraph, apple_paragraph]"
    using sample_clean_two by (simp add: sample_services_def)
  have e: "extract_keywords_and_summary_plain (sv_call_llm sample_services)
             (sv_loads sample_services) [alpha_paragraph, apple_paragraph] True
     = Inr ([0 \<mapsto> JArr [JStr ''alpha''], Suc 0 \<mapsto> JArr [JStr ''alpha'']],
            Some [0 \<mapsto> JStr ''apples'', Suc 0 \<mapsto> JStr ''apples''])"
    using sample_extract_two by (simp add: sample_services_def)
  show ?thesis
    unfolding pipeline_run_rows_def Let_def c e
    by (simp add: sample_rows_0 sample_rows_1 sample_rows_def)
qed

lemma prose_extract_one:
  "extract_one_plain prose_llm sample_loads True idx para st
     = Inr (set_summary idx (JStr []) (set_keywords idx (JArr []) st))"
  unfolding extract_one_plain_def
  by (simp add: prose_llm_def json_loads_def prose_not_json)

lemma prose_run:
  "pipeline_run prose_services [alpha_paragraph] 3 None ''harvard'' = Inl RuntimeError"
proof -
  have c: "clean_default prose_services [alpha_paragraph] = [alpha_paragraph]"
    using sample_clean_one by (simp add: prose_services_def sample_services_def)
  have e: "extract_keywords_and_summary_plain (sv_call_llm prose_services)
             (sv_loads prose_services) [alpha_paragraph] True
     = Inr ([0 \<mapsto> JArr []], Some [0 \<mapsto> JStr []])"
    by (simp add: prose_services_def sample_services_def extract_keywords_and_summary_plain_def
        prose_extract_one set_summary_def set_keywords_def)
  have u: "[0 ..< length [alpha_paragraph]] = [0]"
    by simp
  show ?thesis
    unfolding pipeline_run_def Let_def c e u
    by (simp add: lookup_def py_len_def)
qed

text \<open>
  Claim C8, as stated, fails. For \<open>pipeline_run\<close> of Doc-Scraper/webUI and a document with
  one cleaned paragraph whose search finds no paper, the result list is empty, so the
  paragraph has no entry in it. And \<open>pipeline_run\<close> of ver5_Main_webUI_error_msg returns
  no result list for a document whose paragraphs all get an empty keyword list from the
  endpoint: it raises \<open>RuntimeError\<close>.
\<close>

theorem flat_pipeline_drops_paragraph_without_papers:
  "clean_default sample_services [alpha_paragraph] = [alpha_paragraph]
   \<and> sv_search sample_services 0 (join_query [''alpha''] ''apples'') = Inr []
   \<and> pipeline_run_rows sample_services [alpha_paragraph] = Inr []
   \<and> length ([] :: citation_row list) \<noteq> length [alpha_paragraph]
   \<and> clean_default prose_services [alpha_paragraph] = [alpha_paragraph]
   \<and> pipeline_run prose_services [alpha_paragraph] 3 None ''harvard'' = Inl RuntimeError"
  using sample_clean_one sample_rows_one prose_run
  by (simp add: prose_services_def sample_services_def sample_search_def)

theorem pipelines_keep_paragraph_order_witness:
  "pipeline_run sample_services [alpha_paragraph, apple_paragraph] 3 None ''harvard''
     = Inr sample_results
   \<and> pipeline_run_rows sample_services [alpha_paragraph, apple_paragraph] = Inr sample_rows
   \<and> map res_paragraph sample_results
       = clean_default sample_services [alpha_paragraph, apple_paragraph]
   \<and> map res_paragraph sample_results = [alpha_paragraph, apple_paragraph]
   \<and> length sample_results = 2
   \<and> (\<forall>q. sv_search sample_services 0 q = Inr [])
   \<and> res_papers (sample_results ! 0) = []
   \<and> (\<exists>groups. sample_rows = concat groups \<and> length groups = 2 \<and> groups ! 0 = [])"
proof -
  note t = pipelines_keep_paragraph_order [of sample_services
      "[alpha_paragraph, apple_paragraph]" 3 None "''harvard''" sample_results sample_rows]
  note t1 = mp [OF conjunct1 [OF t] sample_run]
  note t2 = mp [OF conjunct2 [OF t] sample_run_rows]
  have q: "\<forall>q. sv_search sample_services 0 q = Inr []"
    by (simp add: sample_services_def sample_search_def)
  have c: "clean_default sample_services [alpha_paragraph, apple_paragraph]
     = [alpha_paragraph, apple_paragraph]"
    using sample_clean_two by (simp add: sample_services_def)
  have m: "map res_paragraph sample_results
       = clean_default sample_services [alpha_paragraph, apple_paragraph]"
    by (rule conjunct1 [OF t1])
  have l: "length sample_results
       = length (clean_default sample_services [alpha_paragraph, apple_paragraph])"
    by (rule conjunct1 [OF conjunct2 [OF t1]])
  then have l2: "length sample_results = 2" unfolding c by simp
  then have z: "0 < length sample_results" by simp
  from conjunct2 [OF conjunct2 [OF t1], rule_format, OF z]
  obtain query found where "sv_search sample_services 0 query = Inr found"
    "found = [] \<longrightarrow> res_papers (sample_results ! 0) = []"
    by blast
  with q have e: "res_papers (sample_results ! 0) = []" by simp
  from t2 obtain groups where g: "sample_rows = concat groups"
    "length groups = length (clean_default sample_services [alpha_paragraph, apple_paragraph])"
    and a: "\<forall>i < length groups.
               \<exists>ex kws ranked summary_value query found summary_text top_papers.
                 extract_keywords_and_summary_plain (sv_call_llm sample_services)
                    (sv_loads sample_services)
                    (clean_default sample_services [alpha_paragraph, apple_paragraph]) True = Inr ex
                 \<and> lookup (fst ex) i = Inr kws
                 \<and> rank_keywords_llm (sv_call_llm sample_services) (sv_loads sample_services)
                      (length (clean_default sample_services [alpha_paragraph, apple_paragraph]) + i)
                      (clean_default sample_services [alpha_paragraph, apple_paragraph] ! i) kws
                     = Inr ranked
                 \<and> lookup_summary (snd ex) i = Inr summary_value
                 \<and> build_query_values ranked summary_value 5 = Inr query
                 \<and> sv_search sample_services i query = Inr found
                 \<and> as_str summary_value = Inr summary_text
                 \<and> rank (sv_numerics sample_services) (sv_encode sample_services) summary_text
                      found 3 = Inr top_papers
                 \<and> map_exn (citation_entry (sv_now sample_services)
                      (clean_default sample_services [alpha_paragraph, apple_paragraph] ! i))
                      top_papers = Inr (groups ! i)
                 \<and> length (groups ! i) = length top_papers
                 \<and> list_all (\<lambda>r. row_matched_text r
                       = clean_default sample_services [alpha_paragraph, apple_paragraph] ! i)
                      (groups ! i)
                 \<and> (found = [] \<longrightarrow> groups ! i = [])"
    by (elim exE conjE)
  from g(2) have gl: "length groups = 2" unfolding c by simp
  then have gz: "0 < length groups" by simp
  from a [rule_format, OF gz] obtain query2 found2 where
    "sv_search sample_services 0 query2 = Inr found2" "found2 = [] \<longrightarrow> groups ! 0 = []"
    by blast
  with q have "groups ! 0 = []" by simp
  with g(1) gl have r: "\<exists>groups. sample_rows = concat groups \<and> length groups = 2 \<and> groups ! 0 = []"
    by blast
  from sample_run sample_run_rows m c l2 q e r show ?thesis by simp
qed

end
